(* ===== verification/Bridge_Prelude.thy ===== *)
theory Bridge_Prelude
  imports Main "HOL-Library.Word" "HOL-Library.List_Lexorder"
begin

text \<open>
  Shared vocabulary of the BridgeOS development: machine integers, byte strings, Rust's
  \<open>Result\<close> as a sum type with its propagation operator, computations that thread a state
  and may fail, the few operations of Rust's \<open>str\<close> and integer types the sources use, and
  the records that stand for third-party crates (which are arguments of the model).
\<close>

section \<open>Names of the machine types\<close>

type_synonym u8 = "8 word"
type_synonym u16 = "16 word"
type_synonym u32 = "32 word"
type_synonym u64 = "64 word"
type_synonym bytes = "u8 list"

named_theorems result_simps \<open>propagation of errors through results and computations\<close>
named_theorems codec_simps \<open>byte-level encodings\<close>

section \<open>Results\<close>

text \<open>\<open>Inl e\<close> is Rust's \<open>Err(e)\<close>, \<open>Inr x\<close> is \<open>Ok(x)\<close>; \<open>rbind\<close> is the \<open>?\<close> operator.\<close>

definition rbind :: "'e + 'a \<Rightarrow> ('a \<Rightarrow> 'e + 'b) \<Rightarrow> 'e + 'b" where
  "rbind r f = (case r of Inl e \<Rightarrow> Inl e | Inr x \<Rightarrow> f x)"

definition map_err :: "('e \<Rightarrow> 'f) \<Rightarrow> 'e + 'a \<Rightarrow> 'f + 'a" where
  "map_err g r = (case r of Inl e \<Rightarrow> Inl (g e) | Inr x \<Rightarrow> Inr x)"

definition ok_or :: "'e \<Rightarrow> 'a option \<Rightarrow> 'e + 'a" where
  "ok_or e r = (case r of None \<Rightarrow> Inl e | Some x \<Rightarrow> Inr x)"

definition is_ok :: "'e + 'a \<Rightarrow> bool" where
  "is_ok r = (case r of Inl _ \<Rightarrow> False | Inr _ \<Rightarrow> True)"

lemma rbind_simps [simp, result_simps]:
  "rbind (Inl e) f = Inl e"
  "rbind (Inr x) f = f x"
  by (simp_all add: rbind_def)

lemma rbind_Inr_iff [result_simps]:
  "rbind r f = Inr y \<longleftrightarrow> (\<exists>x. r = Inr x \<and> f x = Inr y)"
  by (cases r) auto

lemma rbind_assoc: "rbind (rbind r f) g = rbind r (\<lambda>x. rbind (f x) g)"
  by (cases r) auto

lemma map_err_simps [simp, result_simps]:
  "map_err g (Inl e) = Inl (g e)"
  "map_err g (Inr x) = Inr x"
  by (simp_all add: map_err_def)

lemma map_err_Inr_iff [simp, result_simps]: "map_err g r = Inr x \<longleftrightarrow> r = Inr x"
  by (cases r) auto

lemma ok_or_simps [simp, result_simps]:
  "ok_or e None = Inl e"
  "ok_or e (Some x) = Inr x"
  by (simp_all add: ok_or_def)

lemma ok_or_Inr_iff [simp, result_simps]: "ok_or e r = Inr x \<longleftrightarrow> r = Some x"
  by (cases r) auto

lemma is_ok_simps [simp]: "\<not> is_ok (Inl e)" "is_ok (Inr x)"
  by (simp_all add: is_ok_def)

lemma is_ok_iff: "is_ok r \<longleftrightarrow> (\<exists>x. r = Inr x)"
  by (cases r) auto

section \<open>Computations with a state\<close>

text \<open>
  An asynchronous method that mutates \<open>self\<close> and may fail is a function from the state to a
  result and the state it leaves. \<open>sbind\<close> sequences two of them and stops at the first
  error, keeping the effects made so far, as \<open>?\<close> does; \<open>signore\<close> is \<open>let _ = \<dots>\<close>.
\<close>

type_synonym ('s, 'e, 'a) comp = "'s \<Rightarrow> ('e + 'a) \<times> 's"

definition sreturn :: "'a \<Rightarrow> ('s, 'e, 'a) comp" where
  "sreturn x = (\<lambda>s. (Inr x, s))"

definition sfail :: "'e \<Rightarrow> ('s, 'e, 'a) comp" where
  "sfail e = (\<lambda>s. (Inl e, s))"

definition slift :: "'e + 'a \<Rightarrow> ('s, 'e, 'a) comp" where
  "slift r = (\<lambda>s. (r, s))"

definition sbind :: "('s, 'e, 'a) comp \<Rightarrow> ('a \<Rightarrow> ('s, 'e, 'b) comp) \<Rightarrow> ('s, 'e, 'b) comp" where
  "sbind m f = (\<lambda>s. case m s of (Inl e, s') \<Rightarrow> (Inl e, s') | (Inr x, s') \<Rightarrow> f x s')"

definition smap_err :: "('e \<Rightarrow> 'f) \<Rightarrow> ('s, 'e, 'a) comp \<Rightarrow> ('s, 'f, 'a) comp" where
  "smap_err g m = (\<lambda>s. case m s of (r, s') \<Rightarrow> (map_err g r, s'))"

definition signore :: "('s, 'e, 'a) comp \<Rightarrow> ('s, 'f, unit) comp" where
  "signore m = (\<lambda>s. (Inr (), snd (m s)))"

definition sget :: "('s \<Rightarrow> 'a) \<Rightarrow> ('s, 'e, 'a) comp" where
  "sget f = (\<lambda>s. (Inr (f s), s))"

definition smodify :: "('s \<Rightarrow> 's) \<Rightarrow> ('s, 'e, unit) comp" where
  "smodify f = (\<lambda>s. (Inr (), f s))"

lemma comp_simps [simp, result_simps]:
  "sreturn x s = (Inr x, s)"
  "sfail e s = (Inl e, s)"
  "slift r s = (r, s)"
  "signore m s = (Inr (), snd (m s))"
  "sget f s = (Inr (f s), s)"
  "smodify g s = (Inr (), g s)"
  by (simp_all add: sreturn_def sfail_def slift_def signore_def sget_def smodify_def)

lemma sbind_step [result_simps]:
  "m s = (Inl e, s') \<Longrightarrow> sbind m f s = (Inl e, s')"
  "m s = (Inr x, s') \<Longrightarrow> sbind m f s = f x s'"
  by (simp_all add: sbind_def)

lemma sbind_Inr_iff [result_simps]:
  "sbind m f s = (Inr y, t) \<longleftrightarrow> (\<exists>x s'. m s = (Inr x, s') \<and> f x s' = (Inr y, t))"
  by (auto simp: sbind_def split: prod.splits sum.splits)

lemma smap_err_Inr_iff [result_simps]:
  "smap_err g m s = (Inr x, t) \<longleftrightarrow> m s = (Inr x, t)"
  by (auto simp: smap_err_def split: prod.splits)

lemma smap_err_step [result_simps]:
  "m s = (r, s') \<Longrightarrow> smap_err g m s = (map_err g r, s')"
  by (simp add: smap_err_def)

text \<open>
  A property of the state that every part of a computation keeps is kept by the whole, on
  the error paths too.
\<close>

definition keeps :: "('s \<Rightarrow> bool) \<Rightarrow> ('s, 'e, 'a) comp \<Rightarrow> bool" where
  "keeps P m \<longleftrightarrow> (\<forall>s. P s \<longrightarrow> P (snd (m s)))"

lemma keepsD: "keeps P m \<Longrightarrow> P s \<Longrightarrow> m s = (r, t) \<Longrightarrow> P t"
  by (metis keeps_def snd_conv)

lemma keeps_basic [intro, simp]:
  "keeps P (sreturn x)" "keeps P (sfail e)" "keeps P (slift r)" "keeps P (sget f)"
  by (simp_all add: keeps_def)

lemma keeps_modify [intro]: "(\<And>s. P s \<Longrightarrow> P (g s)) \<Longrightarrow> keeps P (smodify g)"
  by (simp add: keeps_def)

lemma keeps_bind [intro]:
  "keeps P m \<Longrightarrow> (\<And>x. keeps P (f x)) \<Longrightarrow> keeps P (sbind m f)"
  unfolding keeps_def sbind_def by (force split: prod.splits sum.splits)

lemma keeps_map_err [intro]: "keeps P m \<Longrightarrow> keeps P (smap_err g m)"
  unfolding keeps_def smap_err_def by (force split: prod.splits)

lemma keeps_ignore [intro]: "keeps P m \<Longrightarrow> keeps P (signore m)"
  by (simp add: keeps_def)

section \<open>Byte strings\<close>

text \<open>
  A Rust \<open>String\<close> is its UTF-8 byte sequence. Isabelle's \<open>char\<close> is a byte, so \<open>string\<close>
  carries exactly that sequence and \<open>length\<close> is \<open>String::len\<close>.
\<close>

definition byte_of :: "char \<Rightarrow> u8" where
  "byte_of c = of_char c"

definition str_bytes :: "string \<Rightarrow> bytes" where
  "str_bytes s = map byte_of s"

lemma unat_byte_of [simp]: "unat (byte_of c) = of_char c"
  unfolding byte_of_def of_nat_of_char [symmetric, where ?'a = "8 word"]
  by (simp add: unat_of_nat)

lemma byte_of_eq_iff [simp]: "byte_of c = byte_of d \<longleftrightarrow> c = d"
  by (metis unat_byte_of char_of_char)

lemma str_bytes_simps [simp]:
  "length (str_bytes s) = length s"
  "str_bytes (s @ t) = str_bytes s @ str_bytes t"
  "str_bytes [] = []"
  by (simp_all add: str_bytes_def)

lemma str_bytes_eq_iff [simp]: "str_bytes s = str_bytes t \<longleftrightarrow> s = t"
  unfolding str_bytes_def by (rule inj_map_eq_map) (simp add: inj_def)

subsection \<open>UTF-8\<close>

definition codes :: "string \<Rightarrow> nat list" where
  "codes s = map of_char s"

definition is_cont :: "nat \<Rightarrow> bool" where
  "is_cont b \<longleftrightarrow> 128 \<le> b \<and> b < 192"

text \<open>Length in bytes of the well-formed UTF-8 character a byte sequence starts with.\<close>

definition utf8_width :: "nat \<Rightarrow> nat option" where
  "utf8_width b =
     (if b < 128 then Some 1
      else if 194 \<le> b \<and> b < 224 then Some 2
      else if 224 \<le> b \<and> b < 240 then Some 3
      else if 240 \<le> b \<and> b < 245 then Some 4
      else None)"

definition utf8_second_ok :: "nat \<Rightarrow> nat \<Rightarrow> bool" where
  "utf8_second_ok b c =
     (if b = 224 then 160 \<le> c else if b = 237 then c < 160
      else if b = 240 then 144 \<le> c else if b = 244 then c < 144 else True)"

definition utf8_head :: "nat list \<Rightarrow> nat option" where
  "utf8_head bs =
     (case bs of
        [] \<Rightarrow> None
      | b # r \<Rightarrow>
          (case utf8_width b of
             None \<Rightarrow> None
           | Some n \<Rightarrow>
               if n \<le> Suc (length r) \<and> list_all is_cont (take (n - 1) r) \<and>
                  (n = 1 \<or> utf8_second_ok b (hd r))
               then Some n else None))"

lemma utf8_width_pos: "utf8_width b = Some n \<Longrightarrow> 0 < n"
  by (auto simp: utf8_width_def split: if_splits)

lemma utf8_head_Some:
  "utf8_head bs = Some n \<longleftrightarrow>
     (\<exists>b r. bs = b # r \<and> utf8_width b = Some n \<and> n \<le> Suc (length r) \<and>
        list_all is_cont (take (n - 1) r) \<and> (n = 1 \<or> utf8_second_ok b (hd r)))"
  by (cases bs) (auto simp: utf8_head_def split: option.splits if_splits)

lemma utf8_head_bounds: "utf8_head bs = Some n \<Longrightarrow> 0 < n \<and> n \<le> length bs"
  by (auto simp: utf8_head_Some dest: utf8_width_pos)

function utf8_codes :: "nat list \<Rightarrow> bool" where
  "utf8_codes bs =
     (if bs = [] then True
      else case utf8_head bs of None \<Rightarrow> False | Some n \<Rightarrow> utf8_codes (drop n bs))"
  by pat_completeness auto
termination
  by (relation "measure length") (auto dest: utf8_head_bounds)

declare utf8_codes.simps [simp del]

text \<open>\<open>std::str::from_utf8\<close> succeeds.\<close>

definition utf8_valid :: "string \<Rightarrow> bool" where
  "utf8_valid s = utf8_codes (codes s)"

subsection \<open>Trimming, case folding and decimal output\<close>

text \<open>
  \<open>str::trim\<close> removes the characters with the Unicode property White\_Space:
  U+0009..U+000D, U+0020, U+0085, U+00A0, U+1680, U+2000..U+200A, U+2028, U+2029, U+202F,
  U+205F and U+3000, in their UTF-8 encodings. \<open>ws_len\<close> is the length of the white-space
  character a byte sequence starts with, 0 if there is none.
\<close>

definition ws_len :: "nat list \<Rightarrow> nat" where
  "ws_len bs =
     (case bs of
        [] \<Rightarrow> 0
      | b # r \<Rightarrow>
          if (9 \<le> b \<and> b \<le> 13) \<or> b = 32 then 1
          else (case r of
             [] \<Rightarrow> 0
           | c # t \<Rightarrow>
               if b = 194 \<and> (c = 133 \<or> c = 160) then 2
               else (case t of
                  [] \<Rightarrow> 0
                | d # _ \<Rightarrow>
                    if (b = 225 \<and> c = 154 \<and> d = 128)
                     \<or> (b = 226 \<and> c = 128 \<and> ((128 \<le> d \<and> d \<le> 138) \<or> d = 168 \<or> d = 169 \<or> d = 175))
                     \<or> (b = 226 \<and> c = 129 \<and> d = 159)
                     \<or> (b = 227 \<and> c = 128 \<and> d = 128)
                    then 3 else 0)))"

definition ws_end_len :: "nat list \<Rightarrow> nat" where
  "ws_end_len bs =
     (let n = length bs in
      if 1 \<le> n \<and> ws_len (drop (n - 1) bs) = 1 then 1
      else if 2 \<le> n \<and> ws_len (drop (n - 2) bs) = 2 then 2
      else if 3 \<le> n \<and> ws_len (drop (n - 3) bs) = 3 then 3 else 0)"

function trim_start :: "string \<Rightarrow> string" where
  "trim_start s =
     (if s = [] \<or> ws_len (codes s) = 0 then s else trim_start (drop (ws_len (codes s)) s))"
  by pat_completeness auto
termination
  by (relation "measure length") auto

function trim_end :: "string \<Rightarrow> string" where
  "trim_end s =
     (if s = [] \<or> ws_end_len (codes s) = 0 then s
      else trim_end (take (length s - ws_end_len (codes s)) s))"
  by pat_completeness auto
termination
  by (relation "measure length") auto

declare trim_start.simps [simp del] trim_end.simps [simp del]

definition trim :: "string \<Rightarrow> string" where
  "trim s = trim_end (trim_start s)"

definition lower_char :: "char \<Rightarrow> char" where
  "lower_char c =
     (let n = of_char c :: nat in if 65 \<le> n \<and> n \<le> 90 then char_of (n + 32) else c)"

text \<open>\<open>str::to_ascii_lowercase\<close>.\<close>

definition to_ascii_lowercase :: "string \<Rightarrow> string" where
  "to_ascii_lowercase s = map lower_char s"

definition digit :: "nat \<Rightarrow> char" where
  "digit d = char_of (48 + d)"

text \<open>\<open>Display\<close> of an unsigned integer, and \<open>{:03}\<close>.\<close>

fun show_nat :: "nat \<Rightarrow> string" where
  "show_nat n = (if n < 10 then [digit n] else show_nat (n div 10) @ [digit (n mod 10)])"

declare show_nat.simps [simp del]

definition show_pad3 :: "nat \<Rightarrow> string" where
  "show_pad3 n = replicate (3 - length (show_nat n)) CHR ''0'' @ show_nat n"

lemma show_nat_nonempty [simp]: "show_nat n \<noteq> []"
  by (subst show_nat.simps) simp

lemma show_pad3_small:
  assumes "n < 1000"
  shows "show_pad3 n = [digit (n div 100), digit (n div 10 mod 10), digit (n mod 10)]"
proof -
  have zero: "digit 0 = CHR ''0''" by code_simp
  have rep: "replicate 2 c = [c, c]" for c :: char by (simp add: numeral_2_eq_2)
  consider "n < 10" | "10 \<le> n" "n < 100" | "100 \<le> n" by linarith
  then show ?thesis
  proof cases
    case 1
    then show ?thesis by (simp add: show_pad3_def show_nat.simps [of n] zero rep)
  next
    case 2
    then have "n div 10 < 10" "n div 100 = 0" by auto
    with 2 show ?thesis
      by (simp add: show_pad3_def show_nat.simps [of n] show_nat.simps [of "n div 10"] zero)
  next
    case 3
    with assms have "10 \<le> n div 10" "n div 10 < 100" "n div 10 div 10 = n div 100"
      "n div 100 < 10"
      by (auto simp: div_mult2_eq)
    with 3 show ?thesis
      by (simp add: show_pad3_def show_nat.simps [of n] show_nat.simps [of "n div 10"]
          show_nat.simps [of "n div 100"])
  qed
qed

lemma of_char_digit: "d < 10 \<Longrightarrow> of_char (digit d) = 48 + d"
  by (simp add: digit_def)

lemma digit_eq_iff: "d < 10 \<Longrightarrow> e < 10 \<Longrightarrow> digit d = digit e \<longleftrightarrow> d = e"
  by (metis of_char_digit add_left_cancel)

section \<open>Integers as byte sequences\<close>

text \<open>\<open>to_be_bytes\<close> of a \<open>k\<close>-byte integer and \<open>from_be_bytes\<close>.\<close>

definition be_bytes :: "nat \<Rightarrow> nat \<Rightarrow> bytes" where
  "be_bytes k n = map (\<lambda>i. of_nat (n div 256 ^ i)) (rev [0..<k])"

definition be_nat :: "bytes \<Rightarrow> nat" where
  "be_nat bs = foldl (\<lambda>a b. a * 256 + unat b) 0 bs"

definition le_bytes :: "nat \<Rightarrow> nat \<Rightarrow> bytes" where
  "le_bytes k n = rev (be_bytes k n)"

lemma length_be_bytes [simp, codec_simps]: "length (be_bytes k n) = k"
  by (simp add: be_bytes_def)

lemma be_bytes_Suc: "be_bytes (Suc k) n = be_bytes k (n div 256) @ [of_nat n]"
proof -
  have "rev [0..<Suc k] = map Suc (rev [0..<k]) @ [0]"
    by (simp add: upt_conv_Cons rev_map [symmetric] map_Suc_upt del: upt_Suc)
  then show ?thesis
    by (simp add: be_bytes_def comp_def div_mult2_eq del: upt_Suc)
qed

lemma be_nat_snoc: "be_nat (bs @ [b]) = be_nat bs * 256 + unat b"
  by (simp add: be_nat_def)

lemma be_nat_be_bytes [codec_simps]: "n < 256 ^ k \<Longrightarrow> be_nat (be_bytes k n) = n"
proof (induction k arbitrary: n)
  case 0
  then show ?case by (simp add: be_bytes_def be_nat_def)
next
  case (Suc k)
  have "n div 256 < 256 ^ k"
    using Suc.prems by (simp add: less_mult_imp_div_less mult.commute)
  then show ?case
    by (simp add: be_bytes_Suc be_nat_snoc Suc.IH unat_of_nat)
qed

lemma be_nat_bound: "be_nat bs < 256 ^ length bs"
proof (induction bs rule: rev_induct)
  case Nil
  then show ?case by (simp add: be_nat_def)
next
  case (snoc b bs)
  have "unat b < 256" using unsigned_less [of b] by simp
  with snoc show ?case by (simp add: be_nat_snoc)
qed

section \<open>Third-party crates\<close>

text \<open>
  The code calls crates whose sources are not part of the repository. What it calls of them
  is a field of one of these records and an argument of every definition that uses it:
  \<open>sha2\<close> and \<open>blake3\<close> (a hasher fed in pieces is the function of the concatenation),
  \<open>ed25519-dalek\<close> (keys and signatures as their byte encodings), \<open>hex\<close>, and one
  \<open>postcard\<close> codec per message type. Errors of these crates are their rendered text.
\<close>

record crates =
  sha256 :: "bytes \<Rightarrow> bytes"
  blake3 :: "bytes \<Rightarrow> bytes"
  ed_public :: "bytes \<Rightarrow> bytes"
  ed_sign :: "bytes \<Rightarrow> bytes \<Rightarrow> bytes"
  ed_key_check :: "bytes \<Rightarrow> string + unit"
  ed_verify_strict :: "bytes \<Rightarrow> bytes \<Rightarrow> bytes \<Rightarrow> string + unit"
  hex_encode :: "bytes \<Rightarrow> string"
  hex_decode :: "string \<Rightarrow> string + bytes"
  hex_decode_to_slice :: "string \<Rightarrow> nat \<Rightarrow> string + bytes"

record 'm postcard =
  to_allocvec :: "'m \<Rightarrow> string + bytes"
  from_bytes :: "bytes \<Rightarrow> string + 'm"

text \<open>The documented behaviour the properties rely on, as named hypotheses.\<close>

definition postcard_roundtrip :: "'m postcard \<Rightarrow> bool" where
  "postcard_roundtrip p \<longleftrightarrow> (\<forall>m b. to_allocvec p m = Inr b \<longrightarrow> from_bytes p b = Inr m)"

definition hex_roundtrip :: "'x crates_scheme \<Rightarrow> bool" where
  "hex_roundtrip c \<longleftrightarrow>
     (\<forall>b. hex_decode c (hex_encode c b) = Inr b \<and>
          hex_decode_to_slice c (hex_encode c b) (length b) = Inr b)"

definition ed25519_correct :: "'x crates_scheme \<Rightarrow> bool" where
  "ed25519_correct c \<longleftrightarrow>
     (\<forall>k m. ed_verify_strict c (ed_public c k) m (ed_sign c k m) = Inr () \<and>
            ed_key_check c (ed_public c k) = Inr () \<and>
            length (ed_sign c k m) = 64 \<and> length (ed_public c k) = 32)"

lemma postcard_roundtripD:
  "postcard_roundtrip p \<Longrightarrow> to_allocvec p m = Inr b \<Longrightarrow> from_bytes p b = Inr m"
  by (simp add: postcard_roundtrip_def)

lemma hex_roundtripD [simp]:
  assumes "hex_roundtrip c"
  shows "hex_decode c (hex_encode c b) = Inr b"
    "hex_decode_to_slice c (hex_encode c b) (length b) = Inr b"
  using assms by (simp_all add: hex_roundtrip_def)

lemma hex_encode_inj: "hex_roundtrip c \<Longrightarrow> hex_encode c a = hex_encode c b \<longleftrightarrow> a = b"
  by (metis hex_roundtripD(1) sum.inject(2))

lemma ed25519_correctD:
  assumes "ed25519_correct c"
  shows "ed_verify_strict c (ed_public c k) m (ed_sign c k m) = Inr ()"
    "ed_key_check c (ed_public c k) = Inr ()"
    "length (ed_sign c k m) = 64" "length (ed_public c k) = 32"
  using assms by (simp_all add: ed25519_correct_def)

end
