(* ===== verification/Core_Types.thy ===== *)
theory Core_Types
  imports Bridge_Prelude
begin

text \<open>
  The crate \<open>bridge-core\<close> (\<open>crates/bridge-core/src/types.rs\<close>, \<open>error.rs\<close>): protocol
  versions, node identifiers, device types, capability flags and the shared error type.
\<close>

unbundle bit_operations_syntax

section \<open>Errors\<close>

datatype bridge_error =
    VersionMismatch u16 u16
  | Framing string
  | FrameTooLarge nat nat
  | InvalidMagic
  | Identity string
  | AuthenticationFailed
  | Serialization string
  | ConnectionClosed
  | IncompatibleCapabilities string
  | Internal string

fun bridge_error_display :: "bridge_error \<Rightarrow> string" where
  "bridge_error_display (VersionMismatch expected received) =
     ''Invalid protocol version: expected major '' @ show_nat (unat expected) @
     '', received '' @ show_nat (unat received)"
| "bridge_error_display (Framing s) = ''Framing error: '' @ s"
| "bridge_error_display (FrameTooLarge len mx) =
     ''Frame length '' @ show_nat len @ '' exceeds maximum allowable bound '' @ show_nat mx"
| "bridge_error_display InvalidMagic = ''Invalid magic bytes in frame header''"
| "bridge_error_display (Identity s) = ''Cryptographic identity error: '' @ s"
| "bridge_error_display AuthenticationFailed = ''Authentication challenge failed''"
| "bridge_error_display (Serialization s) = ''Serialization error: '' @ s"
| "bridge_error_display ConnectionClosed = ''Connection closed unexpectedly''"
| "bridge_error_display (IncompatibleCapabilities s) = ''Incompatible capabilities: '' @ s"
| "bridge_error_display (Internal s) = ''Internal error: '' @ s"

section \<open>Protocol versions\<close>

record protocol_version =
  major :: u16
  minor :: u16

definition version_new :: "u16 \<Rightarrow> u16 \<Rightarrow> protocol_version" where
  "version_new ma mi = \<lparr>major = ma, minor = mi\<rparr>"

definition CURRENT :: protocol_version where
  "CURRENT = \<lparr>major = 1, minor = 0\<rparr>"

definition is_compatible_with :: "protocol_version \<Rightarrow> protocol_version \<Rightarrow> bool" where
  "is_compatible_with self other = (major self = major other)"

definition version_display :: "protocol_version \<Rightarrow> string" where
  "version_display v = show_nat (unat (major v)) @ ''.'' @ show_nat (unat (minor v))"

section \<open>Node identifiers\<close>

text \<open>\<open>[u8; 32]\<close> is a byte list; \<open>node_id_wf\<close> is the length its type fixes.\<close>

datatype node_id = NodeId (node_bytes: bytes)

definition node_id_wf :: "node_id \<Rightarrow> bool" where
  "node_id_wf n \<longleftrightarrow> length (node_bytes n) = 32"

definition node_from_bytes :: "bytes \<Rightarrow> node_id" where
  "node_from_bytes b = NodeId b"

definition to_hex :: "'x crates_scheme \<Rightarrow> node_id \<Rightarrow> string" where
  "to_hex c n = hex_encode c (node_bytes n)"

definition from_hex :: "'x crates_scheme \<Rightarrow> string \<Rightarrow> string + node_id" where
  "from_hex c s = rbind (hex_decode_to_slice c s 32) (\<lambda>b. Inr (NodeId b))"

definition node_id_from_str :: "'x crates_scheme \<Rightarrow> string \<Rightarrow> string + node_id" where
  "node_id_from_str c s = from_hex c s"

definition node_id_debug :: "'x crates_scheme \<Rightarrow> node_id \<Rightarrow> string" where
  "node_id_debug c n =
     ''NodeId('' @ take 8 (to_hex c n) @ ''..'' @ drop 56 (to_hex c n) @ '')''"

definition node_id_display :: "'x crates_scheme \<Rightarrow> node_id \<Rightarrow> string" where
  "node_id_display c n = to_hex c n"

lemma from_hex_to_hex [simp]:
  assumes "hex_roundtrip c" "node_id_wf n"
  shows "from_hex c (to_hex c n) = Inr n"
  using hex_roundtripD(2) [OF assms(1), of "node_bytes n"] assms(2)
  by (cases n) (simp add: from_hex_def to_hex_def node_id_wf_def)

lemma to_hex_inj: "hex_roundtrip c \<Longrightarrow> to_hex c m = to_hex c n \<longleftrightarrow> m = n"
  by (simp add: to_hex_def hex_encode_inj node_id.expand) (metis node_id.expand)

section \<open>Device types\<close>

datatype device_type = Windows | Android | Linux | MacOS | Unknown

fun device_type_display :: "device_type \<Rightarrow> string" where
  "device_type_display Windows = ''Windows''"
| "device_type_display Android = ''Android''"
| "device_type_display Linux = ''Linux''"
| "device_type_display MacOS = ''macOS''"
| "device_type_display Unknown = ''Unknown''"

definition device_type_from_str :: "string \<Rightarrow> device_type" where
  "device_type_from_str s =
     (let t = to_ascii_lowercase (trim s) in
      if t = ''windows'' then Windows
      else if t = ''android'' then Android
      else if t = ''linux'' then Linux
      else if t = ''macos'' \<or> t = ''darwin'' then MacOS
      else Unknown)"

lemma device_type_roundtrip [simp]: "device_type_from_str (device_type_display d) = d"
  by (cases d; hypsubst; code_simp)

section \<open>Capabilities\<close>

record capabilities =
  flags :: u32

definition NONE :: u32 where "NONE = 0"
definition FILE_TRANSFER :: u32 where "FILE_TRANSFER = push_bit 0 1"
definition CLIPBOARD_TEXT :: u32 where "CLIPBOARD_TEXT = push_bit 1 1"
definition CLIPBOARD_IMAGE :: u32 where "CLIPBOARD_IMAGE = push_bit 2 1"
definition NOTIFICATIONS :: u32 where "NOTIFICATIONS = push_bit 3 1"
definition REMOTE_INPUT :: u32 where "REMOTE_INPUT = push_bit 4 1"
definition RELAY_SUPPORT :: u32 where "RELAY_SUPPORT = push_bit 5 1"

definition from_bits :: "u32 \<Rightarrow> capabilities" where
  "from_bits f = \<lparr>flags = f\<rparr>"

definition caps_all :: capabilities where
  "caps_all = \<lparr>flags = FILE_TRANSFER OR CLIPBOARD_TEXT OR CLIPBOARD_IMAGE OR NOTIFICATIONS
     OR REMOTE_INPUT OR RELAY_SUPPORT\<rparr>"

definition caps_contains :: "capabilities \<Rightarrow> u32 \<Rightarrow> bool" where
  "caps_contains self flag = (flags self AND flag = flag)"

definition caps_insert :: "capabilities \<Rightarrow> u32 \<Rightarrow> capabilities" where
  "caps_insert self flag = self\<lparr>flags := flags self OR flag\<rparr>"

definition caps_remove :: "capabilities \<Rightarrow> u32 \<Rightarrow> capabilities" where
  "caps_remove self flag = self\<lparr>flags := flags self AND NOT flag\<rparr>"

definition caps_intersect :: "capabilities \<Rightarrow> capabilities \<Rightarrow> capabilities" where
  "caps_intersect self other = \<lparr>flags = flags self AND flags other\<rparr>"

lemmas caps_defs = caps_contains_def caps_insert_def caps_remove_def caps_intersect_def

lemma caps_contains_bits:
  "caps_contains a f \<longleftrightarrow> (\<forall>i. bit f i \<longrightarrow> bit (flags a) i)"
proof
  assume "caps_contains a f"
  then show "\<forall>i. bit f i \<longrightarrow> bit (flags a) i"
    unfolding caps_contains_def by (metis bit_and_iff)
next
  assume "\<forall>i. bit f i \<longrightarrow> bit (flags a) i"
  then show "caps_contains a f"
    unfolding caps_contains_def by (intro bit_eqI) (auto simp: bit_and_iff)
qed

lemma caps_contains_intersect:
  "caps_contains (caps_intersect a b) f \<longleftrightarrow> caps_contains a f \<and> caps_contains b f"
  by (auto simp: caps_contains_bits caps_intersect_def bit_and_iff)

lemma caps_contains_insert:
  "caps_contains (caps_insert a f) g \<longleftrightarrow> (\<forall>i. bit g i \<longrightarrow> bit (flags a) i \<or> bit f i)"
  by (auto simp: caps_contains_bits caps_insert_def bit_or_iff)

lemma caps_intersect_commute: "caps_intersect a b = caps_intersect b a"
  by (simp add: caps_intersect_def and.commute)

text \<open>The known capabilities are the six lowest bits.\<close>

lemma caps_all_flags: "flags caps_all = 63"
  by code_simp

end
