(* ===== verification/Sample_Instances.thy ===== *)
theory Sample_Instances
  imports Bridge_Prelude
begin

text \<open>
  Concrete functions for the third-party parameters, on which the hypotheses about them
  hold: the hexadecimal codec, a stand-in for the hash and signature crates, and a codec
  that knows a finite table of messages. Only witnesses use them.
\<close>

section \<open>Hexadecimal\<close>

definition hex_char :: "nat \<Rightarrow> char" where
  "hex_char n = (if n < 10 then char_of (48 + n) else char_of (87 + n))"

definition hex_val :: "char \<Rightarrow> nat option" where
  "hex_val ch =
     (let n = of_char ch :: nat in
      if 48 \<le> n \<and> n \<le> 57 then Some (n - 48)
      else if 97 \<le> n \<and> n \<le> 102 then Some (n - 87)
      else if 65 \<le> n \<and> n \<le> 70 then Some (n - 55) else None)"

fun sample_hex_encode :: "bytes \<Rightarrow> string" where
  "sample_hex_encode [] = []"
| "sample_hex_encode (b # bs) =
     hex_char (unat b div 16) # hex_char (unat b mod 16) # sample_hex_encode bs"

fun sample_hex_decode :: "string \<Rightarrow> string + bytes" where
  "sample_hex_decode [] = Inr []"
| "sample_hex_decode [x] = Inl ''Odd number of digits''"
| "sample_hex_decode (x # y # r) =
     rbind (ok_or ''Invalid character'' (hex_val x)) (\<lambda>h.
     rbind (ok_or ''Invalid character'' (hex_val y)) (\<lambda>l.
     rbind (sample_hex_decode r) (\<lambda>bs. Inr (of_nat (16 * h + l) # bs))))"

definition sample_hex_decode_to_slice :: "string \<Rightarrow> nat \<Rightarrow> string + bytes" where
  "sample_hex_decode_to_slice s n =
     rbind (sample_hex_decode s) (\<lambda>b. if length b = n then Inr b else Inl ''Invalid string length'')"

lemma hex_val_char: "n < 16 \<Longrightarrow> hex_val (hex_char n) = Some n"
  by (simp add: hex_val_def hex_char_def Let_def)

lemma sample_hex_roundtrip: "sample_hex_decode (sample_hex_encode b) = Inr b"
proof (induction b)
  case Nil
  then show ?case by simp
next
  case (Cons w b)
  have "unat w < 256" using unsigned_less [of w] by simp
  then have "unat w div 16 < 16" by simp
  moreover have "of_nat (16 * (unat w div 16) + unat w mod 16) = w"
    by (simp del: of_nat_add of_nat_mult)
  ultimately show ?case using Cons by (simp add: hex_val_char del: of_nat_add of_nat_mult)
qed

section \<open>Hashing and signatures\<close>

definition sample_digest :: "bytes \<Rightarrow> bytes" where
  "sample_digest m = take 32 (rev m @ replicate 32 0)"

definition sample_public :: "bytes \<Rightarrow> bytes" where
  "sample_public k = take 32 (k @ replicate 32 0)"

definition sample_tag :: "bytes \<Rightarrow> bytes \<Rightarrow> bytes" where
  "sample_tag pk m = take 64 (pk @ m @ replicate 64 0)"

definition sample_crates :: crates where
  "sample_crates =
     \<lparr>sha256 = sample_digest, blake3 = sample_digest,
      ed_public = sample_public,
      ed_sign = (\<lambda>k m. sample_tag (sample_public k) m),
      ed_key_check = (\<lambda>b. if length b = 32 then Inr () else Inl ''invalid point''),
      ed_verify_strict = (\<lambda>pk m sg. if sg = sample_tag pk m then Inr () else Inl ''signature error''),
      hex_encode = sample_hex_encode,
      hex_decode = sample_hex_decode,
      hex_decode_to_slice = sample_hex_decode_to_slice\<rparr>"

lemma sample_crates_sel [simp]:
  "sha256 sample_crates = sample_digest"
  "blake3 sample_crates = sample_digest"
  "ed_public sample_crates = sample_public"
  "ed_sign sample_crates k m = sample_tag (sample_public k) m"
  "ed_key_check sample_crates b = (if length b = 32 then Inr () else Inl ''invalid point'')"
  "ed_verify_strict sample_crates pk m sg =
     (if sg = sample_tag pk m then Inr () else Inl ''signature error'')"
  "hex_encode sample_crates = sample_hex_encode"
  "hex_decode sample_crates = sample_hex_decode"
  "hex_decode_to_slice sample_crates = sample_hex_decode_to_slice"
  by (simp_all add: sample_crates_def)

lemma sample_hex [simp]: "hex_roundtrip sample_crates"
  by (simp add: hex_roundtrip_def sample_hex_decode_to_slice_def sample_hex_roundtrip)

lemma length_sample_public [simp]: "length (sample_public k) = 32"
  by (simp add: sample_public_def min_def)

lemma length_sample_tag: "length pk = 32 \<Longrightarrow> length (sample_tag pk m) = 64"
  by (simp add: sample_tag_def min_absorb2)

lemma sample_ed25519 [simp]: "ed25519_correct sample_crates"
  by (simp add: ed25519_correct_def length_sample_tag)

section \<open>Message codecs\<close>

definition table_codec :: "('m \<times> bytes) list \<Rightarrow> 'm postcard" where
  "table_codec tab =
     \<lparr>to_allocvec = (\<lambda>m. ok_or ''unsupported'' (map_of tab m)),
      from_bytes = (\<lambda>b. ok_or ''unexpected'' (map_of (map (\<lambda>(m, b). (b, m)) tab) b))\<rparr>"

lemma table_codec_roundtrip:
  assumes "distinct (map snd tab)"
  shows "postcard_roundtrip (table_codec tab)"
proof -
  have "map_of (map (\<lambda>(m, b). (b, m)) tab) b = Some m" if "map_of tab m = Some b" for m b
  proof (rule map_of_is_SomeI)
    show "distinct (map fst (map (\<lambda>(m, b). (b, m)) tab))"
      using assms by (simp add: comp_def split_def)
    show "(b, m) \<in> set (map (\<lambda>(m, b). (b, m)) tab)"
      using map_of_SomeD [OF that] by force
  qed
  then show ?thesis by (simp add: postcard_roundtrip_def table_codec_def)
qed

end
