(* ===== verification/Protocol.thy ===== *)
theory Protocol
  imports Core_Types Sample_Instances
begin

text \<open>
  The crate \<open>bridge-protocol\<close>: the frame types of \<open>frame.rs\<close> and \<open>handshake.rs\<close> and the
  length-delimited wire format of \<open>codec.rs\<close>. The \<open>postcard\<close> codec of \<open>Frame\<close> is the
  argument \<open>pc\<close>.
\<close>

section \<open>Handshake messages\<close>

record client_hello =
  ch_version :: protocol_version
  ch_node_id :: node_id
  ch_device_name :: string
  ch_client_nonce :: bytes
  ch_capabilities :: capabilities

record server_hello =
  sh_agreed_version :: protocol_version
  sh_node_id :: node_id
  sh_device_name :: string
  sh_server_nonce :: bytes
  sh_negotiated_capabilities :: capabilities

record auth_response =
  signature :: bytes

record auth_result =
  success :: bool
  reason :: "string option"

definition auth_ok :: auth_result where
  "auth_ok = \<lparr>success = True, reason = None\<rparr>"

definition auth_failed :: "string \<Rightarrow> auth_result" where
  "auth_failed r = \<lparr>success = False, reason = Some r\<rparr>"

datatype handshake_frame =
    ClientHello client_hello
  | ServerHello server_hello
  | AuthResponse auth_response
  | AuthResult auth_result

text \<open>
  \<open>signature_serde\<close>: a signature is read back from a byte string or from a sequence of
  deserialised elements; \<open>invalid_length\<close> is the text serde gives the missing element.
\<close>

definition sig_visit_bytes :: "bytes \<Rightarrow> string + bytes" where
  "sig_visit_bytes v =
     (if length v = 64 then Inr v
      else Inl (''expected 64 bytes, got '' @ show_nat (length v)))"

fun sig_fill :: "(nat \<Rightarrow> string) \<Rightarrow> nat \<Rightarrow> nat \<Rightarrow> (string + u8) list \<Rightarrow> string + bytes" where
  "sig_fill invalid_length i 0 xs = Inr []"
| "sig_fill invalid_length i (Suc k) [] = Inl (invalid_length i)"
| "sig_fill invalid_length i (Suc k) (Inl e # xs) = Inl e"
| "sig_fill invalid_length i (Suc k) (Inr b # xs) =
     rbind (sig_fill invalid_length (Suc i) k xs) (\<lambda>r. Inr (b # r))"

definition sig_visit_seq :: "(nat \<Rightarrow> string) \<Rightarrow> (string + u8) list \<Rightarrow> string + bytes" where
  "sig_visit_seq invalid_length xs = sig_fill invalid_length 0 64 xs"

lemma sig_fill_length: "sig_fill il i k xs = Inr r \<Longrightarrow> length r = k"
  by (induction il i k xs arbitrary: r rule: sig_fill.induct) (auto simp: rbind_Inr_iff)

lemma sig_fill_complete: "k \<le> length bs \<Longrightarrow> sig_fill il i k (map Inr bs) = Inr (take k bs)"
proof (induction k arbitrary: i bs)
  case 0
  then show ?case by simp
next
  case (Suc k)
  then show ?case by (cases bs) auto
qed

section \<open>Frames\<close>

datatype disconnect_reason = Graceful | ProtocolError | AuthenticationFailedReason | Timeout

datatype control_frame =
    Ping u64
  | Pong u64
  | Disconnect disconnect_reason

record data_frame =
  channel :: u16
  payload :: bytes

definition CHANNEL_CLIPBOARD :: u16 where "CHANNEL_CLIPBOARD = 1"
definition CHANNEL_FILE_TRANSFER :: u16 where "CHANNEL_FILE_TRANSFER = 2"
definition CHANNEL_NOTIFICATIONS :: u16 where "CHANNEL_NOTIFICATIONS = 3"
definition CHANNEL_REMOTE_INPUT :: u16 where "CHANNEL_REMOTE_INPUT = 4"
definition CHANNEL_PAIRING :: u16 where "CHANNEL_PAIRING = 5"

lemmas channel_defs = CHANNEL_CLIPBOARD_def CHANNEL_FILE_TRANSFER_def
  CHANNEL_NOTIFICATIONS_def CHANNEL_REMOTE_INPUT_def CHANNEL_PAIRING_def

definition data_frame_new :: "u16 \<Rightarrow> bytes \<Rightarrow> data_frame" where
  "data_frame_new ch p = \<lparr>channel = ch, payload = p\<rparr>"

lemma data_frame_new_simps [simp]:
  "channel (data_frame_new ch p) = ch" "payload (data_frame_new ch p) = p"
  by (simp_all add: data_frame_new_def)

datatype frame =
    Handshake handshake_frame
  | Control control_frame
  | Data data_frame

definition MAGIC :: bytes where
  "MAGIC = str_bytes ''BRG1''"

definition MAX_FRAME_LENGTH :: nat where
  "MAX_FRAME_LENGTH = 16 * 1024 * 1024"

lemma length_MAGIC [simp, codec_simps]: "length MAGIC = 4"
  by (simp add: MAGIC_def)

lemma MAX_FRAME_LENGTH_lt: "n \<le> MAX_FRAME_LENGTH \<Longrightarrow> n < 256 ^ 4"
  by (simp add: MAX_FRAME_LENGTH_def)

section \<open>The codec\<close>

definition encode_frame :: "frame postcard \<Rightarrow> frame \<Rightarrow> bridge_error + bytes" where
  "encode_frame pc f =
     rbind (map_err (\<lambda>e. Serialization (''Postcard serialization error: '' @ e))
              (to_allocvec pc f))
       (\<lambda>p. let len = length p in
          if len > MAX_FRAME_LENGTH then Inl (FrameTooLarge len MAX_FRAME_LENGTH)
          else if len \<ge> 2 ^ 32 then Inl (FrameTooLarge len MAX_FRAME_LENGTH)
          else Inr (MAGIC @ be_bytes 4 len @ p))"

definition decode_payload :: "frame postcard \<Rightarrow> bytes \<Rightarrow> bridge_error + frame" where
  "decode_payload pc p =
     map_err (\<lambda>e. Serialization (''Postcard deserialization error: '' @ e)) (from_bytes pc p)"

definition decode_frame :: "frame postcard \<Rightarrow> bytes \<Rightarrow> bridge_error + frame" where
  "decode_frame pc bs =
     (if length bs < 8 then
        Inl (Framing (''Buffer too short for header: got '' @ show_nat (length bs) @
          '' bytes, expected at least 8''))
      else if take 4 bs \<noteq> MAGIC then Inl InvalidMagic
      else let len = be_nat (take 4 (drop 4 bs)) in
        if len > MAX_FRAME_LENGTH then Inl (FrameTooLarge len MAX_FRAME_LENGTH)
        else if length bs < 8 + len then
          Inl (Framing (''Incomplete frame: expected '' @ show_nat (8 + len) @
            '' bytes total, have '' @ show_nat (length bs)))
        else decode_payload pc (take len (drop 8 bs)))"

text \<open>What the encoder emits: the magic, the length and at most 16 MB of payload.\<close>

lemma encode_frame_Inr_iff:
  "encode_frame pc f = Inr b \<longleftrightarrow>
     (\<exists>p. to_allocvec pc f = Inr p \<and> length p \<le> MAX_FRAME_LENGTH \<and>
        b = MAGIC @ be_bytes 4 (length p) @ p)"
proof -
  have "len \<le> MAX_FRAME_LENGTH \<Longrightarrow> \<not> len \<ge> 2 ^ 32" for len :: nat
    by (simp add: MAX_FRAME_LENGTH_def)
  then show ?thesis
    unfolding encode_frame_def Let_def rbind_Inr_iff map_err_Inr_iff
    by (metis (no_types, opaque_lifting) linorder_not_le sum.distinct(1) sum.inject(2))
qed

text \<open>What the decoder accepts, exactly.\<close>

lemma decode_frame_header:
  assumes "length p \<le> MAX_FRAME_LENGTH"
  shows "decode_frame pc (MAGIC @ be_bytes 4 (length p) @ p @ rest) = decode_payload pc p"
  using be_nat_be_bytes [OF MAX_FRAME_LENGTH_lt [OF assms]] assms
  by (simp add: decode_frame_def Let_def)

lemma be_bytes_be_nat4: "length h = 4 \<Longrightarrow> be_bytes 4 (be_nat h) = h"
proof -
  have *: "be_bytes k (be_nat h) = h" if "length h = k" for k h
    using that
  proof (induction h arbitrary: k rule: rev_induct)
    case Nil
    then show ?case by (simp add: be_bytes_def)
  next
    case (snoc b bs)
    have "unat b < 256" using unsigned_less [of b] by simp
    then have "be_nat (bs @ [b]) div 256 = be_nat bs"
      by (simp add: be_nat_snoc)
    moreover have "of_nat (be_nat (bs @ [b])) = b"
      using \<open>unat b < 256\<close> by (simp add: be_nat_snoc word_unat_eq_iff unat_of_nat del: of_nat_add of_nat_mult)
    ultimately show ?case
      using snoc by (cases k) (simp_all add: be_bytes_Suc)
  qed
  show "length h = 4 \<Longrightarrow> ?thesis" by (rule *)
qed

lemma decode_frame_Inr_iff:
  "decode_frame pc bs = Inr f \<longleftrightarrow>
     (\<exists>p rest. bs = MAGIC @ be_bytes 4 (length p) @ p @ rest \<and>
        length p \<le> MAX_FRAME_LENGTH \<and> from_bytes pc p = Inr f)"
proof
  assume dec: "decode_frame pc bs = Inr f"
  define len where "len = be_nat (take 4 (drop 4 bs))"
  have h: "\<not> length bs < 8" "take 4 bs = MAGIC" "\<not> len > MAX_FRAME_LENGTH"
    "\<not> length bs < 8 + len" "decode_payload pc (take len (drop 8 bs)) = Inr f"
    using dec unfolding decode_frame_def Let_def len_def by (auto split: if_splits)
  have "be_bytes 4 len = take 4 (drop 4 bs)"
    unfolding len_def by (rule be_bytes_be_nat4) (use h(1) in simp)
  moreover have "bs = take 4 bs @ take 4 (drop 4 bs) @ take len (drop 8 bs) @ drop len (drop 8 bs)"
  proof -
    have "drop 8 bs = drop 4 (drop 4 bs)" by simp
    then show ?thesis by (simp only: append_take_drop_id)
  qed
  moreover have "length (take len (drop 8 bs)) = len" using h by simp
  ultimately show "\<exists>p rest. bs = MAGIC @ be_bytes 4 (length p) @ p @ rest \<and>
        length p \<le> MAX_FRAME_LENGTH \<and> from_bytes pc p = Inr f"
    using h by (intro exI [of _ "take len (drop 8 bs)"] exI [of _ "drop len (drop 8 bs)"])
      (simp add: decode_payload_def)
next
  assume "\<exists>p rest. bs = MAGIC @ be_bytes 4 (length p) @ p @ rest \<and>
        length p \<le> MAX_FRAME_LENGTH \<and> from_bytes pc p = Inr f"
  then show "decode_frame pc bs = Inr f"
    by (auto simp: decode_frame_header decode_payload_def)
qed

text \<open>C28: the frame codec is exact. An encoded frame has at most 16 MiB of payload after its
  8-byte header and decodes to itself, whatever bytes follow it; the decoder accepts exactly
  the byte strings that start with the magic, the big-endian length of a payload within the
  limit and a payload that deserialises.\<close>

theorem frame_codec_exact:
  assumes "postcard_roundtrip pc" "encode_frame pc f = Inr b"
  shows "length b \<le> 8 + 16 * 1024 * 1024 \<and> decode_frame pc (b @ rest) = Inr f \<and>
    (decode_frame pc bs = Inr g \<longleftrightarrow>
       (\<exists>p r. bs = MAGIC @ be_bytes 4 (length p) @ p @ r \<and> length p \<le> MAX_FRAME_LENGTH \<and>
          postcard.from_bytes pc p = Inr g))"
proof -
  obtain p where p: "to_allocvec pc f = Inr p" "length p \<le> MAX_FRAME_LENGTH"
      "b = MAGIC @ be_bytes 4 (length p) @ p"
    using assms(2) by (auto simp: encode_frame_Inr_iff)
  then have "decode_frame pc (b @ rest) = Inr f"
    using postcard_roundtripD [OF assms(1) p(1)] decode_frame_header [OF p(2), of pc rest]
    by (simp add: decode_payload_def)
  moreover have "length b \<le> 8 + 16 * 1024 * 1024" using p by (simp add: MAX_FRAME_LENGTH_def)
  ultimately show ?thesis using decode_frame_Inr_iff by blast
qed

theorem frame_codec_exact_witness:
  "decode_frame (table_codec [(Control (Ping 1), [7])]) ((MAGIC @ be_bytes 4 1 @ [7]) @ [1, 2]) =
     Inr (Control (Ping 1))"
proof -
  have "encode_frame (table_codec [(Control (Ping 1), [7])]) (Control (Ping 1)) =
      Inr (MAGIC @ be_bytes 4 1 @ [7])"
    by (simp add: encode_frame_Inr_iff table_codec_def MAX_FRAME_LENGTH_def)
  from frame_codec_exact [OF _ this, of "[1, 2]"] show ?thesis by (simp add: table_codec_roundtrip)
qed

end
