(* ===== verification/Transport.thy ===== *)
theory Transport
  imports Protocol Sample_Instances
begin

text \<open>
  The crate \<open>bridge-transport\<close>: \<open>FramedStream\<close> of \<open>framed.rs\<close>, generic in the stream it
  wraps. The stream's \<open>read_exact\<close>, \<open>write_all\<close> and \<open>flush\<close> (traits of the async runtime)
  are the record \<open>io\<close>, over a stream state of any type; an error carries its kind and text.
\<close>

section \<open>Streams\<close>

datatype io_kind = UnexpectedEof | OtherIo

record io_error =
  ioe_kind :: io_kind
  ioe_text :: string

record 's io_ops =
  read_exact :: "nat \<Rightarrow> 's \<Rightarrow> (io_error + bytes) \<times> 's"
  write_all :: "bytes \<Rightarrow> 's \<Rightarrow> (io_error + unit) \<times> 's"
  flush :: "'s \<Rightarrow> (io_error + unit) \<times> 's"

section \<open>The framed stream\<close>

definition recv_frame :: "('s, 'x) io_ops_scheme \<Rightarrow> frame postcard
    \<Rightarrow> 's \<Rightarrow> (bridge_error + frame option) \<times> 's" where
  "recv_frame io pc s =
     (case read_exact io 8 s of
        (Inl e, s1) \<Rightarrow>
          if ioe_kind e = UnexpectedEof then (Inr None, s1)
          else (Inl (Internal (''Transport read error: '' @ ioe_text e)), s1)
      | (Inr header, s1) \<Rightarrow>
          if take 4 header \<noteq> MAGIC then (Inl InvalidMagic, s1)
          else let len = be_nat (take 4 (drop 4 header)) in
            if len > MAX_FRAME_LENGTH then (Inl (FrameTooLarge len MAX_FRAME_LENGTH), s1)
            else (case read_exact io len s1 of
                (Inl e, s2) \<Rightarrow> (Inl (Framing (''Failed to read frame payload: '' @ ioe_text e)), s2)
              | (Inr p, s2) \<Rightarrow> (rbind (decode_payload pc p) (\<lambda>f. Inr (Some f)), s2)))"

definition send_frame :: "('s, 'x) io_ops_scheme \<Rightarrow> frame postcard \<Rightarrow> frame
    \<Rightarrow> 's \<Rightarrow> (bridge_error + unit) \<times> 's" where
  "send_frame io pc f =
     sbind (slift (encode_frame pc f)) (\<lambda>encoded.
     sbind (smap_err (\<lambda>e. Internal (''Transport write error: '' @ ioe_text e))
              (write_all io encoded)) (\<lambda>_.
     smap_err (\<lambda>e. Internal (''Transport flush error: '' @ ioe_text e)) (flush io)))"

lemma recv_frame_Some_iff:
  "recv_frame io pc s = (Inr (Some f), t) \<longleftrightarrow>
     (\<exists>h s1 p. read_exact io 8 s = (Inr h, s1) \<and> take 4 h = MAGIC \<and>
        be_nat (take 4 (drop 4 h)) \<le> MAX_FRAME_LENGTH \<and>
        read_exact io (be_nat (take 4 (drop 4 h))) s1 = (Inr p, t) \<and> from_bytes pc p = Inr f)"
  unfolding recv_frame_def Let_def decode_payload_def
  by (auto simp: rbind_Inr_iff split: prod.splits sum.splits if_splits)

section \<open>An in-memory duplex endpoint\<close>

text \<open>
  The endpoint of an in-memory pipe: what is left to read and what has been written. Reads
  past the end report \<open>UnexpectedEof\<close>; writes always succeed. It instantiates the stream
  parameter in the statements about two connected peers.
\<close>

record pipe =
  inbox :: bytes
  outbox :: bytes

definition pipe_ops :: "pipe io_ops" where
  "pipe_ops =
     \<lparr>read_exact = (\<lambda>n p. if n \<le> length (inbox p)
         then (Inr (take n (inbox p)), p\<lparr>inbox := drop n (inbox p)\<rparr>)
         else (Inl \<lparr>ioe_kind = UnexpectedEof, ioe_text = ''early eof''\<rparr>, p\<lparr>inbox := []\<rparr>)),
      write_all = (\<lambda>b p. (Inr (), p\<lparr>outbox := outbox p @ b\<rparr>)),
      flush = (\<lambda>p. (Inr (), p))\<rparr>"

lemma pipe_ops_simps [simp]:
  "read_exact pipe_ops n p = (if n \<le> length (inbox p)
         then (Inr (take n (inbox p)), p\<lparr>inbox := drop n (inbox p)\<rparr>)
         else (Inl \<lparr>ioe_kind = UnexpectedEof, ioe_text = ''early eof''\<rparr>, p\<lparr>inbox := []\<rparr>))"
  "write_all pipe_ops b p = (Inr (), p\<lparr>outbox := outbox p @ b\<rparr>)"
  "flush pipe_ops p = (Inr (), p)"
  by (simp_all add: pipe_ops_def)

lemma send_frame_pipe:
  "send_frame pipe_ops pc f p =
     (case encode_frame pc f of Inl e \<Rightarrow> (Inl e, p) | Inr b \<Rightarrow> (Inr (), p\<lparr>outbox := outbox p @ b\<rparr>))"
  by (simp add: send_frame_def sbind_def smap_err_def split: sum.split)

lemma recv_frame_pipe:
  assumes "inbox p = MAGIC @ be_bytes 4 (length q) @ q @ rest" "length q \<le> MAX_FRAME_LENGTH"
  shows "recv_frame pipe_ops pc p =
     (rbind (decode_payload pc q) (\<lambda>f. Inr (Some f)), p\<lparr>inbox := rest\<rparr>)"
  using assms be_nat_be_bytes [OF MAX_FRAME_LENGTH_lt [OF assms(2)]]
  by (simp add: recv_frame_def Let_def)

lemma recv_frame_pipe_encoded:
  assumes "postcard_roundtrip pc" "encode_frame pc f = Inr b" "inbox p = b @ rest"
  shows "recv_frame pipe_ops pc p = (Inr (Some f), p\<lparr>inbox := rest\<rparr>)"
  using assms recv_frame_pipe [of p _ rest pc]
  by (auto simp: encode_frame_Inr_iff decode_payload_def postcard_roundtripD)

lemma recv_frame_pipe_short:
  "length (inbox p) < 8 \<Longrightarrow> recv_frame pipe_ops pc p = (Inr None, p\<lparr>inbox := []\<rparr>)"
  by (simp add: recv_frame_def)

section \<open>The interface sessions rely on\<close>

text \<open>
  A reliable, ordered frame channel: what one endpoint sends successfully the other receives
  unchanged, without touching what follows. \<open>lawful\<close> collects the documented behaviour of
  the crates the provider calls.
\<close>

fun send_all :: "(frame \<Rightarrow> 's \<Rightarrow> (bridge_error + unit) \<times> 's) \<Rightarrow> frame list \<Rightarrow> 's \<Rightarrow> (bridge_error + unit) \<times> 's" where
  "send_all sendf [] = sreturn ()"
| "send_all sendf (f # fs) = sbind (sendf f) (\<lambda>_. send_all sendf fs)"

fun recv_n :: "('s \<Rightarrow> (bridge_error + frame option) \<times> 's) \<Rightarrow> nat \<Rightarrow> 's \<Rightarrow> (bridge_error + frame option list) \<times> 's" where
  "recv_n recvf 0 = sreturn []"
| "recv_n recvf (Suc n) = sbind recvf (\<lambda>f. sbind (recv_n recvf n) (\<lambda>fs. sreturn (f # fs)))"

locale frame_channel =
  fixes sendf :: "frame \<Rightarrow> 's \<Rightarrow> (bridge_error + unit) \<times> 's"
    and recvf :: "'s \<Rightarrow> (bridge_error + frame option) \<times> 's"
    and inc :: "'s \<Rightarrow> bytes"
    and out :: "'s \<Rightarrow> bytes"
    and lawful :: bool
  assumes send_frames_out: "sendf f s = (Inr (), s') \<Longrightarrow> lawful \<Longrightarrow>
      inc s' = inc s \<and> (\<exists>b. out s' = out s @ b \<and>
        (\<forall>r rest. inc r = b @ rest \<longrightarrow>
           (\<exists>r'. recvf r = (Inr (Some f), r') \<and> inc r' = rest \<and> out r' = out r)))"
    and recv_drained: "inc r = [] \<Longrightarrow> \<exists>r'. recvf r = (Inr None, r') \<and> inc r' = []"
begin

lemma fifo:
  assumes "send_all sendf fs s = (Inr (), s')" lawful
  shows "inc s' = inc s \<and> (\<exists>b. out s' = out s @ b \<and>
     (\<forall>r rest. inc r = b @ rest \<longrightarrow>
        (\<exists>r'. recv_n recvf (length fs) r = (Inr (map Some fs), r') \<and> inc r' = rest \<and> out r' = out r)))"
  using assms(1)
proof (induction fs arbitrary: s)
  case Nil
  then show ?case by auto
next
  case (Cons f fs)
  then obtain s1 where s1: "sendf f s = (Inr (), s1)" and rest: "send_all sendf fs s1 = (Inr (), s')"
    by (auto simp: sbind_Inr_iff)
  obtain b1 where b1: "inc s1 = inc s" "out s1 = out s @ b1"
    "\<And>r rest. inc r = b1 @ rest \<Longrightarrow>
       \<exists>r'. recvf r = (Inr (Some f), r') \<and> inc r' = rest \<and> out r' = out r"
    using send_frames_out [OF s1 assms(2)] by blast
  obtain b2 where b2: "inc s' = inc s1" "out s' = out s1 @ b2"
    "\<And>r rest. inc r = b2 @ rest \<Longrightarrow>
       \<exists>r'. recv_n recvf (length fs) r = (Inr (map Some fs), r') \<and> inc r' = rest \<and> out r' = out r"
    using Cons.IH [OF rest] by blast
  have "\<exists>r'. recv_n recvf (length (f # fs)) r = (Inr (map Some (f # fs)), r') \<and>
      inc r' = rest \<and> out r' = out r" if inr: "inc r = (b1 @ b2) @ rest" for r rest
  proof -
    obtain r1 where "recvf r = (Inr (Some f), r1)" "inc r1 = b2 @ rest" "out r1 = out r"
      using b1(3) [of r "b2 @ rest"] inr by auto
    moreover obtain r2 where "recv_n recvf (length fs) r1 = (Inr (map Some fs), r2)"
      "inc r2 = rest" "out r2 = out r1"
      using b2(3) [OF calculation(2)] by blast
    ultimately show ?thesis by (auto simp: sbind_Inr_iff)
  qed
  with b1(1,2) b2(1,2) show ?case by (intro conjI exI [of _ "b1 @ b2"]) auto
qed

end

interpretation pipe_link: frame_channel "send_frame pipe_ops pc" "recv_frame pipe_ops pc"
  inbox outbox "postcard_roundtrip pc" for pc
proof unfold_locales
  fix f s s'
  assume "send_frame pipe_ops pc f s = (Inr (), s')" "postcard_roundtrip pc"
  then show "inbox s' = inbox s \<and> (\<exists>b. outbox s' = outbox s @ b \<and>
        (\<forall>r rest. inbox r = b @ rest \<longrightarrow>
           (\<exists>r'. recv_frame pipe_ops pc r = (Inr (Some f), r') \<and> inbox r' = rest \<and>
              outbox r' = outbox r)))"
    using recv_frame_pipe_encoded [of pc f]
    by (auto simp: send_frame_pipe split: sum.splits)
next
  fix r :: pipe
  assume "inbox r = []"
  then show "\<exists>r'. recv_frame pipe_ops pc r = (Inr None, r') \<and> inbox r' = []"
    by (simp add: recv_frame_pipe_short)
qed

section \<open>Properties\<close>

text \<open>C19: frames arrive unchanged and in order. If a sequence of frames is sent without error,
  the bytes written are such that an endpoint that finds them at the front of its input
  receives exactly these frames, in this order, and leaves what follows unread.\<close>

theorem frames_arrive_in_order:
  assumes "postcard_roundtrip pc" "send_all (send_frame pipe_ops pc) fs s = (Inr (), s')"
  shows "\<exists>b. outbox s' = outbox s @ b \<and>
    (\<forall>r rest. inbox r = b @ rest \<longrightarrow>
       (\<exists>r'. recv_n (recv_frame pipe_ops pc) (length fs) r = (Inr (map Some fs), r') \<and> inbox r' = rest))"
  using pipe_link.fifo [OF assms(2,1)] by blast

text \<open>Bounded reads. Whatever length a header announces, receiving a frame never asks the
  transport for more bytes than the frame limit: a transport that refuses larger reads gives
  the same result.\<close>

theorem recv_frame_bounded:
  assumes "\<And>n s. n \<le> MAX_FRAME_LENGTH \<Longrightarrow> read_exact io n s = read_exact io' n s"
  shows "recv_frame io pc s = recv_frame io' pc s"
proof -
  have 8: "read_exact io 8 s = read_exact io' 8 s" for s
    by (rule assms) (simp add: MAX_FRAME_LENGTH_def)
  have len: "\<not> len > MAX_FRAME_LENGTH \<Longrightarrow> read_exact io len s = read_exact io' len s" for len s
    by (rule assms) simp
  show ?thesis
    unfolding recv_frame_def Let_def 8 by (auto simp: len split: prod.split sum.split)
qed

text \<open>A stream that ends inside a frame header is reported as a clean end. With between one
  and seven bytes left, receiving returns no frame and no error.\<close>

theorem partial_header_is_eof:
  assumes "0 < length (inbox p)" "length (inbox p) < 8"
  shows "\<exists>p'. recv_frame pipe_ops pc p = (Inr None, p')"
  using recv_frame_pipe_short [OF assms(2)] by blast

section \<open>Witnesses\<close>

definition ping_codec :: "frame postcard" where
  "ping_codec = table_codec [(Control (Ping 1), [1]), (Control (Pong 1), [2])]"

theorem frames_arrive_in_order_witness:
  "\<exists>s' b. send_all (send_frame pipe_ops ping_codec) [Control (Ping 1), Control (Pong 1)]
       \<lparr>inbox = [], outbox = []\<rparr> = (Inr (), s') \<and> outbox s' = b \<and>
     (\<exists>r'. recv_n (recv_frame pipe_ops ping_codec) 2 \<lparr>inbox = b @ [9], outbox = []\<rparr> =
        (Inr [Some (Control (Ping 1)), Some (Control (Pong 1))], r') \<and> inbox r' = [9])"
proof -
  have rt: "postcard_roundtrip ping_codec" by (simp add: ping_codec_def table_codec_roundtrip)
  have "encode_frame ping_codec (Control (Ping 1)) = Inr (MAGIC @ be_bytes 4 1 @ [1])"
      "encode_frame ping_codec (Control (Pong 1)) = Inr (MAGIC @ be_bytes 4 1 @ [2])"
    by (simp_all add: encode_frame_Inr_iff ping_codec_def table_codec_def MAX_FRAME_LENGTH_def)
  then obtain s' where run: "send_all (send_frame pipe_ops ping_codec) [Control (Ping 1), Control (Pong 1)]
       \<lparr>inbox = [], outbox = []\<rparr> = (Inr (), s')"
    by (simp add: sbind_def send_frame_pipe)
  from frames_arrive_in_order [OF rt run] obtain b where "outbox s' = b"
      "\<And>r rest. inbox r = b @ rest \<Longrightarrow> \<exists>r'. recv_n (recv_frame pipe_ops ping_codec) 2 r =
        (Inr [Some (Control (Ping 1)), Some (Control (Pong 1))], r') \<and> inbox r' = rest"
    by (auto simp: numeral_2_eq_2)
  with run show ?thesis by fastforce
qed

definition refusing_ops :: "pipe io_ops" where
  "refusing_ops = pipe_ops\<lparr>read_exact := (\<lambda>n p. if n \<le> MAX_FRAME_LENGTH then read_exact pipe_ops n p
     else (Inl \<lparr>ioe_kind = UnexpectedEof, ioe_text = ''refused''\<rparr>, p))\<rparr>"

theorem recv_frame_bounded_witness:
  "recv_frame pipe_ops ping_codec \<lparr>inbox = replicate 9 0, outbox = []\<rparr> =
   recv_frame refusing_ops ping_codec \<lparr>inbox = replicate 9 0, outbox = []\<rparr>"
  by (rule recv_frame_bounded) (simp add: refusing_ops_def)

theorem partial_header_is_eof_witness:
  "\<exists>p'. recv_frame pipe_ops ping_codec \<lparr>inbox = [66, 82, 71], outbox = []\<rparr> = (Inr None, p')"
  using partial_header_is_eof [of "\<lparr>inbox = [66, 82, 71], outbox = []\<rparr>" ping_codec] by simp

end
