(* ===== verification/File_System.thy ===== *)
theory File_System
  imports Bridge_Prelude
begin

text \<open>
  The file system as the sources use it through \<open>std::fs\<close> and \<open>tokio::fs\<close>: a map from paths
  to contents and permission bits. Directories are implicit. Every call may fail: \<open>faults\<close>
  says with which operating-system error a call on a path fails, if it does.
\<close>

datatype fs_call =
    FsRead | FsWrite | FsCreateDir | FsSetPermissions | FsOpen | FsMetadata | FsSetLen
  | FsSeek | FsFlush | FsRename

type_synonym faults = "fs_call \<Rightarrow> string \<Rightarrow> string option"

record fs =
  files :: "string \<rightharpoonup> bytes"
  modes :: "string \<rightharpoonup> nat"

definition no_faults :: faults where
  "no_faults = (\<lambda>_ _. None)"

lemma no_faults_simp [simp]: "no_faults op path = None"
  by (simp add: no_faults_def)

definition fs_exists :: "fs \<Rightarrow> string \<Rightarrow> bool" where
  "fs_exists s p = (files s p \<noteq> None)"

text \<open>A call that succeeds or fails with the fault of its path.\<close>

definition fs_try :: "faults \<Rightarrow> fs_call \<Rightarrow> string \<Rightarrow> (fs, string, unit) comp" where
  "fs_try fl op p = (\<lambda>s. case fl op p of None \<Rightarrow> (Inr (), s) | Some e \<Rightarrow> (Inl e, s))"

definition fs_read :: "faults \<Rightarrow> string \<Rightarrow> (fs, string, bytes) comp" where
  "fs_read fl p =
     sbind (fs_try fl FsRead p) (\<lambda>_ s.
       (ok_or ''No such file or directory (os error 2)'' (files s p), s))"

definition fs_write :: "faults \<Rightarrow> string \<Rightarrow> bytes \<Rightarrow> (fs, string, unit) comp" where
  "fs_write fl p b =
     sbind (fs_try fl FsWrite p) (\<lambda>_. smodify (\<lambda>s. s\<lparr>files := (files s)(p \<mapsto> b)\<rparr>))"

definition fs_set_permissions :: "faults \<Rightarrow> string \<Rightarrow> nat \<Rightarrow> (fs, string, unit) comp" where
  "fs_set_permissions fl p m =
     sbind (fs_try fl FsSetPermissions p) (\<lambda>_. smodify (\<lambda>s. s\<lparr>modes := (modes s)(p \<mapsto> m)\<rparr>))"

text \<open>\<open>Path::parent\<close> of a path without a trailing separator, and \<open>Path::join\<close>, on Unix.\<close>

definition path_parent :: "string \<Rightarrow> string option" where
  "path_parent p =
     (if p = [] \<or> p = ''/'' then None
      else let d = rev (dropWhile (\<lambda>c. c \<noteq> CHR ''/'') (rev p)) in
        Some (if d = ''/'' then d else if d = [] then [] else butlast d))"

definition path_join :: "string \<Rightarrow> string \<Rightarrow> string" where
  "path_join d f =
     (if f \<noteq> [] \<and> hd f = CHR ''/'' then f
      else if d = [] \<or> last d = CHR ''/'' then d @ f
      else d @ ''/'' @ f)"

lemma fs_try_ok [simp]: "fl op p = None \<Longrightarrow> fs_try fl op p s = (Inr (), s)"
  by (simp add: fs_try_def)

lemma fs_try_Inr_iff: "fs_try fl op p s = (Inr (), t) \<longleftrightarrow> fl op p = None \<and> t = s"
  by (auto simp: fs_try_def split: option.splits)

lemma fs_try_state [simp]: "snd (fs_try fl op p s) = s"
  by (simp add: fs_try_def split: option.split)

end
