(* ===== verification/Identity_Keys.thy ===== *)
theory Identity_Keys
  imports Core_Types File_System Sample_Instances
begin

text \<open>
  The cryptographic identity of a node: \<open>keys.rs\<close>, \<open>storage.rs\<close> and \<open>error.rs\<close> of
  \<open>crates/bridge-identity\<close>. Keys are their byte encodings; Ed25519 and SHA-256 are fields of
  the crate record \<open>c\<close>.
\<close>

section \<open>Errors\<close>

text \<open>\<open>rusqlite::Error\<close>: a column that does not convert, or any failure of the engine.\<close>

datatype sql_error =
    FromSqlConversionFailure nat string
  | SqliteFailure string

datatype identity_error =
    Database sql_error
  | IdentityIo string
  | Core bridge_error
  | KeyMismatch node_id string string
  | PeerRevoked node_id
  | PeerUntrusted node_id
  | PairingFailed string
  | SasMismatch
  | PairingTimeout
  | InvalidSecretKeyFile string
  | Crypto string

section \<open>Keys\<close>

datatype identity_key = IdentityKey (secret: bytes)

datatype public_key = PublicKey (key_bytes: bytes)

text \<open>\<open>IdentityKey::generate\<close>, given the 32 bytes drawn from the operating system.\<close>

definition generate :: "bytes \<Rightarrow> identity_key" where
  "generate entropy = IdentityKey entropy"

definition identity_from_bytes :: "bytes \<Rightarrow> identity_key" where
  "identity_from_bytes b = IdentityKey b"

definition identity_to_bytes :: "identity_key \<Rightarrow> bytes" where
  "identity_to_bytes k = secret k"

definition public_of :: "'x crates_scheme \<Rightarrow> identity_key \<Rightarrow> public_key" where
  "public_of c k = PublicKey (ed_public c (secret k))"

definition key_node_id :: "public_key \<Rightarrow> node_id" where
  "key_node_id pk = NodeId (key_bytes pk)"

definition identity_node_id :: "'x crates_scheme \<Rightarrow> identity_key \<Rightarrow> node_id" where
  "identity_node_id c k = key_node_id (public_of c k)"

definition sign :: "'x crates_scheme \<Rightarrow> identity_key \<Rightarrow> bytes \<Rightarrow> bytes" where
  "sign c k m = ed_sign c (secret k) m"

definition sign_handshake_challenge ::
    "'x crates_scheme \<Rightarrow> identity_key \<Rightarrow> bytes \<Rightarrow> bytes \<Rightarrow> bytes" where
  "sign_handshake_challenge c k client_nonce server_nonce =
     (let digest = sha256 c (str_bytes ''BridgeOS-Handshake-v1'' @ client_nonce @ server_nonce)
      in sign c k digest)"

definition key_from_bytes :: "'x crates_scheme \<Rightarrow> bytes \<Rightarrow> bridge_error + public_key" where
  "key_from_bytes c b =
     rbind (map_err (\<lambda>e. Identity (''Invalid Ed25519 public key bytes: '' @ e)) (ed_key_check c b))
       (\<lambda>_. Inr (PublicKey b))"

definition key_to_bytes :: "public_key \<Rightarrow> bytes" where
  "key_to_bytes pk = key_bytes pk"

definition verify :: "'x crates_scheme \<Rightarrow> public_key \<Rightarrow> bytes \<Rightarrow> bytes \<Rightarrow> bridge_error + unit" where
  "verify c pk m sg =
     rbind (map_err (\<lambda>e. Identity (''Signature verification failed: '' @ e))
              (ed_verify_strict c (key_bytes pk) m sg)) (\<lambda>_. Inr ())"

definition verify_handshake_challenge ::
    "'x crates_scheme \<Rightarrow> public_key \<Rightarrow> bytes \<Rightarrow> bytes \<Rightarrow> bytes \<Rightarrow> bridge_error + unit" where
  "verify_handshake_challenge c pk client_nonce server_nonce sg =
     (let digest = sha256 c (str_bytes ''BridgeOS-Handshake-v1'' @ client_nonce @ server_nonce)
      in verify c pk digest sg)"

text \<open>The serde instances of \<open>PublicKey\<close>: its 32 bytes, checked when read.\<close>

definition key_serialize :: "public_key \<Rightarrow> bytes" where
  "key_serialize pk = key_to_bytes pk"

definition key_deserialize :: "'x crates_scheme \<Rightarrow> bytes \<Rightarrow> string + public_key" where
  "key_deserialize c b = map_err bridge_error_display (key_from_bytes c b)"

lemma key_from_bytes_Inr_iff:
  "key_from_bytes c b = Inr pk \<longleftrightarrow> ed_key_check c b = Inr () \<and> pk = PublicKey b"
  by (auto simp: key_from_bytes_def rbind_Inr_iff)

lemma verify_Inr_iff: "verify c pk m sg = Inr () \<longleftrightarrow> ed_verify_strict c (key_bytes pk) m sg = Inr ()"
  by (simp add: verify_def rbind_Inr_iff)

lemma public_of_from_bytes [simp]:
  "ed25519_correct c \<Longrightarrow> key_from_bytes c (key_bytes (public_of c k)) = Inr (public_of c k)"
  by (simp add: key_from_bytes_Inr_iff public_of_def ed25519_correctD)

lemma verify_sign [simp]:
  "ed25519_correct c \<Longrightarrow> verify c (public_of c k) m (sign c k m) = Inr ()"
  by (simp add: verify_Inr_iff public_of_def sign_def ed25519_correctD)

lemma verify_handshake_sign [simp]:
  "ed25519_correct c \<Longrightarrow>
     verify_handshake_challenge c (public_of c k) cn sn (sign_handshake_challenge c k cn sn) = Inr ()"
  by (simp add: verify_handshake_challenge_def sign_handshake_challenge_def Let_def)

lemma identity_node_id_wf [simp]: "ed25519_correct c \<Longrightarrow> node_id_wf (identity_node_id c k)"
  by (simp add: node_id_wf_def identity_node_id_def key_node_id_def public_of_def ed25519_correctD)

section \<open>Key storage\<close>

definition bytes_str :: "bytes \<Rightarrow> string" where
  "bytes_str b = map (\<lambda>x. char_of (unat x)) b"

lemma bytes_str_str_bytes [simp]: "bytes_str (str_bytes s) = s"
  by (simp add: bytes_str_def str_bytes_def comp_def)

definition parse_key_file :: "'x crates_scheme \<Rightarrow> bytes \<Rightarrow> identity_error + bytes" where
  "parse_key_file c content =
     (if length content = 32 then Inr content
      else if length content \<ge> 64 then
        (let text = bytes_str content in
         if \<not> utf8_valid text then Inl (InvalidSecretKeyFile ''File is not valid UTF-8 hex'')
         else rbind (map_err (\<lambda>e. InvalidSecretKeyFile (''Hex decode failed: '' @ e))
                (hex_decode c (trim text)))
           (\<lambda>decoded. if length decoded = 32 then Inr decoded
              else Inl (InvalidSecretKeyFile ''Decoded hex key is not 32 bytes'')))
      else Inl (InvalidSecretKeyFile (''Expected 32 binary bytes or 64 hex characters, found '' @
             show_nat (length content) @ '' bytes'')))"

definition load :: "'x crates_scheme \<Rightarrow> faults \<Rightarrow> string \<Rightarrow> (fs, identity_error, identity_key) comp" where
  "load c fl path =
     sbind (smap_err IdentityIo (fs_read fl path)) (\<lambda>content.
     sbind (slift (parse_key_file c content)) (\<lambda>b.
     sreturn (identity_from_bytes b)))"

definition save :: "faults \<Rightarrow> string \<Rightarrow> identity_key \<Rightarrow> (fs, identity_error, unit) comp" where
  "save fl path k =
     sbind (case path_parent path of
              Some parent \<Rightarrow> smap_err IdentityIo (fs_try fl FsCreateDir parent)
            | None \<Rightarrow> sreturn ()) (\<lambda>_.
     sbind (smap_err IdentityIo (fs_write fl path (identity_to_bytes k))) (\<lambda>_.
     smap_err IdentityIo (fs_set_permissions fl path 384)))"

definition load_or_generate ::
    "'x crates_scheme \<Rightarrow> faults \<Rightarrow> bytes \<Rightarrow> string \<Rightarrow> (fs, identity_error, identity_key) comp" where
  "load_or_generate c fl entropy path =
     (\<lambda>s. if fs_exists s path then load c fl path s
      else let k = generate entropy in sbind (save fl path k) (\<lambda>_. sreturn k) s)"

text \<open>\<open>384\<close> is the Unix mode \<open>0o600\<close>: read and write for the owner only.\<close>

lemma save_Inr:
  assumes "save fl path k s = (Inr (), t)"
  shows "files t = (files s)(path \<mapsto> secret k) \<and> modes t = (modes s)(path \<mapsto> 384)"
  using assms
  by (auto simp: save_def fs_write_def fs_set_permissions_def sbind_Inr_iff smap_err_Inr_iff
      fs_try_Inr_iff identity_to_bytes_def split: option.splits)

lemma save_no_faults: "\<exists>t. save no_faults path k s = (Inr (), t)"
  by (simp add: save_def fs_write_def fs_set_permissions_def sbind_def smap_err_def
      split: option.split)

lemma load_stored:
  assumes "files s path = Some (secret k)" "length (secret k) = 32" "fl FsRead path = None"
  shows "load c fl path s = (Inr k, s)"
  using assms
  by (simp add: load_def fs_read_def sbind_def smap_err_def parse_key_file_def
      identity_from_bytes_def)

lemma load_keeps_files:
  assumes "load c fl path s = (Inr k, t)"
  shows "t = s"
  using assms
  by (auto simp: load_def fs_read_def sbind_Inr_iff smap_err_Inr_iff fs_try_Inr_iff slift_def sreturn_def)

lemma load_or_generate_missing:
  assumes "files s path = None"
  shows "load_or_generate c fl entropy path s =
     sbind (save fl path (generate entropy)) (\<lambda>_. sreturn (generate entropy)) s"
  using assms by (simp add: load_or_generate_def fs_exists_def Let_def)

lemma load_or_generate_present:
  assumes "files s path \<noteq> None"
  shows "load_or_generate c fl entropy path s = load c fl path s"
  using assms by (simp add: load_or_generate_def fs_exists_def)

text \<open>An identity is created once and kept. When a key file is missing, loading the identity
  stores fresh key material in a file that only its owner can read and write and touches no
  other file; from then on, and for any key file that loads at all, loading again returns the
  same key, whatever fresh randomness is at hand, and changes nothing.\<close>

theorem identity_persists:
  assumes "load_or_generate c no_faults entropy path s = (Inr k, t)" "length entropy = 32"
  shows "load_or_generate c no_faults entropy' path t = (Inr k, t) \<and>
    (if files s path = None
     then k = generate entropy \<and> files t = (files s)(path \<mapsto> entropy) \<and> modes t path = Some 384
     else t = s)"
proof (cases "files s path = None")
  case True
  with assms(1) have run: "save no_faults path (generate entropy) s = (Inr (), t)" and k: "k = generate entropy"
    by (auto simp: load_or_generate_missing sbind_Inr_iff sreturn_def)
  from save_Inr [OF run] k have t: "files t = (files s)(path \<mapsto> entropy)" "modes t path = Some 384"
    by (simp_all add: generate_def)
  then have "load c no_faults path t = (Inr k, t)"
    using k assms(2) by (intro load_stored) (simp_all add: generate_def)
  with t have "load_or_generate c no_faults entropy' path t = (Inr k, t)"
    by (simp add: load_or_generate_present)
  with True t k show ?thesis by simp
next
  case False
  with assms(1) have "load c no_faults path s = (Inr k, t)" by (simp add: load_or_generate_present)
  moreover from this have "t = s" by (rule load_keeps_files)
  ultimately show ?thesis using False by (auto simp: load_or_generate_present)
qed

theorem identity_persists_witness:
  "\<exists>t. load_or_generate sample_crates no_faults (replicate 32 1) ''id.key''
       \<lparr>files = Map.empty, modes = Map.empty\<rparr> = (Inr (generate (replicate 32 1)), t) \<and>
     load_or_generate sample_crates no_faults (replicate 32 2) ''id.key'' t = (Inr (generate (replicate 32 1)), t)"
proof -
  obtain t where "save no_faults ''id.key'' (generate (replicate 32 1)) \<lparr>files = Map.empty, modes = Map.empty\<rparr> = (Inr (), t)"
    using save_no_faults by blast
  then have run: "load_or_generate sample_crates no_faults (replicate 32 1) ''id.key''
       \<lparr>files = Map.empty, modes = Map.empty\<rparr> = (Inr (generate (replicate 32 1)), t)"
    by (simp add: load_or_generate_missing sbind_def sreturn_def)
  have "load_or_generate sample_crates no_faults (replicate 32 2) ''id.key'' t = (Inr (generate (replicate 32 1)), t)"
    using identity_persists [OF run, of "replicate 32 2"] by simp
  with run show ?thesis by blast
qed

end
