(* ===== verification/Trust_Store.thy ===== *)
theory Trust_Store
  imports Identity_Keys Sample_Instances
begin

text \<open>
  The persistent trust store, \<open>crates/bridge-identity/src/trust.rs\<close>. The database is its
  table \<open>trusted_peers\<close>, one row per primary key, with the columns the schema declares; each
  method is the SQL statement it executes. \<open>db_faults\<close> says which statements the engine
  fails, with its message.
\<close>

section \<open>Trust states and peer records\<close>

datatype trust_state = Trusted | Pending | Revoked

fun trust_state_as_str :: "trust_state \<Rightarrow> string" where
  "trust_state_as_str Trusted = ''trusted''"
| "trust_state_as_str Pending = ''pending''"
| "trust_state_as_str Revoked = ''revoked''"

definition trust_state_from_str :: "string \<Rightarrow> trust_state" where
  "trust_state_from_str s =
     (let t = to_ascii_lowercase (trim s) in
      if t = ''trusted'' then Trusted else if t = ''revoked'' then Revoked else Pending)"

lemma trust_state_roundtrip [simp]: "trust_state_from_str (trust_state_as_str t) = t"
  by (cases t; hypsubst; code_simp)

record trusted_peer =
  tp_node_id :: node_id
  tp_public_key :: public_key
  tp_device_name :: string
  tp_device_type :: device_type
  tp_first_paired_at :: u64
  tp_last_seen_at :: u64
  tp_trust_state :: trust_state

section \<open>The database\<close>

record peer_row =
  row_node_id :: string
  row_public_key :: string
  row_device_name :: string
  row_device_type :: string
  row_first_paired_at :: u64
  row_last_seen_at :: u64
  row_trust_state :: string

record trust_db =
  schema_version :: "nat list"
  trusted_peers :: "peer_row list"

datatype sql_call =
    SqlOpen | SqlSchema | SqlSave | SqlGet | SqlList | SqlListTrusted | SqlUpdateSeen | SqlSetState | SqlDelete

type_synonym db_faults = "sql_call \<Rightarrow> string option"

definition no_db_faults :: db_faults where
  "no_db_faults = (\<lambda>_. None)"

lemma no_db_faults_simp [simp]: "no_db_faults op = None"
  by (simp add: no_db_faults_def)

definition sql_ok :: "db_faults \<Rightarrow> sql_call \<Rightarrow> identity_error + unit" where
  "sql_ok df op = (case df op of None \<Rightarrow> Inr () | Some e \<Rightarrow> Inl (Database (SqliteFailure e)))"

lemma sql_ok_Inr_iff [simp]: "sql_ok df op = Inr () \<longleftrightarrow> df op = None"
  by (simp add: sql_ok_def split: option.splits)

text \<open>The columns are \<open>INTEGER\<close>s: a \<open>u64\<close> is stored as the \<open>i64\<close> with the same bits.\<close>

definition peer_to_row :: "'x crates_scheme \<Rightarrow> trusted_peer \<Rightarrow> peer_row" where
  "peer_to_row c p =
     \<lparr>row_node_id = to_hex c (tp_node_id p),
      row_public_key = hex_encode c (key_to_bytes (tp_public_key p)),
      row_device_name = tp_device_name p,
      row_device_type = device_type_display (tp_device_type p),
      row_first_paired_at = tp_first_paired_at p,
      row_last_seen_at = tp_last_seen_at p,
      row_trust_state = trust_state_as_str (tp_trust_state p)\<rparr>"

definition i64_max0 :: "u64 \<Rightarrow> u64" where
  "i64_max0 w = (if sint w < 0 then 0 else w)"

definition row_to_peer :: "'x crates_scheme \<Rightarrow> peer_row \<Rightarrow> sql_error + trusted_peer" where
  "row_to_peer c r =
     rbind (map_err (FromSqlConversionFailure 0) (node_id_from_str c (row_node_id r))) (\<lambda>nid.
     rbind (map_err (FromSqlConversionFailure 1) (hex_decode c (row_public_key r))) (\<lambda>pb.
     rbind (if length pb = 32 then Inr pb
            else Inl (FromSqlConversionFailure 1 ''Invalid pubkey length'')) (\<lambda>arr.
     rbind (map_err (\<lambda>e. FromSqlConversionFailure 1 (bridge_error_display e))
              (key_from_bytes c arr)) (\<lambda>pk.
     Inr \<lparr>tp_node_id = nid, tp_public_key = pk,
          tp_device_name = row_device_name r,
          tp_device_type = device_type_from_str (row_device_type r),
          tp_first_paired_at = i64_max0 (row_first_paired_at r),
          tp_last_seen_at = i64_max0 (row_last_seen_at r),
          tp_trust_state = trust_state_from_str (row_trust_state r)\<rparr>))))"

section \<open>The methods of the store\<close>

definition init_schema :: "db_faults \<Rightarrow> (trust_db, identity_error, unit) comp" where
  "init_schema df =
     sbind (slift (sql_ok df SqlSchema)) (\<lambda>_.
     smodify (\<lambda>s. if schema_version s = [] then s\<lparr>schema_version := [1]\<rparr> else s))"

text \<open>
  \<open>TrustStore::open\<close>: \<open>stored\<close> is the database the file at the path holds, the empty one for a
  new file. \<open>open_in_memory\<close> always starts from the empty one.
\<close>

definition empty_db :: trust_db where
  "empty_db = \<lparr>schema_version = [], trusted_peers = []\<rparr>"

definition connect_db :: "db_faults \<Rightarrow> trust_db \<Rightarrow> identity_error + trust_db" where
  "connect_db df stored =
     rbind (sql_ok df SqlOpen) (\<lambda>_.
       case init_schema df stored of (Inl e, _) \<Rightarrow> Inl e | (Inr _, s) \<Rightarrow> Inr s)"

definition open_store ::
    "faults \<Rightarrow> db_faults \<Rightarrow> string \<Rightarrow> trust_db \<Rightarrow> (fs, identity_error, trust_db) comp" where
  "open_store fl df path stored =
     sbind (case path_parent path of
              Some parent \<Rightarrow> smap_err IdentityIo (fs_try fl FsCreateDir parent)
            | None \<Rightarrow> sreturn ()) (\<lambda>_.
     slift (connect_db df stored))"

definition open_in_memory :: "db_faults \<Rightarrow> identity_error + trust_db" where
  "open_in_memory df = connect_db df empty_db"

text \<open>\<open>INSERT \<dots> ON CONFLICT(node_id) DO UPDATE\<close>: \<open>first_paired_at\<close> of an existing row stays.\<close>

fun upsert :: "peer_row \<Rightarrow> peer_row list \<Rightarrow> peer_row list" where
  "upsert r [] = [r]"
| "upsert r (x # xs) =
     (if row_node_id x = row_node_id r
      then r\<lparr>row_first_paired_at := row_first_paired_at x\<rparr> # xs
      else x # upsert r xs)"

definition save_peer ::
    "'x crates_scheme \<Rightarrow> db_faults \<Rightarrow> trusted_peer \<Rightarrow> (trust_db, identity_error, unit) comp" where
  "save_peer c df p =
     sbind (slift (sql_ok df SqlSave)) (\<lambda>_.
     smodify (\<lambda>s. s\<lparr>trusted_peers := upsert (peer_to_row c p) (trusted_peers s)\<rparr>))"

definition get_peer ::
    "'x crates_scheme \<Rightarrow> db_faults \<Rightarrow> node_id \<Rightarrow> trust_db \<Rightarrow> identity_error + trusted_peer option" where
  "get_peer c df n s =
     rbind (sql_ok df SqlGet) (\<lambda>_.
       case List.find (\<lambda>r. row_node_id r = to_hex c n) (trusted_peers s) of
         None \<Rightarrow> Inr None
       | Some r \<Rightarrow> rbind (map_err Database (row_to_peer c r)) (\<lambda>p. Inr (Some p)))"

fun rows_to_peers :: "'x crates_scheme \<Rightarrow> peer_row list \<Rightarrow> identity_error + trusted_peer list" where
  "rows_to_peers c [] = Inr []"
| "rows_to_peers c (r # rs) =
     rbind (map_err Database (row_to_peer c r)) (\<lambda>p.
     rbind (rows_to_peers c rs) (\<lambda>ps. Inr (p # ps)))"

definition by_last_seen_desc :: "peer_row list \<Rightarrow> peer_row list" where
  "by_last_seen_desc rs = sort_key (\<lambda>r. - sint (row_last_seen_at r)) rs"

definition list_peers ::
    "'x crates_scheme \<Rightarrow> db_faults \<Rightarrow> trust_db \<Rightarrow> identity_error + trusted_peer list" where
  "list_peers c df s =
     rbind (sql_ok df SqlList) (\<lambda>_. rows_to_peers c (by_last_seen_desc (trusted_peers s)))"

definition list_trusted_peers ::
    "'x crates_scheme \<Rightarrow> db_faults \<Rightarrow> trust_db \<Rightarrow> identity_error + trusted_peer list" where
  "list_trusted_peers c df s =
     rbind (sql_ok df SqlListTrusted) (\<lambda>_.
       rows_to_peers c (by_last_seen_desc
         (filter (\<lambda>r. row_trust_state r = ''trusted'') (trusted_peers s))))"

definition is_trusted ::
    "'x crates_scheme \<Rightarrow> db_faults \<Rightarrow> node_id \<Rightarrow> public_key \<Rightarrow> trust_db \<Rightarrow> identity_error + bool" where
  "is_trusted c df n presented s =
     rbind (get_peer c df n s) (\<lambda>peer_opt.
       case peer_opt of
         None \<Rightarrow> Inr False
       | Some peer \<Rightarrow>
           if tp_public_key peer \<noteq> presented then
             Inl (KeyMismatch n (hex_encode c (key_to_bytes (tp_public_key peer)))
                    (hex_encode c (key_to_bytes presented)))
           else (case tp_trust_state peer of
               Revoked \<Rightarrow> Inl (PeerRevoked n)
             | Trusted \<Rightarrow> Inr True
             | Pending \<Rightarrow> Inr False))"

definition update_where :: "string \<Rightarrow> (peer_row \<Rightarrow> peer_row) \<Rightarrow> peer_row list \<Rightarrow> peer_row list" where
  "update_where h f rs = map (\<lambda>r. if row_node_id r = h then f r else r) rs"

definition update_last_seen ::
    "'x crates_scheme \<Rightarrow> db_faults \<Rightarrow> node_id \<Rightarrow> u64 \<Rightarrow> (trust_db, identity_error, unit) comp" where
  "update_last_seen c df n ts =
     sbind (slift (sql_ok df SqlUpdateSeen)) (\<lambda>_.
     smodify (\<lambda>s. s\<lparr>trusted_peers := update_where (to_hex c n)
       (\<lambda>r. r\<lparr>row_last_seen_at := ts\<rparr>) (trusted_peers s)\<rparr>))"

definition set_trust_state ::
    "'x crates_scheme \<Rightarrow> db_faults \<Rightarrow> node_id \<Rightarrow> trust_state \<Rightarrow> (trust_db, identity_error, unit) comp" where
  "set_trust_state c df n st =
     sbind (slift (sql_ok df SqlSetState)) (\<lambda>_.
     smodify (\<lambda>s. s\<lparr>trusted_peers := update_where (to_hex c n)
       (\<lambda>r. r\<lparr>row_trust_state := trust_state_as_str st\<rparr>) (trusted_peers s)\<rparr>))"

definition revoke_peer ::
    "'x crates_scheme \<Rightarrow> db_faults \<Rightarrow> node_id \<Rightarrow> (trust_db, identity_error, unit) comp" where
  "revoke_peer c df n = set_trust_state c df n Revoked"

definition delete_peer ::
    "'x crates_scheme \<Rightarrow> db_faults \<Rightarrow> node_id \<Rightarrow> (trust_db, identity_error, bool) comp" where
  "delete_peer c df n =
     sbind (slift (sql_ok df SqlDelete)) (\<lambda>_ s.
       let kept = filter (\<lambda>r. row_node_id r \<noteq> to_hex c n) (trusted_peers s) in
       (Inr (length kept < length (trusted_peers s)), s\<lparr>trusted_peers := kept\<rparr>))"

section \<open>Well-formed peers and the store invariant\<close>

text \<open>
  A peer whose fields have the ranges their types and the database columns give them: a
  32-byte identifier, a valid public key, timestamps an \<open>i64\<close> can hold.
\<close>

definition peer_wf :: "'x crates_scheme \<Rightarrow> trusted_peer \<Rightarrow> bool" where
  "peer_wf c p \<longleftrightarrow>
     node_id_wf (tp_node_id p) \<and> length (key_bytes (tp_public_key p)) = 32 \<and>
     ed_key_check c (key_bytes (tp_public_key p)) = Inr () \<and>
     0 \<le> sint (tp_first_paired_at p) \<and> 0 \<le> sint (tp_last_seen_at p)"

definition row_ok :: "'x crates_scheme \<Rightarrow> peer_row \<Rightarrow> bool" where
  "row_ok c r \<longleftrightarrow> (\<exists>p. peer_wf c p \<and> r = peer_to_row c p)"

definition store_inv :: "'x crates_scheme \<Rightarrow> trust_db \<Rightarrow> bool" where
  "store_inv c s \<longleftrightarrow>
     distinct (map row_node_id (trusted_peers s)) \<and> (\<forall>r \<in> set (trusted_peers s). row_ok c r)"

text \<open>The abstract view of a store: a finite map from identifiers to peers.\<close>

definition trust_view :: "'x crates_scheme \<Rightarrow> trust_db \<Rightarrow> node_id \<Rightarrow> trusted_peer option" where
  "trust_view c s n =
     (case get_peer c no_db_faults n s of Inl _ \<Rightarrow> None | Inr r \<Rightarrow> r)"

definition merge_peer :: "trusted_peer option \<Rightarrow> trusted_peer \<Rightarrow> trusted_peer" where
  "merge_peer old p =
     (case old of None \<Rightarrow> p | Some q \<Rightarrow> p\<lparr>tp_first_paired_at := tp_first_paired_at q\<rparr>)"

lemma merge_peer_simps [simp]:
  "tp_node_id (merge_peer old p) = tp_node_id p"
  "tp_public_key (merge_peer old p) = tp_public_key p"
  "tp_trust_state (merge_peer old p) = tp_trust_state p"
  by (simp_all add: merge_peer_def split: option.split)

lemma row_roundtrip:
  assumes "hex_roundtrip c" "peer_wf c p"
  shows "row_to_peer c (peer_to_row c p) = Inr p"
  using assms
  by (simp add: row_to_peer_def peer_to_row_def node_id_from_str_def key_to_bytes_def
      key_from_bytes_def peer_wf_def i64_max0_def)

lemma row_okE:
  assumes "row_ok c r" "hex_roundtrip c"
  obtains p where "peer_wf c p" "r = peer_to_row c p" "row_to_peer c r = Inr p"
  using assms row_roundtrip by (auto simp: row_ok_def)

abbreviation find_row :: "string \<Rightarrow> peer_row list \<Rightarrow> peer_row option" where
  "find_row h rs \<equiv> List.find (\<lambda>r. row_node_id r = h) rs"

lemma find_row_set: "find_row h rs = Some r \<Longrightarrow> r \<in> set rs \<and> row_node_id r = h"
  by (auto simp: find_Some_iff)

lemma find_row_upsert:
  "find_row h (upsert r xs) =
     (if h = row_node_id r
      then Some (case find_row h xs of None \<Rightarrow> r
                 | Some x \<Rightarrow> r\<lparr>row_first_paired_at := row_first_paired_at x\<rparr>)
      else find_row h xs)"
  by (induction xs) auto

lemma find_row_update_where:
  assumes "\<And>r. row_node_id (f r) = row_node_id r"
  shows "find_row h (update_where h' f rs) =
    (if h = h' then map_option f (find_row h rs) else find_row h rs)"
  using assms by (induction rs) (auto simp: update_where_def)

lemma find_row_filter:
  "find_row h (filter (\<lambda>r. row_node_id r \<noteq> h') rs) = (if h = h' then None else find_row h rs)"
  by (induction rs) auto

lemma trust_view_eq:
  "trust_view c s n =
     (case find_row (to_hex c n) (trusted_peers s) of
        None \<Rightarrow> None
      | Some r \<Rightarrow> (case row_to_peer c r of Inl _ \<Rightarrow> None | Inr p \<Rightarrow> Some p))"
  by (auto simp: trust_view_def get_peer_def sql_ok_def split: option.split sum.split)

lemma get_peer_view:
  assumes "store_inv c s" "hex_roundtrip c"
  shows "get_peer c df n s =
     (case df SqlGet of None \<Rightarrow> Inr (trust_view c s n) | Some e \<Rightarrow> Inl (Database (SqliteFailure e)))"
proof (cases "find_row (to_hex c n) (trusted_peers s)")
  case None
  then show ?thesis by (simp add: get_peer_def trust_view_eq sql_ok_def split: option.split)
next
  case (Some r)
  have "r \<in> set (trusted_peers s)" using find_row_set [OF Some] by blast
  then have "row_ok c r" using assms(1) by (simp add: store_inv_def)
  then obtain p where "row_to_peer c r = Inr p" using assms(2) by (rule row_okE)
  with Some show ?thesis by (simp add: get_peer_def trust_view_eq sql_ok_def split: option.split)
qed

lemma set_upsert: "set (upsert r xs) \<subseteq> set xs \<union> {r} \<union> (\<lambda>x. r\<lparr>row_first_paired_at := row_first_paired_at x\<rparr>) ` set xs"
  by (induction xs) auto

lemma upsert_ids:
  "row_node_id ` set (upsert r xs) = insert (row_node_id r) (row_node_id ` set xs)"
  by (induction xs) auto

lemma distinct_upsert:
  "distinct (map row_node_id xs) \<Longrightarrow> distinct (map row_node_id (upsert r xs))"
proof (induction xs)
  case Nil
  then show ?case by simp
next
  case (Cons x xs)
  then show ?case using upsert_ids [of r xs] by (auto simp: image_iff)
qed

lemma row_ok_merge:
  assumes "peer_wf c p" "row_ok c x"
  shows "row_ok c ((peer_to_row c p)\<lparr>row_first_paired_at := row_first_paired_at x\<rparr>)"
proof -
  obtain q where q: "peer_wf c q" "x = peer_to_row c q" using assms(2) by (auto simp: row_ok_def)
  have "peer_wf c (p\<lparr>tp_first_paired_at := tp_first_paired_at q\<rparr>)"
    using assms(1) q(1) by (simp add: peer_wf_def)
  moreover have "(peer_to_row c p)\<lparr>row_first_paired_at := row_first_paired_at x\<rparr> =
      peer_to_row c (p\<lparr>tp_first_paired_at := tp_first_paired_at q\<rparr>)"
    by (simp add: q(2) peer_to_row_def)
  ultimately show ?thesis unfolding row_ok_def by blast
qed

lemma store_inv_upsert:
  assumes "store_inv c s" "peer_wf c p"
  shows "store_inv c (s\<lparr>trusted_peers := upsert (peer_to_row c p) (trusted_peers s)\<rparr>)"
proof -
  let ?r = "peer_to_row c p"
  have "row_ok c r" if mem: "r \<in> set (upsert ?r (trusted_peers s))" for r
  proof -
    consider "r \<in> set (trusted_peers s)" | "r = ?r"
      | x where "x \<in> set (trusted_peers s)" "r = ?r\<lparr>row_first_paired_at := row_first_paired_at x\<rparr>"
      using subsetD [OF set_upsert mem] by blast
    then show ?thesis
    proof cases
      case 1
      then show ?thesis using assms(1) by (simp add: store_inv_def)
    next
      case 2
      then show ?thesis using assms(2) by (auto simp: row_ok_def)
    next
      case 3
      then show ?thesis using assms(1) row_ok_merge [OF assms(2)] by (simp add: store_inv_def)
    qed
  qed
  then show ?thesis using assms(1) by (simp add: store_inv_def distinct_upsert)
qed

lemma store_inv_update_where:
  assumes "store_inv c s" "\<And>r. row_node_id (f r) = row_node_id r"
    "\<And>r. row_ok c r \<Longrightarrow> row_ok c (f r)"
  shows "store_inv c (s\<lparr>trusted_peers := update_where h f (trusted_peers s)\<rparr>)"
proof -
  have ids: "map row_node_id (update_where h f rs) = map row_node_id rs" for rs
    using assms(2) by (simp add: update_where_def)
  have "\<forall>r \<in> set (update_where h f (trusted_peers s)). row_ok c r"
    using assms(1,3) by (auto simp: store_inv_def update_where_def)
  then show ?thesis using assms(1) by (simp add: store_inv_def ids)
qed

lemma store_inv_filter:
  "store_inv c s \<Longrightarrow> store_inv c (s\<lparr>trusted_peers := filter P (trusted_peers s)\<rparr>)"
  by (auto simp: store_inv_def distinct_map_filter)

lemma row_ok_seen:
  assumes "row_ok c r" "0 \<le> sint ts"
  shows "row_ok c (r\<lparr>row_last_seen_at := ts\<rparr>)"
proof -
  obtain p where p: "peer_wf c p" "r = peer_to_row c p" using assms(1) by (auto simp: row_ok_def)
  have "peer_wf c (p\<lparr>tp_last_seen_at := ts\<rparr>)" using p assms(2) by (simp add: peer_wf_def)
  moreover have "r\<lparr>row_last_seen_at := ts\<rparr> = peer_to_row c (p\<lparr>tp_last_seen_at := ts\<rparr>)"
    by (simp add: p(2) peer_to_row_def)
  ultimately show ?thesis unfolding row_ok_def by blast
qed

lemma row_ok_state:
  assumes "row_ok c r"
  shows "row_ok c (r\<lparr>row_trust_state := trust_state_as_str st\<rparr>)"
proof -
  obtain p where p: "peer_wf c p" "r = peer_to_row c p" using assms(1) by (auto simp: row_ok_def)
  have "peer_wf c (p\<lparr>tp_trust_state := st\<rparr>)" using p by (simp add: peer_wf_def)
  moreover have "r\<lparr>row_trust_state := trust_state_as_str st\<rparr> = peer_to_row c (p\<lparr>tp_trust_state := st\<rparr>)"
    by (simp add: p(2) peer_to_row_def)
  ultimately show ?thesis unfolding row_ok_def by blast
qed

lemma row_to_peer_state:
  "row_to_peer c (r\<lparr>row_trust_state := trust_state_as_str st\<rparr>) =
     rbind (row_to_peer c r) (\<lambda>p. Inr (p\<lparr>tp_trust_state := st\<rparr>))"
  by (simp add: row_to_peer_def rbind_assoc)

lemma row_to_peer_seen:
  "0 \<le> sint ts \<Longrightarrow> row_to_peer c (r\<lparr>row_last_seen_at := ts\<rparr>) =
     rbind (row_to_peer c r) (\<lambda>p. Inr (p\<lparr>tp_last_seen_at := ts\<rparr>))"
  by (simp add: row_to_peer_def rbind_assoc i64_max0_def)

section \<open>The methods on the abstract view\<close>

lemma view_find:
  assumes "store_inv c s" "hex_roundtrip c" "find_row (to_hex c n) (trusted_peers s) = Some r"
  obtains p where "row_to_peer c r = Inr p" "trust_view c s n = Some p" "r = peer_to_row c p"
    "peer_wf c p"
proof -
  have "r \<in> set (trusted_peers s)" using find_row_set [OF assms(3)] by blast
  then have "row_ok c r" using assms(1) by (simp add: store_inv_def)
  then show thesis using assms(2) that assms(3)
    by (elim row_okE) (simp_all add: trust_view_eq)
qed

lemma view_node_id:
  assumes "store_inv c s" "hex_roundtrip c" "trust_view c s n = Some p"
  shows "peer_wf c p \<and> (node_id_wf n \<longrightarrow> tp_node_id p = n)"
proof -
  obtain r where r: "find_row (to_hex c n) (trusted_peers s) = Some r"
    using assms(3) by (auto simp: trust_view_eq split: option.splits)
  then obtain q where q: "trust_view c s n = Some q" "r = peer_to_row c q" "peer_wf c q"
    using assms(1,2) by (elim view_find)
  have "row_node_id r = to_hex c n" using find_row_set [OF r] by simp
  then have "to_hex c (tp_node_id q) = to_hex c n" by (simp add: q(2) peer_to_row_def)
  then show ?thesis using q assms(2,3) to_hex_inj by (auto simp: peer_wf_def)
qed

lemma view_save:
  assumes "store_inv c s" "hex_roundtrip c" "peer_wf c p" "node_id_wf n"
  shows "trust_view c (s\<lparr>trusted_peers := upsert (peer_to_row c p) (trusted_peers s)\<rparr>) n =
    ((trust_view c s)(tp_node_id p \<mapsto> merge_peer (trust_view c s (tp_node_id p)) p)) n"
proof (cases "n = tp_node_id p")
  case True
  have id: "row_node_id (peer_to_row c p) = to_hex c n" by (simp add: True peer_to_row_def)
  show ?thesis
  proof (cases "find_row (to_hex c n) (trusted_peers s)")
    case None
    then show ?thesis using row_roundtrip [OF assms(2,3)] True
      by (simp add: trust_view_eq find_row_upsert id merge_peer_def)
  next
    case (Some r)
    then obtain q where q: "trust_view c s n = Some q" "r = peer_to_row c q" "peer_wf c q"
      using assms(1,2) by (elim view_find)
    have wf: "peer_wf c (p\<lparr>tp_first_paired_at := tp_first_paired_at q\<rparr>)"
      using assms(3) q(3) by (simp add: peer_wf_def)
    have "(peer_to_row c p)\<lparr>row_first_paired_at := row_first_paired_at r\<rparr> =
        peer_to_row c (p\<lparr>tp_first_paired_at := tp_first_paired_at q\<rparr>)"
      by (simp add: q(2) peer_to_row_def)
    then have "trust_view c (s\<lparr>trusted_peers := upsert (peer_to_row c p) (trusted_peers s)\<rparr>) n =
        Some (p\<lparr>tp_first_paired_at := tp_first_paired_at q\<rparr>)"
      using row_roundtrip [OF assms(2) wf] Some by (simp add: trust_view_eq find_row_upsert id)
    then show ?thesis using q(1) True by (simp add: merge_peer_def)
  qed
next
  case False
  have "to_hex c n \<noteq> row_node_id (peer_to_row c p)"
    using False assms to_hex_inj by (auto simp: peer_to_row_def peer_wf_def)
  then show ?thesis using False by (simp add: trust_view_eq find_row_upsert)
qed

lemma view_update:
  assumes "hex_roundtrip c" "node_id_wf n" "node_id_wf m"
    and "\<And>r. row_node_id (f r) = row_node_id r"
    and "\<And>r. row_to_peer c (f r) = rbind (row_to_peer c r) (\<lambda>p. Inr (g p))"
  shows "trust_view c (s\<lparr>trusted_peers := update_where (to_hex c n) f (trusted_peers s)\<rparr>) m =
    (if m = n then map_option g (trust_view c s m) else trust_view c s m)"
proof -
  have "to_hex c m = to_hex c n \<longleftrightarrow> m = n" using assms(1-3) to_hex_inj by blast
  then show ?thesis
    by (auto simp: trust_view_eq find_row_update_where [OF assms(4)] assms(5)
        split: option.split sum.split)
qed

lemma view_delete:
  assumes "hex_roundtrip c" "node_id_wf n" "node_id_wf m"
  shows "trust_view c (s\<lparr>trusted_peers := filter (\<lambda>r. row_node_id r \<noteq> to_hex c n) (trusted_peers s)\<rparr>) m =
    (if m = n then None else trust_view c s m)"
proof -
  have "to_hex c m = to_hex c n \<longleftrightarrow> m = n" using assms to_hex_inj by blast
  then show ?thesis by (simp add: trust_view_eq find_row_filter)
qed

lemma deleted_iff:
  assumes "hex_roundtrip c \<and> store_inv c s"
  shows "length (filter (\<lambda>x. row_node_id x \<noteq> to_hex c m) (trusted_peers s)) < length (trusted_peers s)
    \<longleftrightarrow> trust_view c s m \<noteq> None"
proof (cases "find_row (to_hex c m) (trusted_peers s)")
  case None
  then have "filter (\<lambda>x. row_node_id x \<noteq> to_hex c m) (trusted_peers s) = trusted_peers s"
    by (simp add: find_None_iff filter_id_conv)
  then show ?thesis using None by (simp add: trust_view_eq)
next
  case (Some r)
  then have "length (filter (\<lambda>x. row_node_id x \<noteq> to_hex c m) (trusted_peers s)) < length (trusted_peers s)"
    using find_row_set [OF Some] by (intro length_filter_less) auto
  moreover have "trust_view c s m \<noteq> None" using assms Some by (elim conjE view_find) auto
  ultimately show ?thesis by simp
qed

lemma sql_statement:
  "sbind (slift (sql_ok df op)) (\<lambda>_. smodify f) s =
     (case df op of None \<Rightarrow> (Inr (), f s) | Some e \<Rightarrow> (Inl (Database (SqliteFailure e)), s))"
  by (simp add: sbind_def sql_ok_def split: option.split)

lemmas statement_defs =
  save_peer_def update_last_seen_def set_trust_state_def sql_statement

section \<open>The interface of a trust directory\<close>

text \<open>
  What the session layer and the command line rely on. A history is a list of writes; each
  is executed on the store that the previous one left, failed statements included.
\<close>

datatype store_op =
    OpSave trusted_peer
  | OpSeen node_id u64
  | OpState node_id trust_state
  | OpDelete node_id

fun op_ok :: "(trusted_peer \<Rightarrow> bool) \<Rightarrow> store_op \<Rightarrow> bool" where
  "op_ok good (OpSave p) = (good p \<and> node_id_wf (tp_node_id p))"
| "op_ok good (OpSeen n ts) = (node_id_wf n \<and> 0 \<le> sint ts)"
| "op_ok good (OpState n st) = node_id_wf n"
| "op_ok good (OpDelete n) = node_id_wf n"

text \<open>The writes that make the peer \<open>n\<close> trusted.\<close>

fun grants :: "node_id \<Rightarrow> store_op \<Rightarrow> bool" where
  "grants n (OpSave p) = (tp_node_id p = n \<and> tp_trust_state p = Trusted)"
| "grants n (OpState m st) = (m = n \<and> st = Trusted)"
| "grants n _ = False"

definition view_trusted :: "trusted_peer option \<Rightarrow> bool" where
  "view_trusted v \<longleftrightarrow> (\<exists>p. v = Some p \<and> tp_trust_state p = Trusted)"

lemma view_trusted_simps [simp]:
  "\<not> view_trusted None"
  "view_trusted (Some p) \<longleftrightarrow> tp_trust_state p = Trusted"
  by (simp_all add: view_trusted_def)

fun apply_op ::
    "(trusted_peer \<Rightarrow> ('s, 'e, unit) comp) \<Rightarrow> (node_id \<Rightarrow> u64 \<Rightarrow> ('s, 'e, unit) comp) \<Rightarrow>
     (node_id \<Rightarrow> trust_state \<Rightarrow> ('s, 'e, unit) comp) \<Rightarrow> (node_id \<Rightarrow> ('s, 'e, bool) comp) \<Rightarrow>
     store_op \<Rightarrow> 's \<Rightarrow> 's" where
  "apply_op put seen set_state remove (OpSave p) s = snd (put p s)"
| "apply_op put seen set_state remove (OpSeen n ts) s = snd (seen n ts s)"
| "apply_op put seen set_state remove (OpState n st) s = snd (set_state n st s)"
| "apply_op put seen set_state remove (OpDelete n) s = snd (remove n s)"

locale trust_directory =
  fixes view :: "'s \<Rightarrow> node_id \<Rightarrow> trusted_peer option"
    and invar :: "'s \<Rightarrow> bool"
    and good :: "trusted_peer \<Rightarrow> bool"
    and put :: "trusted_peer \<Rightarrow> ('s, 'e, unit) comp"
    and seen :: "node_id \<Rightarrow> u64 \<Rightarrow> ('s, 'e, unit) comp"
    and set_state :: "node_id \<Rightarrow> trust_state \<Rightarrow> ('s, 'e, unit) comp"
    and remove :: "node_id \<Rightarrow> ('s, 'e, bool) comp"
    and trusted :: "node_id \<Rightarrow> public_key \<Rightarrow> 's \<Rightarrow> 'e + bool"
  assumes put_law: "\<lbrakk>invar s; good p; put p s = (r, t)\<rbrakk> \<Longrightarrow> invar t \<and>
      (\<forall>n. node_id_wf n \<longrightarrow> view t n =
        (if is_ok r then (view s)(tp_node_id p \<mapsto> merge_peer (view s (tp_node_id p)) p) else view s) n)"
    and seen_law: "\<lbrakk>invar s; node_id_wf m; 0 \<le> sint ts; seen m ts s = (r, t)\<rbrakk> \<Longrightarrow> invar t \<and>
      (\<forall>n. node_id_wf n \<longrightarrow> view t n =
        (if is_ok r \<and> n = m then map_option (\<lambda>p. p\<lparr>tp_last_seen_at := ts\<rparr>) (view s n) else view s n))"
    and state_law: "\<lbrakk>invar s; node_id_wf m; set_state m st s = (r, t)\<rbrakk> \<Longrightarrow> invar t \<and>
      (\<forall>n. node_id_wf n \<longrightarrow> view t n =
        (if is_ok r \<and> n = m then map_option (\<lambda>p. p\<lparr>tp_trust_state := st\<rparr>) (view s n) else view s n))"
    and remove_law: "\<lbrakk>invar s; node_id_wf m; remove m s = (rb, t)\<rbrakk> \<Longrightarrow> invar t \<and>
      (\<forall>n. node_id_wf n \<longrightarrow> view t n = (if is_ok rb \<and> n = m then None else view s n)) \<and>
      (\<forall>b. rb = Inr b \<longrightarrow> b = (view s m \<noteq> None))"
    and trusted_law: "\<lbrakk>invar s; trusted n k s = Inr b\<rbrakk> \<Longrightarrow>
      b = (\<exists>p. view s n = Some p \<and> tp_public_key p = k \<and> tp_trust_state p = Trusted)"
    and refused_law: "\<lbrakk>invar s; view s n = Some p; tp_trust_state p = Revoked\<rbrakk> \<Longrightarrow> \<not> is_ok (trusted n k s)"
begin

definition run :: "store_op list \<Rightarrow> 's \<Rightarrow> 's" where
  "run ops s = fold (apply_op put seen set_state remove) ops s"

lemma step_law:
  assumes "invar s" "op_ok good op" "node_id_wf n" "\<not> grants n op" "\<not> view_trusted (view s n)"
  shows "invar (apply_op put seen set_state remove op s) \<and>
    \<not> view_trusted (view (apply_op put seen set_state remove op s) n)"
proof (cases op)
  case (OpSave p)
  then show ?thesis using assms put_law [of s p "fst (put p s)" "snd (put p s)"] by auto
next
  case (OpSeen m ts)
  then show ?thesis using assms seen_law [of s m ts "fst (seen m ts s)" "snd (seen m ts s)"]
    by (cases "view s n") auto
next
  case (OpState m st)
  then show ?thesis using assms state_law [of s m st "fst (set_state m st s)" "snd (set_state m st s)"]
    by (cases "view s n") auto
next
  case (OpDelete m)
  then show ?thesis using assms remove_law [of s m "fst (remove m s)" "snd (remove m s)"] by auto
qed

lemma run_law:
  assumes "invar s" "\<forall>op \<in> set ops. op_ok good op \<and> \<not> grants n op" "node_id_wf n"
    "\<not> view_trusted (view s n)"
  shows "invar (run ops s) \<and> \<not> view_trusted (view (run ops s) n)"
  using assms
proof (induction ops arbitrary: s)
  case Nil
  then show ?case by (simp add: run_def)
next
  case (Cons op ops)
  then show ?case using step_law [of s op n] by (simp add: run_def)
qed

text \<open>Trust is only ever granted: a peer that was not trusted and for which no write grants
  trust is not reported as trusted, whatever else happens to the store.\<close>

lemma no_trust_without_grant:
  assumes "invar s" "\<forall>op \<in> set ops. op_ok good op \<and> \<not> grants n op" "node_id_wf n"
    "\<not> view_trusted (view s n)"
  shows "trusted n k (run ops s) \<noteq> Inr True"
  using run_law [OF assms] trusted_law [of "run ops s" n k True] by auto

lemma revoked_refused:
  assumes "invar s" "node_id_wf n" "set_state n Revoked s = (Inr (), t)" "view s n \<noteq> None"
  shows "\<not> is_ok (trusted n k t)"
  using state_law [OF assms(1-3)] assms(2,4) refused_law [of t n _ k] by auto

end

text \<open>The SQLite store implements the interface, provided the \<open>hex\<close> crate round-trips.\<close>

interpretation sqlite: trust_directory "trust_view c" "\<lambda>s. hex_roundtrip c \<and> store_inv c s"
    "peer_wf c" "save_peer c df" "update_last_seen c df" "set_trust_state c df" "delete_peer c df"
    "is_trusted c df"
  for c :: "'x crates_scheme" and df
proof unfold_locales
  fix s t p r
  assume "hex_roundtrip c \<and> store_inv c s" "peer_wf c p" "save_peer c df p s = (r, t)"
  then show "(hex_roundtrip c \<and> store_inv c t) \<and> (\<forall>n. node_id_wf n \<longrightarrow> trust_view c t n =
      (if is_ok r then (trust_view c s)(tp_node_id p \<mapsto> merge_peer (trust_view c s (tp_node_id p)) p)
       else trust_view c s) n)"
    by (auto simp: statement_defs store_inv_upsert view_save split: option.splits)
next
  fix s t m ts r
  assume "hex_roundtrip c \<and> store_inv c s" "node_id_wf m" "0 \<le> sint (ts :: u64)"
    "update_last_seen c df m ts s = (r, t)"
  then show "(hex_roundtrip c \<and> store_inv c t) \<and> (\<forall>n. node_id_wf n \<longrightarrow> trust_view c t n =
      (if is_ok r \<and> n = m then map_option (\<lambda>p. p\<lparr>tp_last_seen_at := ts\<rparr>) (trust_view c s n)
       else trust_view c s n))"
    by (auto simp: statement_defs store_inv_update_where row_ok_seen row_to_peer_seen
        view_update [where g = "\<lambda>p. p\<lparr>tp_last_seen_at := ts\<rparr>"] split: option.splits)
next
  fix s t m st r
  assume "hex_roundtrip c \<and> store_inv c s" "node_id_wf m" "set_trust_state c df m st s = (r, t)"
  then show "(hex_roundtrip c \<and> store_inv c t) \<and> (\<forall>n. node_id_wf n \<longrightarrow> trust_view c t n =
      (if is_ok r \<and> n = m then map_option (\<lambda>p. p\<lparr>tp_trust_state := st\<rparr>) (trust_view c s n)
       else trust_view c s n))"
    by (auto simp: statement_defs store_inv_update_where row_ok_state row_to_peer_state
        view_update [where g = "\<lambda>p. p\<lparr>tp_trust_state := st\<rparr>"] split: option.splits)
next
  fix s t m r
  assume *: "hex_roundtrip c \<and> store_inv c s" "node_id_wf m" "delete_peer c df m s = (r, t)"
  have "(length (filter (\<lambda>x. row_node_id x \<noteq> to_hex c m) (trusted_peers s)) < length (trusted_peers s))
      = (trust_view c s m \<noteq> None)"
    using * deleted_iff by blast
  with * show "(hex_roundtrip c \<and> store_inv c t) \<and>
      (\<forall>n. node_id_wf n \<longrightarrow> trust_view c t n = (if is_ok r \<and> n = m then None else trust_view c s n)) \<and>
      (\<forall>b. r = Inr b \<longrightarrow> b = (trust_view c s m \<noteq> None))"
    by (auto simp: delete_peer_def sbind_def sql_ok_def Let_def store_inv_filter view_delete
        split: option.splits)
next
  fix s n k b
  assume "hex_roundtrip c \<and> store_inv c s" "is_trusted c df n k s = Inr b"
  then show "b = (\<exists>p. trust_view c s n = Some p \<and> tp_public_key p = k \<and> tp_trust_state p = Trusted)"
    by (auto simp: is_trusted_def get_peer_view split: option.splits if_splits trust_state.splits)
next
  fix s n p k
  assume "hex_roundtrip c \<and> store_inv c s" "trust_view c s n = Some p" "tp_trust_state p = Revoked"
  then show "\<not> is_ok (is_trusted c df n k s)"
    by (auto simp: is_trusted_def get_peer_view split: option.splits)
qed

section \<open>Properties\<close>

text \<open>What each write does to the map of peers.\<close>

fun abs_op :: "store_op \<Rightarrow> (node_id \<rightharpoonup> trusted_peer) \<Rightarrow> (node_id \<rightharpoonup> trusted_peer)" where
  "abs_op (OpSave p) m = m(tp_node_id p \<mapsto> merge_peer (m (tp_node_id p)) p)"
| "abs_op (OpSeen n ts) m = m(n := map_option (\<lambda>p. p\<lparr>tp_last_seen_at := ts\<rparr>) (m n))"
| "abs_op (OpState n st) m = m(n := map_option (\<lambda>p. p\<lparr>tp_trust_state := st\<rparr>) (m n))"
| "abs_op (OpDelete n) m = m(n := None)"

abbreviation store_history :: "'x crates_scheme \<Rightarrow> db_faults \<Rightarrow> store_op list \<Rightarrow> trust_db \<Rightarrow> trust_db" where
  "store_history c df \<equiv>
     fold (apply_op (save_peer c df) (update_last_seen c df) (set_trust_state c df) (delete_peer c df))"

lemma writes_succeed:
  "is_ok (fst (save_peer c no_db_faults p s))" "is_ok (fst (update_last_seen c no_db_faults n ts s))"
  "is_ok (fst (set_trust_state c no_db_faults n st s))" "is_ok (fst (delete_peer c no_db_faults n s))"
  by (simp_all add: statement_defs delete_peer_def sbind_def sql_ok_def Let_def)

lemma write_refines:
  assumes "hex_roundtrip c" "store_inv c s" "op_ok (peer_wf c) op"
  defines "t \<equiv> store_history c no_db_faults [op] s"
  shows "store_inv c t \<and> (\<forall>n. node_id_wf n \<longrightarrow> trust_view c t n = abs_op op (trust_view c s) n)"
proof (cases op)
  case (OpSave p)
  then show ?thesis using assms writes_succeed(1) [of c p s]
      sqlite.put_law [of c s p no_db_faults "fst (save_peer c no_db_faults p s)" "snd (save_peer c no_db_faults p s)"]
    by simp
next
  case (OpSeen n ts)
  then show ?thesis using assms writes_succeed(2) [of c n ts s]
      sqlite.seen_law [of c s n ts no_db_faults "fst (update_last_seen c no_db_faults n ts s)"
        "snd (update_last_seen c no_db_faults n ts s)"]
    by simp
next
  case (OpState n st)
  then show ?thesis using assms writes_succeed(3) [of c n st s]
      sqlite.state_law [of c s n no_db_faults st "fst (set_trust_state c no_db_faults n st s)"
        "snd (set_trust_state c no_db_faults n st s)"]
    by simp
next
  case (OpDelete n)
  then show ?thesis using assms writes_succeed(4) [of c n s]
      sqlite.remove_law [of c s n no_db_faults "fst (delete_peer c no_db_faults n s)"
        "snd (delete_peer c no_db_faults n s)"]
    by simp
qed

lemma abs_op_cong:
  assumes "op_ok good op" "\<And>n. node_id_wf n \<Longrightarrow> m n = m' n" "node_id_wf n"
  shows "abs_op op m n = abs_op op m' n"
  using assms by (cases op) auto

lemma fold_abs_op_cong:
  assumes "\<forall>op \<in> set ops. op_ok good op" "\<And>n. node_id_wf n \<Longrightarrow> m n = m' n" "node_id_wf n"
  shows "fold abs_op ops m n = fold abs_op ops m' n"
  using assms
proof (induction ops arbitrary: m m')
  case (Cons op ops)
  show ?case using Cons.IH [of "abs_op op m" "abs_op op m'"] Cons.prems abs_op_cong [of good op m m'] by simp
qed simp

text \<open>C13: the trust store is a map. Any sequence of saving, touching, relabelling and deleting
  peers keeps the table well-formed and has, seen through lookups, the effect of the same
  operations on a map from identifiers to peers, where saving a known peer keeps the time of
  its first pairing.\<close>

theorem trust_store_refines_map:
  assumes "hex_roundtrip c" "store_inv c s" "\<forall>op \<in> set ops. op_ok (peer_wf c) op"
  shows "store_inv c (store_history c no_db_faults ops s) \<and>
    (\<forall>n. node_id_wf n \<longrightarrow>
       get_peer c no_db_faults n (store_history c no_db_faults ops s) = Inr (fold abs_op ops (trust_view c s) n))"
proof -
  have "store_inv c (store_history c no_db_faults ops s) \<and>
      (\<forall>n. node_id_wf n \<longrightarrow> trust_view c (store_history c no_db_faults ops s) n = fold abs_op ops (trust_view c s) n)"
    using assms(2,3)
  proof (induction ops arbitrary: s)
    case (Cons op ops)
    let ?t = "store_history c no_db_faults [op] s"
    have ok: "op_ok (peer_wf c) op" "\<forall>op \<in> set ops. op_ok (peer_wf c) op" using Cons.prems(2) by simp_all
    note step = write_refines [OF assms(1) Cons.prems(1) ok(1)]
    have "fold abs_op ops (trust_view c ?t) n = fold abs_op ops (abs_op op (trust_view c s)) n" if "node_id_wf n" for n
      using fold_abs_op_cong [OF ok(2) _ that] step by blast
    then show ?case using Cons.IH [of ?t] step ok(2) by (simp del: no_db_faults_simp)
  qed simp
  then show ?thesis using assms(1) by (simp add: get_peer_view)
qed

text \<open>Trust is only ever granted explicitly. A peer that is not trusted and for which no
  write grants trust is not reported as trusted after any history of writes, whether the
  statements succeed or fail.\<close>

theorem trust_needs_grant:
  assumes "hex_roundtrip c" "store_inv c s" "node_id_wf n" "\<not> view_trusted (trust_view c s n)"
    and "\<forall>op \<in> set ops. op_ok (peer_wf c) op \<and> \<not> grants n op"
  shows "is_trusted c df n k (store_history c df ops s) \<noteq> Inr True"
  using sqlite.no_trust_without_grant [of c s ops n df k] assms by (simp add: sqlite.run_def)

text \<open>A peer and a database for the witnesses.\<close>

definition known_peer :: trusted_peer where
  "known_peer = \<lparr>tp_node_id = NodeId (replicate 32 5), tp_public_key = PublicKey (replicate 32 5),
     tp_device_name = ''pc'', tp_device_type = Linux, tp_first_paired_at = 3, tp_last_seen_at = 4,
     tp_trust_state = Pending\<rparr>"

lemma known_peer_wf: "peer_wf sample_crates known_peer" "node_id_wf (tp_node_id known_peer)"
  by (simp_all add: peer_wf_def known_peer_def node_id_wf_def)

lemma blank_store: "store_inv c empty_db" "trust_view c empty_db n = None"
  by (simp_all add: store_inv_def empty_db_def trust_view_def get_peer_def sql_ok_def)

theorem trust_store_refines_map_witness:
  "get_peer sample_crates no_db_faults (NodeId (replicate 32 5))
     (store_history sample_crates no_db_faults
        [OpSave known_peer, OpState (NodeId (replicate 32 5)) Trusted, OpSeen (NodeId (replicate 32 5)) 9] empty_db) =
   Inr (Some (known_peer\<lparr>tp_trust_state := Trusted, tp_last_seen_at := 9\<rparr>))"
  using trust_store_refines_map [OF sample_hex blank_store(1), of
      "[OpSave known_peer, OpState (NodeId (replicate 32 5)) Trusted, OpSeen (NodeId (replicate 32 5)) 9]"] known_peer_wf
  by (simp add: node_id_wf_def blank_store(2) known_peer_def merge_peer_def)

theorem trust_needs_grant_witness:
  "is_trusted sample_crates no_db_faults (NodeId (replicate 32 5)) (PublicKey (replicate 32 5))
     (store_history sample_crates no_db_faults [OpSave known_peer] empty_db) \<noteq> Inr True"
  using trust_needs_grant [OF sample_hex blank_store(1), of "NodeId (replicate 32 5)" "[OpSave known_peer]"] known_peer_wf
  by (simp add: node_id_wf_def blank_store(2) known_peer_def)

end
