(* ===== verification/Pairing.thy ===== *)
theory Pairing
  imports Trust_Store Sample_Instances
begin

text \<open>
  The pairing ceremony, \<open>crates/bridge-identity/src/pairing.rs\<close>: derivation of the short
  authentication string (SAS) both users compare, and the state machine that turns a
  confirmed comparison into a trusted peer record. The random nonce and the wall clock are
  arguments of the operations that read them.
\<close>

section \<open>The short authentication string\<close>

record sas_verification =
  numeric_pin :: u32
  formatted_pin :: string
  hex_fingerprint :: string

definition sas_derive ::
    "'x crates_scheme \<Rightarrow> node_id \<Rightarrow> node_id \<Rightarrow> bytes \<Rightarrow> bytes \<Rightarrow> sas_verification" where
  "sas_derive c node_a node_b nonce_a nonce_b =
     (let pre = str_bytes ''BridgeOS-Pairing-SAS-v1'';
          msg = (if node_bytes node_a \<le> node_bytes node_b
                 then pre @ node_bytes node_a @ node_bytes node_b @ nonce_a @ nonce_b
                 else pre @ node_bytes node_b @ node_bytes node_a @ nonce_b @ nonce_a);
          digest = sha256 c msg;
          val = be_nat (take 8 digest);
          pin = (of_nat (val mod 1000000) :: u32)
      in \<lparr>numeric_pin = pin,
          formatted_pin = show_pad3 (unat pin div 1000) @ ''-'' @ show_pad3 (unat pin mod 1000),
          hex_fingerprint = hex_encode c (take 4 digest)\<rparr>)"

section \<open>Messages and session state\<close>

record pairing_request =
  preq_node_id :: node_id
  preq_public_key :: bytes
  preq_device_name :: string
  preq_device_type :: device_type
  preq_nonce :: bytes
  preq_timestamp :: u64

record pairing_response =
  presp_node_id :: node_id
  presp_public_key :: bytes
  presp_device_name :: string
  presp_device_type :: device_type
  presp_nonce :: bytes
  presp_timestamp :: u64

record pairing_confirm =
  pconf_node_id :: node_id
  pconf_confirmed :: bool
  pconf_signature :: bytes

record pairing_session =
  ps_local_key :: identity_key
  ps_local_name :: string
  ps_local_type :: device_type
  ps_local_nonce :: bytes
  ps_remote_peer :: "trusted_peer option"
  ps_remote_nonce :: "bytes option"
  ps_sas :: "sas_verification option"

section \<open>Operations\<close>

definition new_initiator ::
    "'x crates_scheme \<Rightarrow> bytes \<Rightarrow> u64 \<Rightarrow> identity_key \<Rightarrow> string \<Rightarrow> device_type \<Rightarrow>
     pairing_session \<times> pairing_request" where
  "new_initiator c nonce now key nm dt =
     (\<lparr>ps_local_key = key, ps_local_name = nm, ps_local_type = dt, ps_local_nonce = nonce,
       ps_remote_peer = None, ps_remote_nonce = None, ps_sas = None\<rparr>,
      \<lparr>preq_node_id = identity_node_id c key, preq_public_key = key_to_bytes (public_of c key),
       preq_device_name = nm, preq_device_type = dt, preq_nonce = nonce, preq_timestamp = now\<rparr>)"

text \<open>The check both sides make: the announced identifier is the one of the announced key.\<close>

definition check_peer_key ::
    "'x crates_scheme \<Rightarrow> bytes \<Rightarrow> node_id \<Rightarrow> identity_error + public_key" where
  "check_peer_key c pkb n =
     rbind (map_err Core (key_from_bytes c pkb)) (\<lambda>pk.
       if key_node_id pk \<noteq> n then Inl (KeyMismatch n (to_hex c n) (to_hex c (key_node_id pk)))
       else Inr pk)"

definition new_responder ::
    "'x crates_scheme \<Rightarrow> bytes \<Rightarrow> u64 \<Rightarrow> identity_key \<Rightarrow> string \<Rightarrow> device_type \<Rightarrow> pairing_request \<Rightarrow>
     identity_error + pairing_session \<times> pairing_response \<times> sas_verification" where
  "new_responder c nonce now key nm dt req =
     rbind (check_peer_key c (preq_public_key req) (preq_node_id req)) (\<lambda>remote_pubkey.
       let sas = sas_derive c (identity_node_id c key) (preq_node_id req) nonce (preq_nonce req);
           resp = \<lparr>presp_node_id = identity_node_id c key,
             presp_public_key = key_to_bytes (public_of c key), presp_device_name = nm,
             presp_device_type = dt, presp_nonce = nonce, presp_timestamp = now\<rparr>;
           peer = \<lparr>tp_node_id = preq_node_id req, tp_public_key = remote_pubkey,
             tp_device_name = preq_device_name req, tp_device_type = preq_device_type req,
             tp_first_paired_at = now, tp_last_seen_at = now, tp_trust_state = Pending\<rparr>
       in Inr (\<lparr>ps_local_key = key, ps_local_name = nm, ps_local_type = dt,
                ps_local_nonce = nonce, ps_remote_peer = Some peer,
                ps_remote_nonce = Some (preq_nonce req), ps_sas = Some sas\<rparr>, resp, sas))"

definition initiator_receive_response ::
    "'x crates_scheme \<Rightarrow> u64 \<Rightarrow> pairing_response \<Rightarrow>
     (pairing_session, identity_error, sas_verification) comp" where
  "initiator_receive_response c now resp =
     sbind (slift (check_peer_key c (presp_public_key resp) (presp_node_id resp)))
       (\<lambda>remote_pubkey s.
         let sas = sas_derive c (identity_node_id c (ps_local_key s)) (presp_node_id resp)
               (ps_local_nonce s) (presp_nonce resp);
             peer = \<lparr>tp_node_id = presp_node_id resp, tp_public_key = remote_pubkey,
               tp_device_name = presp_device_name resp, tp_device_type = presp_device_type resp,
               tp_first_paired_at = now, tp_last_seen_at = now, tp_trust_state = Pending\<rparr>
         in (Inr sas, s\<lparr>ps_remote_peer := Some peer, ps_remote_nonce := Some (presp_nonce resp),
               ps_sas := Some sas\<rparr>))"

definition compute_confirmation_hash ::
    "'x crates_scheme \<Rightarrow> pairing_session \<Rightarrow> sas_verification \<Rightarrow> bytes" where
  "compute_confirmation_hash c s sas =
     (let pre = str_bytes ''BridgeOS-Pairing-Confirm-v1'' @ str_bytes (formatted_pin sas) in
      sha256 c
        (case (ps_remote_peer s, ps_remote_nonce s) of
           (Some remote, Some rn) \<Rightarrow>
             if node_bytes (identity_node_id c (ps_local_key s)) \<le> node_bytes (tp_node_id remote)
             then pre @ ps_local_nonce s @ rn
             else pre @ rn @ ps_local_nonce s
         | _ \<Rightarrow> pre @ ps_local_nonce s))"

definition confirm :: "'x crates_scheme \<Rightarrow> pairing_session \<Rightarrow> identity_error + pairing_confirm" where
  "confirm c s =
     rbind (ok_or (PairingFailed ''Cannot confirm pairing before SAS derivation'') (ps_sas s))
       (\<lambda>sas.
         let commitment = compute_confirmation_hash c s sas in
         Inr \<lparr>pconf_node_id = identity_node_id c (ps_local_key s), pconf_confirmed = True,
              pconf_signature = sign c (ps_local_key s) commitment\<rparr>)"

definition finalize ::
    "'x crates_scheme \<Rightarrow> pairing_confirm \<Rightarrow> (pairing_session, identity_error, trusted_peer) comp" where
  "finalize c conf =
     (\<lambda>s.
       if \<not> pconf_confirmed conf then
         (Inl (PairingFailed ''Remote peer rejected SAS confirmation''), s)
       else case ps_sas s of
         None \<Rightarrow> (Inl (PairingFailed ''Cannot finalize pairing before SAS derivation''), s)
       | Some sas \<Rightarrow>
           let commitment = compute_confirmation_hash c s sas in
           (case ps_remote_peer s of
              None \<Rightarrow> (Inl (PairingFailed ''No active remote peer in pairing session''), s)
            | Some remote \<Rightarrow>
                if pconf_node_id conf \<noteq> tp_node_id remote then
                  (Inl (KeyMismatch (pconf_node_id conf) (to_hex c (tp_node_id remote))
                     (to_hex c (pconf_node_id conf))), s)
                else if length (pconf_signature conf) \<noteq> 64 then
                  (Inl (Crypto ''Invalid confirmation signature length: expected 64 bytes''), s)
                else (case verify c (tp_public_key remote) commitment (pconf_signature conf) of
                    Inl e \<Rightarrow> (Inl (Core e), s)
                  | Inr _ \<Rightarrow>
                      let trusted = remote\<lparr>tp_trust_state := Trusted\<rparr> in
                      (Inr trusted, s\<lparr>ps_remote_peer := Some trusted\<rparr>))))"

section \<open>Lemmas\<close>

lemma check_peer_key_Inr_iff:
  "check_peer_key c b n = Inr pk \<longleftrightarrow> ed_key_check c b = Inr () \<and> pk = PublicKey b \<and> n = NodeId b"
  by (auto simp: check_peer_key_def rbind_Inr_iff key_from_bytes_Inr_iff key_node_id_def)

lemma sas_derive_swap:
  assumes "a \<noteq> b"
  shows "sas_derive c a b na nb = sas_derive c b a nb na"
proof -
  have "node_bytes a \<noteq> node_bytes b" using assms by (cases a; cases b) simp
  then show ?thesis by (auto simp: sas_derive_def Let_def)
qed

lemma sas_pin_bound: "unat (numeric_pin (sas_derive c a b na nb)) < 1000000"
proof -
  have "unat (of_nat (v mod 1000000) :: u32) < 1000000" for v :: nat
  proof -
    have "v mod 1000000 < 1000000" by simp
    moreover have "unat (of_nat (v mod 1000000) :: u32) = v mod 1000000 mod 2 ^ 32"
      by (simp add: unat_of_nat)
    ultimately show ?thesis by simp
  qed
  then show ?thesis by (simp add: sas_derive_def Let_def)
qed

lemma sas_formatted:
  "formatted_pin (sas_derive c a b na nb) =
     (let p = unat (numeric_pin (sas_derive c a b na nb)) in
      show_pad3 (p div 1000) @ ''-'' @ show_pad3 (p mod 1000))"
  by (simp add: sas_derive_def Let_def)

lemma pad3_digits: "(n :: nat) = 100 * (n div 100) + 10 * (n div 10 mod 10) + n mod 10"
proof -
  have "n = 10 * (n div 10) + n mod 10" by simp
  moreover have "n div 10 = 10 * (n div 10 div 10) + n div 10 mod 10" by simp
  moreover have "n div 10 div 10 = n div 100" by (simp add: div_mult2_eq [symmetric])
  ultimately show ?thesis by linarith
qed

lemma show_pad3_inj:
  assumes "show_pad3 m = show_pad3 n" "m < 1000" "n < 1000"
  shows "m = n"
proof -
  have eq: "digit (m div 100) = digit (n div 100)" "digit (m div 10 mod 10) = digit (n div 10 mod 10)"
    "digit (m mod 10) = digit (n mod 10)"
    using assms(1) unfolding show_pad3_small [OF assms(2)] show_pad3_small [OF assms(3)]
    by simp_all
  have "m div 100 = n div 100" using eq(1) assms(2,3) by (subst (asm) digit_eq_iff) simp_all
  moreover have "m div 10 mod 10 = n div 10 mod 10" using eq(2) by (subst (asm) digit_eq_iff) simp_all
  moreover have "m mod 10 = n mod 10" using eq(3) by (subst (asm) digit_eq_iff) simp_all
  ultimately show ?thesis using pad3_digits [of m] pad3_digits [of n] by simp
qed

lemma show_pad3_length: "n < 1000 \<Longrightarrow> length (show_pad3 n) = 3"
  by (simp add: show_pad3_small)

lemma finalize_Inr_iff:
  "finalize c conf s = (Inr p, t) \<longleftrightarrow>
     (\<exists>sas remote. pconf_confirmed conf \<and> ps_sas s = Some sas \<and> ps_remote_peer s = Some remote \<and>
        pconf_node_id conf = tp_node_id remote \<and> length (pconf_signature conf) = 64 \<and>
        verify c (tp_public_key remote) (compute_confirmation_hash c s sas) (pconf_signature conf) = Inr () \<and>
        p = remote\<lparr>tp_trust_state := Trusted\<rparr> \<and> t = s\<lparr>ps_remote_peer := Some p\<rparr>)"
  by (auto simp: finalize_def Let_def split: option.splits sum.splits if_splits)

lemma finalize_Inl_state: "finalize c conf s = (Inl e, t) \<Longrightarrow> t = s"
  by (auto simp: finalize_def Let_def split: option.splits sum.splits if_splits)

section \<open>The honest ceremony\<close>

definition request_of :: "'x crates_scheme \<Rightarrow> bytes \<Rightarrow> u64 \<Rightarrow> identity_key \<Rightarrow> string \<Rightarrow> device_type \<Rightarrow> pairing_request" where
  "request_of c nonce now key nm dt = snd (new_initiator c nonce now key nm dt)"

definition response_of :: "'x crates_scheme \<Rightarrow> bytes \<Rightarrow> u64 \<Rightarrow> identity_key \<Rightarrow> string \<Rightarrow> device_type \<Rightarrow> pairing_response" where
  "response_of c nonce now key nm dt =
     \<lparr>presp_node_id = identity_node_id c key, presp_public_key = key_to_bytes (public_of c key),
      presp_device_name = nm, presp_device_type = dt, presp_nonce = nonce, presp_timestamp = now\<rparr>"

definition peer_of :: "'x crates_scheme \<Rightarrow> identity_key \<Rightarrow> string \<Rightarrow> device_type \<Rightarrow> u64 \<Rightarrow> trust_state \<Rightarrow> trusted_peer" where
  "peer_of c key nm dt now st =
     \<lparr>tp_node_id = identity_node_id c key, tp_public_key = public_of c key, tp_device_name = nm,
      tp_device_type = dt, tp_first_paired_at = now, tp_last_seen_at = now, tp_trust_state = st\<rparr>"

text \<open>A session after both nonces are known.\<close>

definition ready_session ::
    "'x crates_scheme \<Rightarrow> identity_key \<Rightarrow> string \<Rightarrow> device_type \<Rightarrow> bytes \<Rightarrow> trusted_peer \<Rightarrow> bytes \<Rightarrow> pairing_session" where
  "ready_session c key nm dt nonce peer remote_nonce =
     \<lparr>ps_local_key = key, ps_local_name = nm, ps_local_type = dt, ps_local_nonce = nonce,
      ps_remote_peer = Some peer, ps_remote_nonce = Some remote_nonce,
      ps_sas = Some (sas_derive c (identity_node_id c key) (tp_node_id peer) nonce remote_nonce)\<rparr>"

lemma check_own_key:
  "ed25519_correct c \<Longrightarrow>
     check_peer_key c (key_to_bytes (public_of c k)) (identity_node_id c k) = Inr (public_of c k)"
  by (simp add: check_peer_key_Inr_iff key_to_bytes_def public_of_def identity_node_id_def
      key_node_id_def ed25519_correctD)

lemma responder_ready:
  assumes "ed25519_correct c"
  shows "new_responder c nr t kr nmr dr (request_of c ni t0 ki nmi di) =
    Inr (ready_session c kr nmr dr nr (peer_of c ki nmi di t Pending) ni,
         response_of c nr t kr nmr dr,
         sas_derive c (identity_node_id c kr) (identity_node_id c ki) nr ni)"
  using check_own_key [OF assms, of ki]
  by (simp add: new_responder_def request_of_def new_initiator_def ready_session_def response_of_def
      peer_of_def Let_def)

lemma initiator_ready:
  assumes "ed25519_correct c"
  shows "initiator_receive_response c t (response_of c nr t0 kr nmr dr)
      (fst (new_initiator c ni t1 ki nmi di)) =
    (Inr (sas_derive c (identity_node_id c ki) (identity_node_id c kr) ni nr),
     ready_session c ki nmi di ni (peer_of c kr nmr dr t Pending) nr)"
  using check_own_key [OF assms, of kr]
  by (simp add: initiator_receive_response_def sbind_def response_of_def new_initiator_def
      ready_session_def peer_of_def Let_def)

lemma node_bytes_inject: "node_bytes a = node_bytes b \<longleftrightarrow> a = b"
  by (cases a; cases b) simp

text \<open>Both sides hash the same commitment, whoever started.\<close>

lemma commitments_agree:
  assumes "identity_node_id c k1 \<noteq> identity_node_id c k2"
    and "tp_node_id p1 = identity_node_id c k1" "tp_node_id p2 = identity_node_id c k2"
    and "formatted_pin sas1 = formatted_pin sas2"
  shows "compute_confirmation_hash c (ready_session c k1 nm1 d1 n1 p2 n2) sas1 =
    compute_confirmation_hash c (ready_session c k2 nm2 d2 n2 p1 n1) sas2"
proof -
  have "node_bytes (identity_node_id c k1) \<noteq> node_bytes (identity_node_id c k2)"
    using assms(1) by (simp add: node_bytes_inject)
  then have "node_bytes (identity_node_id c k1) \<le> node_bytes (identity_node_id c k2) \<longleftrightarrow>
      \<not> node_bytes (identity_node_id c k2) \<le> node_bytes (identity_node_id c k1)"
    by auto
  then show ?thesis using assms(2-4)
    by (simp add: compute_confirmation_hash_def ready_session_def Let_def)
qed

lemma confirm_finalize:
  fixes c :: "'x crates_scheme" and k1 k2 nma nmb da db ta tb na nb
  assumes ed: "ed25519_correct c" and ids: "identity_node_id c k1 \<noteq> identity_node_id c k2"
  defines "p1 \<equiv> peer_of c k1 nma da ta Pending" and "p2 \<equiv> peer_of c k2 nmb db tb Pending"
  shows "\<exists>conf. confirm c (ready_session c k1 nma da na p2 nb) = Inr conf \<and>
    fst (finalize c conf (ready_session c k2 nmb db nb p1 na)) =
      Inr (peer_of c k1 nma da ta Trusted)"
proof -
  let ?s1 = "ready_session c k1 nma da na p2 nb" and ?s2 = "ready_session c k2 nmb db nb p1 na"
  let ?sas1 = "sas_derive c (identity_node_id c k1) (identity_node_id c k2) na nb"
  let ?sas2 = "sas_derive c (identity_node_id c k2) (identity_node_id c k1) nb na"
  let ?h = "compute_confirmation_hash c ?s1 ?sas1"
  have sas: "ps_sas ?s1 = Some ?sas1" "ps_sas ?s2 = Some ?sas2"
    by (simp_all add: ready_session_def p1_def p2_def peer_of_def)
  have hash: "compute_confirmation_hash c ?s2 ?sas2 = ?h"
  proof -
    have "?sas1 = ?sas2" using ids by (rule sas_derive_swap)
    then have "formatted_pin ?sas1 = formatted_pin ?sas2" by simp
    moreover have "tp_node_id p1 = identity_node_id c k1" "tp_node_id p2 = identity_node_id c k2"
      by (simp_all add: p1_def p2_def peer_of_def)
    ultimately show ?thesis using commitments_agree [OF ids] by metis
  qed
  define conf where "conf = \<lparr>pconf_node_id = identity_node_id c k1, pconf_confirmed = True,
      pconf_signature = sign c k1 ?h\<rparr>"
  have conf: "confirm c ?s1 = Inr conf"
    by (simp add: confirm_def sas Let_def conf_def) (simp add: ready_session_def)
  have len: "length (sign c k1 ?h) = 64" using ed by (simp add: sign_def ed25519_correctD)
  have "finalize c conf ?s2 = (Inr (p1\<lparr>tp_trust_state := Trusted\<rparr>),
      ?s2\<lparr>ps_remote_peer := Some (p1\<lparr>tp_trust_state := Trusted\<rparr>)\<rparr>)"
    unfolding finalize_Inr_iff
    using ed len hash sas(2)
    by (intro exI [of _ ?sas2] exI [of _ p1])
      (simp add: conf_def, simp add: p1_def peer_of_def ready_session_def)
  then show ?thesis using conf by (simp add: p1_def peer_of_def)
qed

section \<open>Properties\<close>

text \<open>The pairing ceremony is symmetric and succeeds. For two devices with different
  identities, the responder accepts the initiator's request, the initiator accepts the
  response, both derive the same short authentication string from opposite points of view,
  and each confirmation is accepted by the other side, which then holds a trusted record of
  its peer with the peer's public key.\<close>

theorem pairing_ceremony_completes:
  assumes "ed25519_correct c" "identity_node_id c ki \<noteq> identity_node_id c kr"
    "new_initiator c ni t0 ki nmi di = (s0, req)"
  shows "\<exists>sr resp sas si confi confr.
    new_responder c nr t1 kr nmr dr req = Inr (sr, resp, sas) \<and>
    initiator_receive_response c t2 resp s0 = (Inr sas, si) \<and>
    confirm c si = Inr confi \<and> confirm c sr = Inr confr \<and>
    fst (finalize c confi sr) = Inr (peer_of c ki nmi di t1 Trusted) \<and>
    fst (finalize c confr si) = Inr (peer_of c kr nmr dr t2 Trusted)"
proof -
  have s0: "s0 = fst (new_initiator c ni t0 ki nmi di)" and req: "req = request_of c ni t0 ki nmi di"
    using assms(3) by (simp_all add: request_of_def)
  have "sas_derive c (identity_node_id c kr) (identity_node_id c ki) nr ni =
      sas_derive c (identity_node_id c ki) (identity_node_id c kr) ni nr"
    by (rule sas_derive_swap [OF assms(2), symmetric])
  then show ?thesis
    using responder_ready [OF assms(1), of nr t1 kr nmr dr ni t0 ki nmi di]
      initiator_ready [OF assms(1), of t2 nr t1 kr nmr dr ni t0 ki nmi di]
      confirm_finalize [OF assms(1,2), where nma = nmi and da = di and ta = t1 and nmb = nmr and
        db = dr and tb = t2 and na = ni and nb = nr]
      confirm_finalize [OF assms(1) assms(2) [symmetric], where nma = nmr and da = dr and ta = t2 and
        nmb = nmi and db = di and tb = t1 and na = nr and nb = ni]
    unfolding s0 req by auto
qed

text \<open>What it takes to be trusted. A pairing session yields a peer only for a positive
  confirmation that names the negotiated peer and carries that peer's valid 64-byte signature
  over the commitment to the PIN and both nonces; the peer is the negotiated one with nothing
  but its trust state changed, and every refusal leaves the session as it was.\<close>

theorem finalize_requires_signature:
  "\<exists>e. finalize c conf s =
     (if pconf_confirmed conf \<and>
         (\<exists>sas remote. ps_sas s = Some sas \<and> ps_remote_peer s = Some remote \<and>
            pconf_node_id conf = tp_node_id remote \<and> length (pconf_signature conf) = 64 \<and>
            ed_verify_strict c (key_bytes (tp_public_key remote)) (compute_confirmation_hash c s sas)
              (pconf_signature conf) = Inr ())
      then let trusted = (the (ps_remote_peer s))\<lparr>tp_trust_state := Trusted\<rparr>
           in (Inr trusted, s\<lparr>ps_remote_peer := Some trusted\<rparr>)
      else (Inl e, s))"
proof (cases "finalize c conf s")
  case (Pair r t)
  then show ?thesis
  proof (cases r)
    case (Inl e)
    then have "t = s" using finalize_Inl_state Pair by blast
    moreover have "\<not> (\<exists>sas remote. pconf_confirmed conf \<and> ps_sas s = Some sas \<and>
        ps_remote_peer s = Some remote \<and> pconf_node_id conf = tp_node_id remote \<and>
        length (pconf_signature conf) = 64 \<and>
        ed_verify_strict c (key_bytes (tp_public_key remote)) (compute_confirmation_hash c s sas)
          (pconf_signature conf) = Inr ())"
      using Pair Inl finalize_Inr_iff [of c conf s] by (auto simp: verify_Inr_iff)
    ultimately show ?thesis using Pair Inl by (intro exI [of _ e]) (simp only: if_False, auto)
  next
    case (Inr p)
    then show ?thesis using Pair finalize_Inr_iff [of c conf s p t]
      by (auto simp: verify_Inr_iff Let_def)
  qed
qed

text \<open>The PIN that users compare is faithful. It is below a million, it is displayed as two
  groups of three digits, and two ceremonies show the same text exactly when their numeric
  PINs are equal.\<close>

theorem sas_pin_display:
  "unat (numeric_pin (sas_derive c a b na nb)) < 1000000 \<and>
   length (formatted_pin (sas_derive c a b na nb)) = 7 \<and>
   (formatted_pin (sas_derive c a b na nb) = formatted_pin (sas_derive c' a' b' na' nb') \<longleftrightarrow>
    numeric_pin (sas_derive c a b na nb) = numeric_pin (sas_derive c' a' b' na' nb'))"
proof -
  let ?p = "unat (numeric_pin (sas_derive c a b na nb))"
  let ?q = "unat (numeric_pin (sas_derive c' a' b' na' nb'))"
  have bounds: "?p < 1000000" "?q < 1000000" by (rule sas_pin_bound)+
  then have small: "?p div 1000 < 1000" "?q div 1000 < 1000" by auto
  have "show_pad3 (?p div 1000) @ ''-'' @ show_pad3 (?p mod 1000) =
      show_pad3 (?q div 1000) @ ''-'' @ show_pad3 (?q mod 1000) \<longleftrightarrow> ?p = ?q"
  proof
    assume "show_pad3 (?p div 1000) @ ''-'' @ show_pad3 (?p mod 1000) =
      show_pad3 (?q div 1000) @ ''-'' @ show_pad3 (?q mod 1000)"
    then have "show_pad3 (?p div 1000) = show_pad3 (?q div 1000)"
      "show_pad3 (?p mod 1000) = show_pad3 (?q mod 1000)"
      using show_pad3_length [OF small(1)] show_pad3_length [OF small(2)] by simp_all
    then have "?p div 1000 = ?q div 1000" "?p mod 1000 = ?q mod 1000"
      using small by (auto intro: show_pad3_inj)
    then show "?p = ?q" by (metis div_mult_mod_eq)
  qed simp
  then show ?thesis
    using bounds small by (simp add: sas_formatted Let_def show_pad3_length word_unat_eq_iff)
qed

theorem pairing_ceremony_completes_witness:
  "\<exists>s0 req sr resp sas si confi confr.
    new_initiator sample_crates [3] 5 (IdentityKey [1]) ''a'' Linux = (s0, req) \<and>
    new_responder sample_crates [4] 6 (IdentityKey [2]) ''b'' Android req = Inr (sr, resp, sas) \<and>
    initiator_receive_response sample_crates 7 resp s0 = (Inr sas, si) \<and>
    confirm sample_crates si = Inr confi \<and> confirm sample_crates sr = Inr confr \<and>
    fst (finalize sample_crates confi sr) = Inr (peer_of sample_crates (IdentityKey [1]) ''a'' Linux 6 Trusted)"
proof -
  obtain s0 req where init: "new_initiator sample_crates [3] 5 (IdentityKey [1]) ''a'' Linux = (s0, req)"
    by (metis surj_pair)
  have "identity_node_id sample_crates (IdentityKey [1]) \<noteq> identity_node_id sample_crates (IdentityKey [2])"
    by (simp add: identity_node_id_def key_node_id_def public_of_def sample_public_def)
  from pairing_ceremony_completes [OF sample_ed25519 this init, of "[4]" 6 "''b''" Android 7] init
  show ?thesis by blast
qed

end
