(* ===== verification/File_Transfer.thy ===== *)
theory File_Transfer
  imports Protocol File_System Sample_Instances
begin

text \<open>
  Resumable chunked file transfer, \<open>crates/bridge-transfer/src\<close>: manifests and messages
  (\<open>message.rs\<close>, \<open>manifest.rs\<close>), the sender that cuts a file into verified chunks
  (\<open>sender.rs\<close>) and the receiver that checks, places and finalises them (\<open>receiver.rs\<close>).
  An open file is the path its contents are stored at; a failing call has no effect.
\<close>

section \<open>Errors\<close>

text \<open>\<open>TransferPanic\<close> is not a \<open>TransferError\<close>: it stands for a panic of the running task.\<close>

datatype transfer_error =
    ChunkHashMismatch u32 string string
  | RootHashMismatch string string
  | ChunkOutOfBounds u32 u32
  | InvalidChunkSize u32 nat nat
  | InvalidResumeOffset u32 u32
  | TransferIo string
  | TransferProtocol string
  | Cancelled string
  | TransferBridge bridge_error
  | TransferPanic string

fun transfer_error_display :: "transfer_error \<Rightarrow> string" where
  "transfer_error_display (ChunkHashMismatch i ex ac) =
     ''Chunk '' @ show_nat (unat i) @ '' Blake3 hash mismatch: expected '' @ ex @ '', calculated '' @ ac"
| "transfer_error_display (RootHashMismatch ex ac) =
     ''Whole-file Blake3 root hash mismatch: expected '' @ ex @ '', calculated '' @ ac"
| "transfer_error_display (ChunkOutOfBounds i n) =
     ''Chunk index '' @ show_nat (unat i) @ '' out of bounds (total chunks: '' @ show_nat (unat n) @ '')''"
| "transfer_error_display (InvalidChunkSize i ex ac) =
     ''Chunk '' @ show_nat (unat i) @ '' size '' @ show_nat ac @ '' bytes is invalid (expected '' @
     show_nat ex @ '' bytes)''"
| "transfer_error_display (InvalidResumeOffset i n) =
     ''Requested resume chunk '' @ show_nat (unat i) @ '' exceeds total chunks '' @ show_nat (unat n)"
| "transfer_error_display (TransferIo e) = ''I/O error during transfer: '' @ e"
| "transfer_error_display (TransferProtocol e) = ''Transfer protocol error: '' @ e"
| "transfer_error_display (Cancelled e) = ''Transfer cancelled: '' @ e"
| "transfer_error_display (TransferBridge e) = ''Underlying bridge error: '' @ bridge_error_display e"
| "transfer_error_display (TransferPanic e) = e"

section \<open>Manifests, chunks and messages\<close>

definition CHUNK_SIZE :: nat where
  "CHUNK_SIZE = 64 * 1024"

record file_manifest =
  fm_file_id :: string
  fm_filename :: string
  fm_total_size :: u64
  fm_total_chunks :: u32
  fm_root_hash :: bytes

definition compute_file_hash :: "'x crates_scheme \<Rightarrow> bytes \<Rightarrow> bytes" where
  "compute_file_hash c b = blake3 c b"

definition calculate_total_chunks :: "u64 \<Rightarrow> u32" where
  "calculate_total_chunks total_size =
     (if total_size = 0 then 0
      else of_nat ((unat total_size + CHUNK_SIZE - 1) div CHUNK_SIZE))"

definition manifest_new :: "string \<Rightarrow> string \<Rightarrow> u64 \<Rightarrow> bytes \<Rightarrow> file_manifest" where
  "manifest_new file_id filename total_size root_hash =
     \<lparr>fm_file_id = file_id, fm_filename = filename, fm_total_size = total_size,
      fm_total_chunks = calculate_total_chunks total_size, fm_root_hash = root_hash\<rparr>"

definition expected_chunk_size :: "file_manifest \<Rightarrow> u32 \<Rightarrow> transfer_error + nat" where
  "expected_chunk_size m i =
     (if i \<ge> fm_total_chunks m then Inl (ChunkOutOfBounds i (fm_total_chunks m))
      else if i = fm_total_chunks m - 1 then
        (let remainder = unat (fm_total_size m) mod CHUNK_SIZE in
         if remainder = 0 \<and> fm_total_size m > 0 then Inr CHUNK_SIZE else Inr remainder)
      else Inr CHUNK_SIZE)"

record file_chunk =
  fc_file_id :: string
  fc_chunk_index :: u32
  fc_offset :: u64
  fc_data :: bytes
  fc_hash :: bytes

definition chunk_new :: "'x crates_scheme \<Rightarrow> string \<Rightarrow> u32 \<Rightarrow> u64 \<Rightarrow> bytes \<Rightarrow> file_chunk" where
  "chunk_new c file_id i off b =
     \<lparr>fc_file_id = file_id, fc_chunk_index = i, fc_offset = off, fc_data = b, fc_hash = blake3 c b\<rparr>"

definition verify_hash :: "'x crates_scheme \<Rightarrow> file_chunk \<Rightarrow> bool" where
  "verify_hash c ch \<longleftrightarrow> blake3 c (fc_data ch) = fc_hash ch"

datatype transfer_message =
    Offer file_manifest
  | Accept string u32
  | TransferData file_chunk
  | Ack string u32
  | Finished string bytes
  | Complete string
  | Cancel string string

definition transfer_to_bytes ::
    "transfer_message postcard \<Rightarrow> transfer_message \<Rightarrow> transfer_error + bytes" where
  "transfer_to_bytes pc m =
     map_err (\<lambda>e. TransferProtocol (''Serialization: '' @ e)) (to_allocvec pc m)"

definition transfer_from_bytes ::
    "transfer_message postcard \<Rightarrow> bytes \<Rightarrow> transfer_error + transfer_message" where
  "transfer_from_bytes pc b =
     map_err (\<lambda>e. TransferProtocol (''Deserialization: '' @ e)) (postcard.from_bytes pc b)"

definition transfer_to_data_frame ::
    "transfer_message postcard \<Rightarrow> transfer_message \<Rightarrow> transfer_error + data_frame" where
  "transfer_to_data_frame pc m =
     rbind (transfer_to_bytes pc m) (\<lambda>b. Inr (data_frame_new CHANNEL_FILE_TRANSFER b))"

definition transfer_from_data_frame ::
    "transfer_message postcard \<Rightarrow> data_frame \<Rightarrow> transfer_error + transfer_message" where
  "transfer_from_data_frame pc df =
     (if channel df \<noteq> CHANNEL_FILE_TRANSFER
      then Inl (TransferProtocol (''Invalid channel: expected '' @
        show_nat (unat CHANNEL_FILE_TRANSFER) @ '', received '' @ show_nat (unat (channel df))))
      else transfer_from_bytes pc (payload df))"

section \<open>Creating manifests\<close>

definition create_manifest_from_bytes ::
    "'x crates_scheme \<Rightarrow> string \<Rightarrow> string \<Rightarrow> bytes \<Rightarrow> file_manifest" where
  "create_manifest_from_bytes c file_id filename b =
     manifest_new file_id filename (of_nat (length b)) (compute_file_hash c b)"

text \<open>\<open>Path::file_name\<close>: the last normal component; trailing separators and \<open>.\<close> do not count.\<close>

definition split_path :: "string \<Rightarrow> string \<times> string" where
  "split_path p =
     (let q = rev (dropWhile (\<lambda>x. x = CHR ''/'') (rev p));
          base = rev (takeWhile (\<lambda>x. x \<noteq> CHR ''/'') (rev q))
      in (take (length q - length base) q, base))"

lemma split_path_shorter:
  assumes "snd (split_path p) \<noteq> []"
  shows "length (fst (split_path p)) < length p"
proof -
  define q where "q = rev (dropWhile (\<lambda>x. x = CHR ''/'') (rev p))"
  define base where "base = rev (takeWhile (\<lambda>x. x \<noteq> CHR ''/'') (rev q))"
  have sp: "split_path p = (take (length q - length base) q, base)"
    unfolding split_path_def Let_def q_def base_def by (rule refl)
  have "length q \<le> length p"
    unfolding q_def using length_dropWhile_le [of _ "rev p"] by simp
  moreover have "length base \<le> length q"
    unfolding base_def using length_takeWhile_le [of _ "rev q"] by simp
  moreover have "0 < length base" using assms sp by simp
  ultimately have "length q - length base < length p" by linarith
  then show ?thesis unfolding sp by simp
qed

function path_file_name :: "string \<Rightarrow> string option" where
  "path_file_name p =
     (if snd (split_path p) = [] \<or> snd (split_path p) = ''..'' then None
      else if snd (split_path p) = ''.'' then
        (if fst (split_path p) = [] then None else path_file_name (fst (split_path p)))
      else Some (snd (split_path p)))"
  by pat_completeness auto
termination
  by (relation "measure length") (simp_all add: split_path_shorter)

declare path_file_name.simps [simp del]

definition file_open :: "faults \<Rightarrow> string \<Rightarrow> (fs, string, bytes) comp" where
  "file_open fl p =
     sbind (fs_try fl FsOpen p) (\<lambda>_ s.
       (ok_or ''No such file or directory (os error 2)'' (files s p), s))"

definition create_manifest_from_file ::
    "'x crates_scheme \<Rightarrow> faults \<Rightarrow> string \<Rightarrow> (fs, transfer_error, file_manifest) comp" where
  "create_manifest_from_file c fl path =
     sbind (smap_err TransferIo (file_open fl path)) (\<lambda>content.
     sbind (smap_err TransferIo (fs_try fl FsMetadata path)) (\<lambda>_.
       let total_size = of_nat (length content);
           filename = (case path_file_name path of
               Some n \<Rightarrow> if utf8_valid n then n else ''unknown_file''
             | None \<Rightarrow> ''unknown_file'')
       in sbind (smap_err TransferIo (fs_try fl FsRead path)) (\<lambda>_.
            let root_hash = blake3 c content;
                file_id = hex_encode c (take 16 root_hash)
            in sreturn (manifest_new file_id filename total_size root_hash))))"

section \<open>The sender\<close>

text \<open>A source is an open file or a buffer, with its read position.\<close>

datatype sender_source = SrcFile string nat | SrcMemory bytes nat

record file_sender =
  fsnd_manifest :: file_manifest
  fsnd_source :: sender_source
  fsnd_current_chunk :: u32

definition chunk_offset :: "u32 \<Rightarrow> u64" where
  "chunk_offset i = of_nat (unat i) * of_nat CHUNK_SIZE"

definition check_resume :: "file_manifest \<Rightarrow> u32 \<Rightarrow> transfer_error + unit" where
  "check_resume m i =
     (if i > fm_total_chunks m then Inl (InvalidResumeOffset i (fm_total_chunks m)) else Inr ())"

definition sender_from_file ::
    "faults \<Rightarrow> string \<Rightarrow> file_manifest \<Rightarrow> u32 \<Rightarrow> (fs, transfer_error, file_sender) comp" where
  "sender_from_file fl path m start_chunk =
     sbind (smap_err TransferIo (file_open fl path)) (\<lambda>_.
     sbind (slift (check_resume m start_chunk)) (\<lambda>_.
     sbind (smap_err TransferIo (fs_try fl FsSeek path)) (\<lambda>_.
     sreturn \<lparr>fsnd_manifest = m, fsnd_source = SrcFile path (unat (chunk_offset start_chunk)),
              fsnd_current_chunk = start_chunk\<rparr>)))"

definition sender_from_bytes ::
    "bytes \<Rightarrow> file_manifest \<Rightarrow> u32 \<Rightarrow> transfer_error + file_sender" where
  "sender_from_bytes b m start_chunk =
     rbind (check_resume m start_chunk) (\<lambda>_.
     Inr \<lparr>fsnd_manifest = m, fsnd_source = SrcMemory b (unat (chunk_offset start_chunk)),
          fsnd_current_chunk = start_chunk\<rparr>)"

definition seek_to_chunk ::
    "faults \<Rightarrow> u32 \<Rightarrow> (file_sender \<times> fs, transfer_error, unit) comp" where
  "seek_to_chunk fl i = (\<lambda>(sd, s).
     case check_resume (fsnd_manifest sd) i of
       Inl e \<Rightarrow> (Inl e, (sd, s))
     | Inr _ \<Rightarrow>
         (case fsnd_source sd of
            SrcFile path pos \<Rightarrow>
              (case fs_try fl FsSeek path s of
                 (Inl e, s') \<Rightarrow> (Inl (TransferIo e), (sd, s'))
               | (Inr _, s') \<Rightarrow>
                   (Inr (), (sd\<lparr>fsnd_source := SrcFile path (unat (chunk_offset i)),
                                fsnd_current_chunk := i\<rparr>, s')))
          | SrcMemory b pos \<Rightarrow>
              (Inr (), (sd\<lparr>fsnd_source := SrcMemory b (unat (chunk_offset i)),
                           fsnd_current_chunk := i\<rparr>, s))))"

text \<open>\<open>read_exact\<close>: all of the bytes, or the end of the contents and an error.\<close>

definition read_exact_at :: "bytes \<Rightarrow> nat \<Rightarrow> nat \<Rightarrow> (string + bytes) \<times> nat" where
  "read_exact_at b pos n =
     (if pos + n \<le> length b then (Inr (take n (drop pos b)), pos + n)
      else (Inl ''early eof'', max pos (length b)))"

definition source_read ::
    "faults \<Rightarrow> nat \<Rightarrow> sender_source \<Rightarrow> fs \<Rightarrow> (string + bytes) \<times> sender_source" where
  "source_read fl n src s =
     (case src of
        SrcFile path pos \<Rightarrow>
          (case fl FsRead path of
             Some e \<Rightarrow> (Inl e, src)
           | None \<Rightarrow>
               (case read_exact_at (case files s path of None \<Rightarrow> [] | Some b \<Rightarrow> b) pos n of
                  (r, pos') \<Rightarrow> (r, SrcFile path pos')))
      | SrcMemory b pos \<Rightarrow>
          (case read_exact_at b pos n of (r, pos') \<Rightarrow> (r, SrcMemory b pos')))"

definition next_chunk ::
    "'x crates_scheme \<Rightarrow> faults \<Rightarrow> (file_sender \<times> fs, transfer_error, file_chunk option) comp" where
  "next_chunk c fl = (\<lambda>(sd, s).
     let m = fsnd_manifest sd; i = fsnd_current_chunk sd in
     if i \<ge> fm_total_chunks m then (Inr None, (sd, s))
     else case expected_chunk_size m i of
       Inl e \<Rightarrow> (Inl e, (sd, s))
     | Inr n \<Rightarrow>
         (case source_read fl n (fsnd_source sd) s of
            (Inl e, src') \<Rightarrow> (Inl (TransferIo e), (sd\<lparr>fsnd_source := src'\<rparr>, s))
          | (Inr buf, src') \<Rightarrow>
              (Inr (Some (chunk_new c (fm_file_id m) i (chunk_offset i) buf)),
               (sd\<lparr>fsnd_source := src', fsnd_current_chunk := i + 1\<rparr>, s))))"

definition sender_is_finished :: "file_sender \<Rightarrow> bool" where
  "sender_is_finished sd \<longleftrightarrow> fsnd_current_chunk sd \<ge> fm_total_chunks (fsnd_manifest sd)"

section \<open>The receiver\<close>

text \<open>
  A destination is a file with its final path, the path of the partial file and the path at
  which the open file is now, or a buffer. \<open>received_chunks\<close> is a \<open>BTreeSet<u32>\<close>.
\<close>

datatype destination_target = FileTarget string string string | MemoryTarget bytes

record file_receiver =
  rcv_manifest :: file_manifest
  rcv_target :: destination_target
  rcv_received :: "u32 set"

definition file_content :: "fs \<Rightarrow> string \<Rightarrow> bytes" where
  "file_content s p = (case files s p of None \<Rightarrow> [] | Some b \<Rightarrow> b)"

definition put_content :: "string \<Rightarrow> bytes \<Rightarrow> fs \<Rightarrow> fs" where
  "put_content p b s = s\<lparr>files := (files s)(p \<mapsto> b)\<rparr>"

text \<open>\<open>set_len\<close>, and writing at an offset; a gap is filled with zeros.\<close>

definition resize :: "nat \<Rightarrow> bytes \<Rightarrow> bytes" where
  "resize n b = take n b @ replicate (n - length b) 0"

definition write_at :: "bytes \<Rightarrow> nat \<Rightarrow> bytes \<Rightarrow> bytes" where
  "write_at b off d =
     (if d = [] then b
      else take off b @ replicate (off - length b) 0 @ d @ drop (off + length d) b)"

definition to_dir ::
    "faults \<Rightarrow> string \<Rightarrow> file_manifest \<Rightarrow> (fs, transfer_error, file_receiver) comp" where
  "to_dir fl dest_dir m =
     (let final_path = path_join dest_dir (fm_filename m);
          part_path = path_join dest_dir (fm_filename m @ ''.part'')
      in sbind (smap_err TransferIo (fs_try fl FsCreateDir dest_dir)) (\<lambda>_.
         sbind (smap_err TransferIo (fs_try fl FsOpen part_path)) (\<lambda>_.
         sbind (smodify (\<lambda>s. put_content part_path (file_content s part_path) s)) (\<lambda>_.
         sbind (smap_err TransferIo (fs_try fl FsMetadata part_path)) (\<lambda>_.
         sbind (sget (\<lambda>s. length (file_content s part_path))) (\<lambda>existing_len.
           if existing_len > 0 \<and> fm_total_chunks m > 0 then
             (let full_chunks = (of_nat (existing_len div CHUNK_SIZE) :: u32);
                  valid_chunks = min full_chunks (fm_total_chunks m);
                  truncated_len = unat (chunk_offset valid_chunks)
              in sbind (smap_err TransferIo (fs_try fl FsSetLen part_path)) (\<lambda>_.
                 sbind (smodify (\<lambda>s. put_content part_path
                          (resize truncated_len (file_content s part_path)) s)) (\<lambda>_.
                 sreturn \<lparr>rcv_manifest = m,
                          rcv_target = FileTarget final_path part_path part_path,
                          rcv_received = set (map of_nat [0..<unat valid_chunks])\<rparr>)))
           else
             sreturn \<lparr>rcv_manifest = m,
                      rcv_target = FileTarget final_path part_path part_path,
                      rcv_received = {}\<rparr>))))))"

text \<open>A \<open>Vec\<close> of more than \<open>isize::MAX\<close> bytes cannot be allocated: \<open>vec!\<close> panics.\<close>

definition to_memory :: "file_manifest \<Rightarrow> transfer_error + file_receiver" where
  "to_memory m =
     (if unat (fm_total_size m) \<ge> 2 ^ 63 then Inl (TransferPanic ''capacity overflow'')
      else Inr \<lparr>rcv_manifest = m,
                rcv_target = MemoryTarget (replicate (unat (fm_total_size m)) 0),
                rcv_received = {}\<rparr>)"

text \<open>The scan for the first index that was not received.\<close>

function next_free :: "u32 set \<Rightarrow> nat \<Rightarrow> nat" where
  "next_free S i = (if i < 2 ^ 32 \<and> of_nat i \<in> S then next_free S (Suc i) else i)"
  by pat_completeness auto
termination
  by (relation "measure (\<lambda>(S, i). 2 ^ 32 - i)") auto

declare next_free.simps [simp del]

definition next_expected_chunk :: "file_receiver \<Rightarrow> u32" where
  "next_expected_chunk r = min (of_nat (next_free (rcv_received r) 0)) (fm_total_chunks (rcv_manifest r))"

definition is_complete :: "file_receiver \<Rightarrow> bool" where
  "is_complete r =
     (if fm_total_chunks (rcv_manifest r) = 0 then True
      else of_nat (card (rcv_received r)) = fm_total_chunks (rcv_manifest r))"

text \<open>The checks on an incoming chunk, in the order of the code.\<close>

definition check_chunk :: "'x crates_scheme \<Rightarrow> file_manifest \<Rightarrow> file_chunk \<Rightarrow> transfer_error + unit" where
  "check_chunk c m ch =
     (if fc_file_id ch \<noteq> fm_file_id m then
        Inl (TransferProtocol (''Mismatched file_id: expected '' @ fm_file_id m @
          '', received '' @ fc_file_id ch))
      else if fc_chunk_index ch \<ge> fm_total_chunks m then
        Inl (ChunkOutOfBounds (fc_chunk_index ch) (fm_total_chunks m))
      else if \<not> verify_hash c ch then
        Inl (ChunkHashMismatch (fc_chunk_index ch) (hex_encode c (fc_hash ch))
          (hex_encode c (blake3 c (fc_data ch))))
      else rbind (expected_chunk_size m (fc_chunk_index ch)) (\<lambda>n.
        if length (fc_data ch) \<noteq> n then
          Inl (InvalidChunkSize (fc_chunk_index ch) n (length (fc_data ch)))
        else if fc_offset ch \<noteq> chunk_offset (fc_chunk_index ch) then
          Inl (TransferProtocol (''Chunk '' @ show_nat (unat (fc_chunk_index ch)) @
            '' has invalid offset '' @ show_nat (unat (fc_offset ch)) @ '' (expected '' @
            show_nat (unat (chunk_offset (fc_chunk_index ch))) @ '')''))
        else Inr ()))"

text \<open>The write; copying into a chunk_slice beyond the end of the buffer panics.\<close>

definition write_target ::
    "faults \<Rightarrow> file_chunk \<Rightarrow> destination_target \<Rightarrow> fs \<Rightarrow> (transfer_error + destination_target) \<times> fs" where
  "write_target fl ch tgt s =
     (case tgt of
        FileTarget final_path part_path h \<Rightarrow>
          sbind (smap_err TransferIo (fs_try fl FsSeek h)) (\<lambda>_.
          sbind (smap_err TransferIo (fs_try fl FsWrite h)) (\<lambda>_.
          sbind (smodify (\<lambda>s. put_content h
                   (write_at (file_content s h) (unat (fc_offset ch)) (fc_data ch)) s)) (\<lambda>_.
          sbind (smap_err TransferIo (fs_try fl FsFlush h)) (\<lambda>_.
          sreturn tgt)))) s
      | MemoryTarget b \<Rightarrow>
          (let start = unat (fc_offset ch); stop = start + length (fc_data ch) in
           if stop > length b then (Inl (TransferPanic ''range end index out of range''), s)
           else (Inr (MemoryTarget (take start b @ fc_data ch @ drop stop b)), s)))"

definition receive_chunk ::
    "'x crates_scheme \<Rightarrow> faults \<Rightarrow> file_chunk \<Rightarrow> (file_receiver \<times> fs, transfer_error, unit) comp" where
  "receive_chunk c fl ch = (\<lambda>(r, s).
     case check_chunk c (rcv_manifest r) ch of
       Inl e \<Rightarrow> (Inl e, (r, s))
     | Inr _ \<Rightarrow>
         (case write_target fl ch (rcv_target r) s of
            (Inl e, s') \<Rightarrow> (Inl e, (r, s'))
          | (Inr tgt, s') \<Rightarrow>
              (Inr (), (r\<lparr>rcv_target := tgt,
                          rcv_received := insert (fc_chunk_index ch) (rcv_received r)\<rparr>, s'))))"

definition incomplete_error :: "file_receiver \<Rightarrow> transfer_error" where
  "incomplete_error r =
     TransferProtocol (''Cannot finalize: received '' @ show_nat (card (rcv_received r)) @ '' of '' @
       show_nat (unat (fm_total_chunks (rcv_manifest r))) @ '' chunks'')"

definition rename_file :: "faults \<Rightarrow> string \<Rightarrow> string \<Rightarrow> (fs, string, unit) comp" where
  "rename_file fl src dst =
     sbind (fs_try fl FsRename src) (\<lambda>_ s.
       case files s src of
         None \<Rightarrow> (Inl ''No such file or directory (os error 2)'', s)
       | Some b \<Rightarrow> (Inr (), s\<lparr>files := ((files s)(src := None))(dst \<mapsto> b),
                             modes := ((modes s)(src := None))(dst := modes s src)\<rparr>))"

text \<open>Hashing the assembled file and moving it to its final path.\<close>

definition seal_file ::
    "'x crates_scheme \<Rightarrow> faults \<Rightarrow> file_manifest \<Rightarrow> string \<Rightarrow> string \<Rightarrow> string \<Rightarrow>
     (fs, transfer_error, unit) comp" where
  "seal_file c fl m final_path part_path h =
     sbind (smap_err TransferIo (fs_try fl FsFlush h)) (\<lambda>_.
     sbind (smap_err TransferIo (fs_try fl FsSeek h)) (\<lambda>_.
     sbind (smap_err TransferIo (fs_try fl FsRead h)) (\<lambda>_.
     sbind (sget (\<lambda>s. blake3 c (file_content s h))) (\<lambda>root.
       if root \<noteq> fm_root_hash m then
         sfail (RootHashMismatch (hex_encode c (fm_root_hash m)) (hex_encode c root))
       else smap_err TransferIo (rename_file fl part_path final_path)))))"

definition finalize_file ::
    "'x crates_scheme \<Rightarrow> faults \<Rightarrow> (file_receiver \<times> fs, transfer_error, string) comp" where
  "finalize_file c fl = (\<lambda>(r, s).
     if \<not> is_complete r then (Inl (incomplete_error r), (r, s))
     else case rcv_target r of
       MemoryTarget _ \<Rightarrow>
         (Inl (TransferProtocol ''Cannot call finalize_file on memory receiver; use finalize_memory instead''), (r, s))
     | FileTarget final_path part_path h \<Rightarrow>
         (case seal_file c fl (rcv_manifest r) final_path part_path h s of
            (Inl e, s') \<Rightarrow> (Inl e, (r, s'))
          | (Inr _, s') \<Rightarrow>
              (Inr final_path,
               (r\<lparr>rcv_target := FileTarget final_path part_path
                    (if h = part_path then final_path else h)\<rparr>, s'))))"

definition finalize_memory :: "'x crates_scheme \<Rightarrow> file_receiver \<Rightarrow> transfer_error + bytes" where
  "finalize_memory c r =
     (if \<not> is_complete r then Inl (incomplete_error r)
      else case rcv_target r of
        MemoryTarget b \<Rightarrow>
          (let root = blake3 c b in
           if root \<noteq> fm_root_hash (rcv_manifest r)
           then Inl (RootHashMismatch (hex_encode c (fm_root_hash (rcv_manifest r))) (hex_encode c root))
           else Inr b)
      | FileTarget _ _ _ \<Rightarrow>
          Inl (TransferProtocol ''Cannot call finalize_memory on file receiver; use finalize_file instead''))"

section \<open>Chunk arithmetic\<close>

lemma CHUNK_SIZE_pos [simp]: "0 < CHUNK_SIZE"
  by (simp add: CHUNK_SIZE_def)

definition nchunks :: "nat \<Rightarrow> nat" where
  "nchunks n = (n + CHUNK_SIZE - 1) div CHUNK_SIZE"

text \<open>The largest size whose number of chunks fits the \<open>u32\<close> of the manifest.\<close>

definition MAX_SIZE :: nat where
  "MAX_SIZE = (2 ^ 32 - 1) * CHUNK_SIZE"

lemma nchunks_0 [simp]: "nchunks 0 = 0"
  by (simp add: nchunks_def CHUNK_SIZE_def)

lemma less_nchunks_iff: "k < nchunks n \<longleftrightarrow> k * CHUNK_SIZE < n"
proof -
  have "k < nchunks n \<longleftrightarrow> Suc k * CHUNK_SIZE \<le> n + CHUNK_SIZE - 1"
    unfolding nchunks_def Suc_le_eq [symmetric] less_eq_div_iff_mult_less_eq [OF CHUNK_SIZE_pos]
    by (rule refl)
  also have "\<dots> \<longleftrightarrow> k * CHUNK_SIZE < n"
    unfolding mult_Suc using CHUNK_SIZE_pos by (intro iffI; linarith)
  finally show ?thesis .
qed

lemma le_nchunks:
  assumes "v * CHUNK_SIZE \<le> n"
  shows "v \<le> nchunks n"
proof -
  have "n \<le> nchunks n * CHUNK_SIZE" using less_nchunks_iff [of "nchunks n" n] by simp
  then have "v * CHUNK_SIZE \<le> nchunks n * CHUNK_SIZE" using assms by linarith
  then show ?thesis by simp
qed

lemma div_less_nchunks: "i < n \<Longrightarrow> i div CHUNK_SIZE < nchunks n"
  unfolding less_nchunks_iff
  by (meson div_times_less_eq_dividend le_less_trans)

lemma nchunks_le: "n \<le> MAX_SIZE \<Longrightarrow> nchunks n < 2 ^ 32"
  unfolding nchunks_def MAX_SIZE_def CHUNK_SIZE_def by simp

lemma unat_total_size:
  assumes "n \<le> MAX_SIZE"
  shows "unat (of_nat n :: u64) = n"
  using assms by (simp add: MAX_SIZE_def CHUNK_SIZE_def unat_of_nat)

lemma unat_total_chunks:
  assumes "n \<le> MAX_SIZE"
  shows "unat (calculate_total_chunks (of_nat n)) = nchunks n"
proof (cases "n = 0")
  case True
  then show ?thesis by (simp add: calculate_total_chunks_def)
next
  case False
  have "(of_nat n :: u64) \<noteq> 0" using False unat_total_size [OF assms] by (metis unat_0)
  then have "calculate_total_chunks (of_nat n) = of_nat (nchunks n)"
    by (simp only: calculate_total_chunks_def unat_total_size [OF assms] nchunks_def if_False)
  then show ?thesis using nchunks_le [OF assms] by (simp add: unat_of_nat)
qed

lemma unat_chunk_offset: "unat (chunk_offset i) = unat i * CHUNK_SIZE"
proof -
  have "unat i < 2 ^ 32" using unsigned_less [of i] by simp
  then have "unat i * CHUNK_SIZE < 2 ^ 64" by (simp add: CHUNK_SIZE_def)
  moreover have "chunk_offset i = (of_nat (unat i * CHUNK_SIZE) :: u64)"
    unfolding chunk_offset_def by (rule of_nat_mult [symmetric])
  ultimately show ?thesis by (simp only: unat_of_nat) simp
qed

definition chunk_slice :: "bytes \<Rightarrow> nat \<Rightarrow> bytes" where
  "chunk_slice b k = take CHUNK_SIZE (drop (k * CHUNK_SIZE) b)"

lemma length_chunk_slice: "length (chunk_slice b k) = min CHUNK_SIZE (length b - k * CHUNK_SIZE)"
  by (simp add: chunk_slice_def min.commute)

lemma last_chunk_size:
  assumes "k * CHUNK_SIZE < n" "n \<le> Suc k * CHUNK_SIZE"
  shows "n - k * CHUNK_SIZE = (if n mod CHUNK_SIZE = 0 then CHUNK_SIZE else n mod CHUNK_SIZE)"
proof -
  obtain d where d: "n = k * CHUNK_SIZE + d" "0 < d" "d \<le> CHUNK_SIZE"
    using assms less_imp_add_positive [OF assms(1)] by auto
  then show ?thesis by (cases "d = CHUNK_SIZE") auto
qed

definition manifest_for :: "'x crates_scheme \<Rightarrow> string \<Rightarrow> bytes \<Rightarrow> file_manifest \<Rightarrow> bool" where
  "manifest_for c fid b m \<longleftrightarrow>
     fm_file_id m = fid \<and> fm_total_size m = of_nat (length b) \<and>
     fm_total_chunks m = calculate_total_chunks (of_nat (length b)) \<and> fm_root_hash m = blake3 c b \<and>
     length b \<le> MAX_SIZE"

lemma expected_chunk_size_slice:
  assumes m: "manifest_for c fid b m" and k: "k < nchunks (length b)"
  shows "expected_chunk_size m (of_nat k) = Inr (length (chunk_slice b k))"
proof -
  have le: "length b \<le> MAX_SIZE" using m by (simp add: manifest_for_def)
  have n: "unat (fm_total_chunks m) = nchunks (length b)" "unat (fm_total_size m) = length b"
    using m by (simp_all add: manifest_for_def unat_total_chunks unat_total_size)
  have uk: "unat (of_nat k :: u32) = k"
    using k nchunks_le [OF le] by (simp add: unat_of_nat)
  have lt: "(of_nat k :: u32) < fm_total_chunks m" by (simp add: word_less_nat_alt uk n k)
  have last: "of_nat k = fm_total_chunks m - 1 \<longleftrightarrow> Suc k = nchunks (length b)"
  proof -
    have "unat (fm_total_chunks m - 1) = nchunks (length b) - 1"
      using k n(1) by (subst unat_minus_one) (auto simp: unat_0_iff [symmetric])
    then show ?thesis unfolding word_unat_eq_iff [of "of_nat k"] uk using k by auto
  qed
  have pos: "fm_total_size m > 0"
  proof -
    have "0 < length b" using k by (cases "length b") auto
    then show ?thesis by (simp add: word_less_nat_alt n(2))
  qed
  have kb: "k * CHUNK_SIZE < length b" using k by (simp add: less_nchunks_iff)
  show ?thesis
  proof (cases "Suc k = nchunks (length b)")
    case True
    then have up: "length b \<le> Suc k * CHUNK_SIZE"
      using less_nchunks_iff [of "Suc k" "length b"] by simp
    then have "length (chunk_slice b k) = length b - k * CHUNK_SIZE"
      by (simp add: length_chunk_slice)
    then show ?thesis
      using lt last True pos last_chunk_size [OF kb up]
      by (auto simp: expected_chunk_size_def Let_def n(2) dest: leD)
  next
    case False
    then have "Suc k < nchunks (length b)" using k by simp
    then have "Suc k * CHUNK_SIZE < length b" by (simp only: less_nchunks_iff)
    then have "length (chunk_slice b k) = CHUNK_SIZE" by (simp add: length_chunk_slice)
    then show ?thesis using lt last False by (simp add: expected_chunk_size_def)
  qed
qed

section \<open>Assembling chunks\<close>

text \<open>
  The bytes of a partial file at the positions of the chunks received so far are those of
  the file \<open>d\<close> that is being sent.
\<close>

definition agrees :: "bytes \<Rightarrow> u32 set \<Rightarrow> bytes \<Rightarrow> bool" where
  "agrees d S b \<longleftrightarrow>
     length b \<le> length d \<and>
     (\<forall>i < length d. of_nat (i div CHUNK_SIZE) \<in> S \<longrightarrow> i < length b \<and> b ! i = d ! i)"

lemma length_write_at:
  "d \<noteq> [] \<Longrightarrow> length (write_at b off d) = max (length b) (off + length d)"
  by (auto simp: write_at_def)

lemma nth_write_at:
  assumes "d \<noteq> []" "i < length (write_at b off d)"
  shows "write_at b off d ! i =
    (if off \<le> i \<and> i < off + length d then d ! (i - off) else if i < length b then b ! i else 0)"
  using assms by (auto simp: write_at_def nth_append min_def)

lemma agrees_write:
  assumes "agrees d S b" "k < nchunks (length d)" "length d \<le> MAX_SIZE"
  shows "agrees d (insert (of_nat k) S) (write_at b (k * CHUNK_SIZE) (chunk_slice d k))"
proof -
  let ?w = "write_at b (k * CHUNK_SIZE) (chunk_slice d k)"
  have kd: "k * CHUNK_SIZE < length d" using assms(2) by (simp add: less_nchunks_iff)
  have len: "k * CHUNK_SIZE + length (chunk_slice d k) \<le> length d" using kd by (simp add: length_chunk_slice)
  have ne: "chunk_slice d k \<noteq> []"
  proof -
    have "0 < length (chunk_slice d k)" using kd by (simp add: length_chunk_slice)
    then show ?thesis by simp
  qed
  have lw: "length ?w = max (length b) (k * CHUNK_SIZE + length (chunk_slice d k))"
    using ne by (rule length_write_at)
  have inside: "chunk_slice d k ! (i - k * CHUNK_SIZE) = d ! i"
    if "k * CHUNK_SIZE \<le> i" "i < k * CHUNK_SIZE + length (chunk_slice d k)" for i
    using that by (simp add: chunk_slice_def less_diff_conv2 kd less_imp_le add.commute)
  have "i < length ?w \<and> ?w ! i = d ! i"
    if i: "i < length d" "of_nat (i div CHUNK_SIZE) \<in> insert (of_nat k :: u32) S" for i
  proof (cases "i div CHUNK_SIZE = k")
    case True
    then have "k * CHUNK_SIZE \<le> i" "i < k * CHUNK_SIZE + CHUNK_SIZE"
      using div_less_iff_less_mult [of CHUNK_SIZE i "Suc k"] by (auto simp: add.commute)
    then have r: "k * CHUNK_SIZE \<le> i" "i < k * CHUNK_SIZE + length (chunk_slice d k)"
      using i(1) by (auto simp: length_chunk_slice)
    then have "i < length ?w" by (simp add: lw)
    then show ?thesis using r inside [OF r] by (simp add: nth_write_at [OF ne])
  next
    case False
    have "i div CHUNK_SIZE < 2 ^ 32" "k < 2 ^ 32"
      using div_less_nchunks [OF i(1)] assms(2) nchunks_le [OF assms(3)] by auto
    then have "(of_nat (i div CHUNK_SIZE) :: u32) \<noteq> of_nat k"
      using False by (simp add: word_unat_eq_iff unat_of_nat)
    then have old: "i < length b" "b ! i = d ! i" using i assms(1) by (auto simp: agrees_def)
    have "\<not> (k * CHUNK_SIZE \<le> i \<and> i < k * CHUNK_SIZE + length (chunk_slice d k))"
    proof
      assume "k * CHUNK_SIZE \<le> i \<and> i < k * CHUNK_SIZE + length (chunk_slice d k)"
      then have "k * CHUNK_SIZE \<le> i" "i < Suc k * CHUNK_SIZE" by (auto simp: length_chunk_slice)
      then have "i div CHUNK_SIZE = k" by (simp add: div_nat_eqI mult.commute)
      then show False using False by simp
    qed
    moreover have "i < length ?w" using old by (simp add: lw)
    ultimately show ?thesis using old nth_write_at [OF ne] by auto
  qed
  then show ?thesis using assms(1) len by (simp add: agrees_def lw)
qed

lemma agrees_all:
  assumes "agrees d S b" "\<forall>k < nchunks (length d). of_nat k \<in> S"
  shows "b = d"
proof -
  have all: "i < length b \<and> b ! i = d ! i" if "i < length d" for i
    using assms div_less_nchunks [OF that] that by (auto simp: agrees_def)
  have "length b = length d"
  proof (cases "length d")
    case (Suc n)
    then show ?thesis using all [of n] assms(1) by (auto simp: agrees_def)
  qed (use assms(1) in \<open>auto simp: agrees_def\<close>)
  then show ?thesis using all by (auto intro: nth_equalityI)
qed

text \<open>The chunk an honest sender makes of block \<open>k\<close>.\<close>

definition honest_chunk :: "'x crates_scheme \<Rightarrow> string \<Rightarrow> bytes \<Rightarrow> nat \<Rightarrow> file_chunk" where
  "honest_chunk c fid d k = chunk_new c fid (of_nat k) (chunk_offset (of_nat k)) (chunk_slice d k)"

lemma unat_small: "k < 2 ^ 32 \<Longrightarrow> unat (of_nat k :: u32) = k"
  by (simp add: unat_of_nat)

lemma check_honest_chunk:
  assumes "manifest_for c fid d m" "k < nchunks (length d)"
  shows "check_chunk c m (honest_chunk c fid d k) = Inr ()"
proof -
  have "k < 2 ^ 32" using assms nchunks_le [of "length d"] by (simp add: manifest_for_def)
  then have "\<not> fm_total_chunks m \<le> of_nat k"
    using assms by (simp add: word_le_nat_alt unat_small manifest_for_def unat_total_chunks)
  then show ?thesis
    using assms(1) expected_chunk_size_slice [OF assms]
    by (simp add: check_chunk_def honest_chunk_def chunk_new_def verify_hash_def manifest_for_def)
qed

section \<open>The interface of a chunk sink\<close>

text \<open>
  What both destinations promise: a chunk of the announced file is accepted, recorded, and
  its bytes are placed at its offset.
\<close>

primrec put_all :: "('a \<Rightarrow> ('s, 'e, unit) comp) \<Rightarrow> 'a list \<Rightarrow> ('s, 'e, unit) comp" where
  "put_all put [] = sreturn ()"
| "put_all put (x # xs) = sbind (put x) (\<lambda>_. put_all put xs)"

locale chunk_sink =
  fixes put :: "file_chunk \<Rightarrow> ('s, transfer_error, unit) comp"
    and chunk_of :: "bytes \<Rightarrow> nat \<Rightarrow> file_chunk"
    and content :: "'s \<Rightarrow> bytes"
    and got :: "'s \<Rightarrow> u32 set"
    and sink_for :: "bytes \<Rightarrow> 's \<Rightarrow> bool"
  assumes put_law: "sink_for d s \<Longrightarrow> k < nchunks (length d) \<Longrightarrow>
      \<exists>t. put (chunk_of d k) s = (Inr (), t) \<and> sink_for d t \<and>
          got t = insert (of_nat k) (got s) \<and>
          content t = write_at (content s) (k * CHUNK_SIZE) (chunk_slice d k)"
    and sink_size: "sink_for d s \<Longrightarrow> length d \<le> MAX_SIZE"
begin

lemma put_agrees:
  assumes "sink_for d s" "agrees d (got s) (content s)" "k < nchunks (length d)"
  shows "\<exists>t. put (chunk_of d k) s = (Inr (), t) \<and> sink_for d t \<and>
    got t = insert (of_nat k) (got s) \<and> agrees d (got t) (content t)"
  using put_law [OF assms(1,3)] agrees_write [OF assms(2,3) sink_size [OF assms(1)]] by auto

lemma put_all_agrees:
  assumes "sink_for d s" "agrees d (got s) (content s)" "\<forall>k \<in> set ks. k < nchunks (length d)"
  shows "\<exists>t. put_all put (map (chunk_of d) ks) s = (Inr (), t) \<and> sink_for d t \<and>
    got t = got s \<union> of_nat ` set ks \<and> agrees d (got t) (content t)"
  using assms
proof (induction ks arbitrary: s)
  case Nil
  then show ?case by simp
next
  case (Cons k ks)
  then obtain t where t: "put (chunk_of d k) s = (Inr (), t)" "sink_for d t"
    "got t = insert (of_nat k) (got s)" "agrees d (got t) (content t)"
    using put_agrees [of d s k] by auto
  with Cons.IH [of t] Cons.prems(3) show ?case by (auto simp: sbind_def)
qed

text \<open>Whatever the order and the repetitions, once every block was put the content is the file.\<close>

lemma put_all_complete:
  assumes "sink_for d s" "agrees d (got s) (content s)" "\<forall>k \<in> set ks. k < nchunks (length d)"
    "\<forall>k < nchunks (length d). of_nat k \<in> got s \<or> k \<in> set ks"
  shows "\<exists>t. put_all put (map (chunk_of d) ks) s = (Inr (), t) \<and> sink_for d t \<and>
    got t = got s \<union> of_nat ` set ks \<and> content t = d"
proof -
  obtain t where t: "put_all put (map (chunk_of d) ks) s = (Inr (), t)" "sink_for d t"
    "got t = got s \<union> of_nat ` set ks" "agrees d (got t) (content t)"
    using put_all_agrees [OF assms(1-3)] by blast
  moreover have "content t = d" using t(3,4) assms(4) by (intro agrees_all [of d "got t"]) auto
  ultimately show ?thesis by blast
qed

end

section \<open>The receiver is a chunk sink\<close>

fun sink_content :: "file_receiver \<times> fs \<Rightarrow> bytes" where
  "sink_content (r, s) =
     (case rcv_target r of FileTarget _ _ h \<Rightarrow> file_content s h | MemoryTarget b \<Rightarrow> b)"

fun sink_ready :: "'x crates_scheme \<Rightarrow> faults \<Rightarrow> string \<Rightarrow> bytes \<Rightarrow> file_receiver \<times> fs \<Rightarrow> bool" where
  "sink_ready c fl fid d (r, s) \<longleftrightarrow>
     manifest_for c fid d (rcv_manifest r) \<and>
     (case rcv_target r of
        FileTarget _ _ h \<Rightarrow> fl FsSeek h = None \<and> fl FsWrite h = None \<and> fl FsFlush h = None
      | MemoryTarget b \<Rightarrow> length b = length d)"

lemma write_at_inside:
  "d \<noteq> [] \<Longrightarrow> off + length d \<le> length b \<Longrightarrow> write_at b off d = take off b @ d @ drop (off + length d) b"
  by (simp add: write_at_def)

lemma receive_honest_chunk:
  assumes "sink_ready c fl fid d (r, s)" "k < nchunks (length d)"
  shows "\<exists>t. receive_chunk c fl (honest_chunk c fid d k) (r, s) = (Inr (), t) \<and>
    sink_ready c fl fid d t \<and> rcv_received (fst t) = insert (of_nat k) (rcv_received r) \<and>
    rcv_manifest (fst t) = rcv_manifest r \<and>
    sink_content t = write_at (sink_content (r, s)) (k * CHUNK_SIZE) (chunk_slice d k)"
proof -
  have m: "manifest_for c fid d (rcv_manifest r)" using assms(1) by simp
  have k32: "k < 2 ^ 32" using m assms(2) nchunks_le [of "length d"] by (simp add: manifest_for_def)
  have off: "unat (chunk_offset (of_nat k)) = k * CHUNK_SIZE"
    by (simp add: unat_chunk_offset unat_small [OF k32])
  have kd: "k * CHUNK_SIZE < length d" using assms(2) by (simp add: less_nchunks_iff)
  have len: "k * CHUNK_SIZE + length (chunk_slice d k) \<le> length d" "chunk_slice d k \<noteq> []"
    using kd by (auto simp: length_chunk_slice simp flip: length_greater_0_conv)
  note ok = check_honest_chunk [OF m assms(2)]
  show ?thesis
  proof (cases "rcv_target r")
    case (FileTarget fp pp h)
    then show ?thesis using assms(1) ok
      by (simp add: receive_chunk_def write_target_def sbind_def smap_err_def honest_chunk_def
          chunk_new_def off file_content_def put_content_def)
  next
    case (MemoryTarget b)
    then have "length b = length d" using assms(1) by simp
    then show ?thesis using MemoryTarget assms(1) ok len
      by (simp add: receive_chunk_def write_target_def Let_def honest_chunk_def chunk_new_def off
          write_at_inside)
  qed
qed

interpretation recv: chunk_sink "receive_chunk c fl" "honest_chunk c fid" sink_content
    "\<lambda>t. rcv_received (fst t)" "sink_ready c fl fid"
  for c :: "'x crates_scheme" and fl fid
proof unfold_locales
  fix d k and s :: "file_receiver \<times> fs"
  assume "sink_ready c fl fid d s" "k < nchunks (length d)"
  then show "\<exists>t. receive_chunk c fl (honest_chunk c fid d k) s = (Inr (), t) \<and>
      sink_ready c fl fid d t \<and> rcv_received (fst t) = insert (of_nat k) (rcv_received (fst s)) \<and>
      sink_content t = write_at (sink_content s) (k * CHUNK_SIZE) (chunk_slice d k)"
    using receive_honest_chunk [of c fl fid d "fst s" "snd s" k] by auto
next
  fix d and s :: "file_receiver \<times> fs"
  assume "sink_ready c fl fid d s"
  then show "length d \<le> MAX_SIZE" by (cases s) (simp add: manifest_for_def)
qed

section \<open>Completeness and finalisation\<close>

definition chunk_set :: "nat \<Rightarrow> u32 set" where
  "chunk_set n = of_nat ` {..<n}"

lemma of_nat_u32_inj: "j < 2 ^ 32 \<Longrightarrow> k < 2 ^ 32 \<Longrightarrow> (of_nat j :: u32) = of_nat k \<longleftrightarrow> j = k"
  by (simp add: word_unat_eq_iff unat_of_nat)

lemma card_chunk_set: "n \<le> 2 ^ 32 \<Longrightarrow> card (chunk_set n) = n"
  unfolding chunk_set_def
  by (subst card_image) (auto intro!: inj_onI simp: of_nat_u32_inj)

lemma mem_chunk_set: "j < 2 ^ 32 \<Longrightarrow> n \<le> 2 ^ 32 \<Longrightarrow> of_nat j \<in> chunk_set n \<longleftrightarrow> j < n"
  unfolding chunk_set_def by (auto simp: of_nat_u32_inj image_iff)

lemma chunk_set_Suc: "chunk_set (Suc n) = insert (of_nat n) (chunk_set n)"
  by (simp add: chunk_set_def lessThan_Suc)

lemma is_complete_all:
  assumes "manifest_for c fid d (rcv_manifest r)" "rcv_received r = chunk_set (nchunks (length d))"
  shows "is_complete r"
proof -
  have le: "length d \<le> MAX_SIZE" using assms(1) by (simp add: manifest_for_def)
  have n: "unat (fm_total_chunks (rcv_manifest r)) = nchunks (length d)"
    using assms(1) by (simp add: manifest_for_def unat_total_chunks)
  then have "of_nat (nchunks (length d)) = fm_total_chunks (rcv_manifest r)"
    by (simp flip: n)
  then show ?thesis using assms(2) nchunks_le [OF le] by (simp add: is_complete_def card_chunk_set)
qed

lemma finalize_memory_Inr_iff:
  "finalize_memory c r = Inr b \<longleftrightarrow>
     is_complete r \<and> rcv_target r = MemoryTarget b \<and> blake3 c b = fm_root_hash (rcv_manifest r)"
  by (auto simp: finalize_memory_def Let_def split: destination_target.splits)

lemma rename_file_Inr_iff:
  "rename_file fl src dst s = (Inr (), t) \<longleftrightarrow>
     fl FsRename src = None \<and>
     (\<exists>b. files s src = Some b \<and>
        t = s\<lparr>files := ((files s)(src := None))(dst \<mapsto> b),
              modes := ((modes s)(src := None))(dst := modes s src)\<rparr>)"
  by (cases "files s src") (auto simp: rename_file_def sbind_Inr_iff fs_try_Inr_iff)

lemma seal_file_Inr_iff:
  "seal_file c fl m p part h s = (Inr (), t) \<longleftrightarrow>
     fl FsFlush h = None \<and> fl FsSeek h = None \<and> fl FsRead h = None \<and>
     blake3 c (file_content s h) = fm_root_hash m \<and> rename_file fl part p s = (Inr (), t)"
proof -
  have "(if root \<noteq> fm_root_hash m then sfail e else smap_err TransferIo (rename_file fl part p)) s = (Inr (), t)
      \<longleftrightarrow> root = fm_root_hash m \<and> rename_file fl part p s = (Inr (), t)" for root e
    by (simp add: smap_err_Inr_iff)
  then show ?thesis
    by (simp add: seal_file_def sbind_Inr_iff smap_err_Inr_iff fs_try_Inr_iff)
qed

lemma finalize_file_Inr_iff:
  "finalize_file c fl (r, s) = (Inr p, (r', s')) \<longleftrightarrow>
     (\<exists>part h. is_complete r \<and> rcv_target r = FileTarget p part h \<and>
        seal_file c fl (rcv_manifest r) p part h s = (Inr (), s') \<and>
        r' = r\<lparr>rcv_target := FileTarget p part (if h = part then p else h)\<rparr>)"
  by (cases "rcv_target r") (auto simp: finalize_file_def split: prod.splits sum.splits)

section \<open>Isolation of writes\<close>

lemma receive_chunk_target:
  assumes "receive_chunk c fl ch (r, s) = (x, (r', s'))" "rcv_target r = FileTarget fp part h"
  shows "rcv_target r' = FileTarget fp part h \<and> rcv_manifest r' = rcv_manifest r \<and>
    (\<forall>p. p \<noteq> h \<longrightarrow> files s' p = files s p) \<and> (files s h \<noteq> None \<longrightarrow> files s' h \<noteq> None)"
  using assms
  by (auto simp: receive_chunk_def write_target_def sbind_def smap_err_def fs_try_def put_content_def
      split: sum.splits option.splits)

lemma receive_chunk_rejected:
  assumes "check_chunk c (rcv_manifest r) ch = Inl e"
  shows "receive_chunk c fl ch (r, s) = (Inl e, (r, s))"
  using assms by (simp add: receive_chunk_def)

lemma put_all_target:
  assumes "put_all (receive_chunk c fl) chs (r, s) = (x, (r', s'))" "rcv_target r = FileTarget fp part h"
  shows "rcv_target r' = FileTarget fp part h \<and> rcv_manifest r' = rcv_manifest r \<and>
    (\<forall>p. p \<noteq> h \<longrightarrow> files s' p = files s p) \<and> (files s h \<noteq> None \<longrightarrow> files s' h \<noteq> None)"
  using assms
proof (induction chs arbitrary: r s)
  case Nil
  then show ?case by simp
next
  case (Cons ch chs)
  obtain y r1 s1 where one: "receive_chunk c fl ch (r, s) = (y, (r1, s1))" by (metis surj_pair)
  note t = receive_chunk_target [OF one Cons.prems(2)]
  show ?case
  proof (cases y)
    case (Inl e)
    then show ?thesis using Cons.prems t one by (simp add: sbind_def)
  next
    case (Inr u)
    then have "put_all (receive_chunk c fl) chs (r1, s1) = (x, (r', s'))"
      using Cons.prems(1) one by (simp add: sbind_def)
    from Cons.IH [OF this] t show ?thesis by auto
  qed
qed

lemma put_all_memory:
  assumes "put_all (receive_chunk c fl) chs (r, s) = (x, (r', s'))" "rcv_target r = MemoryTarget b"
  shows "\<exists>b'. rcv_target r' = MemoryTarget b'"
  using assms
proof (induction chs arbitrary: r s b)
  case Nil
  then show ?case by simp
next
  case (Cons ch chs)
  obtain y r1 s1 where one: "receive_chunk c fl ch (r, s) = (y, (r1, s1))" by (metis surj_pair)
  then obtain b1 where "rcv_target r1 = MemoryTarget b1"
    using Cons.prems(2) by (auto simp: receive_chunk_def write_target_def Let_def
        split: sum.splits if_splits)
  then show ?case using Cons one by (cases y) (auto simp: sbind_def)
qed

section \<open>The sender produces the chunks of the file\<close>

fun sender_at :: "'x crates_scheme \<Rightarrow> faults \<Rightarrow> string \<Rightarrow> bytes \<Rightarrow> nat \<Rightarrow> file_sender \<times> fs \<Rightarrow> bool" where
  "sender_at c fl fid d k (sd, s) \<longleftrightarrow>
     manifest_for c fid d (fsnd_manifest sd) \<and> unat (fsnd_current_chunk sd) = k \<and>
     (case fsnd_source sd of
        SrcFile p pos \<Rightarrow> fl FsRead p = None \<and> files s p = Some d \<and>
          (k < nchunks (length d) \<longrightarrow> pos = k * CHUNK_SIZE)
      | SrcMemory b pos \<Rightarrow> b = d \<and> (k < nchunks (length d) \<longrightarrow> pos = k * CHUNK_SIZE))"

lemma read_block:
  assumes "k < nchunks (length d)"
  shows "read_exact_at d (k * CHUNK_SIZE) (length (chunk_slice d k)) =
    (Inr (chunk_slice d k), k * CHUNK_SIZE + length (chunk_slice d k))"
proof -
  have "k * CHUNK_SIZE < length d" using assms by (simp add: less_nchunks_iff)
  then have "k * CHUNK_SIZE + length (chunk_slice d k) \<le> length d" by (simp add: length_chunk_slice)
  moreover have "take (length (chunk_slice d k)) (drop (k * CHUNK_SIZE) d) = chunk_slice d k"
    by (cases "length d - k * CHUNK_SIZE \<le> CHUNK_SIZE") (simp_all add: chunk_slice_def min_def)
  ultimately show ?thesis by (simp add: read_exact_at_def)
qed

lemma slice_full:
  assumes "Suc k < nchunks (length d)"
  shows "k * CHUNK_SIZE + length (chunk_slice d k) = Suc k * CHUNK_SIZE"
proof -
  have "Suc k * CHUNK_SIZE < length d" using assms by (simp only: less_nchunks_iff)
  then show ?thesis by (simp add: length_chunk_slice)
qed

lemma next_chunk_honest:
  assumes "sender_at c fl fid d k (sd, s)" "k < nchunks (length d)"
  shows "\<exists>sd'. next_chunk c fl (sd, s) = (Inr (Some (honest_chunk c fid d k)), (sd', s)) \<and>
    sender_at c fl fid d (Suc k) (sd', s)"
proof -
  have m: "manifest_for c fid d (fsnd_manifest sd)" and i: "unat (fsnd_current_chunk sd) = k"
    using assms(1) by simp_all
  have le: "length d \<le> MAX_SIZE" and fid: "fm_file_id (fsnd_manifest sd) = fid"
    using m by (simp_all add: manifest_for_def)
  have iw: "fsnd_current_chunk sd = of_nat k" by (simp flip: i)
  have n: "unat (fm_total_chunks (fsnd_manifest sd)) = nchunks (length d)"
    using m by (simp add: manifest_for_def unat_total_chunks)
  have k32: "Suc k < 2 ^ 32" using assms(2) nchunks_le [OF le] by simp
  have lt: "\<not> fm_total_chunks (fsnd_manifest sd) \<le> of_nat k"
    using assms(2) k32 by (simp add: word_le_nat_alt n unat_small)
  have suc: "unat (of_nat k + 1 :: u32) = Suc k"
    using unat_small [OF k32] by (simp add: add.commute)
  note ex = expected_chunk_size_slice [OF m assms(2)]
  show ?thesis
  proof (cases "fsnd_source sd")
    case (SrcFile p pos)
    then show ?thesis using assms m lt ex read_block [OF assms(2)] slice_full [of k d]
      by (auto simp: next_chunk_def Let_def iw source_read_def fid honest_chunk_def suc)
  next
    case (SrcMemory b pos)
    then show ?thesis using assms m lt ex read_block [OF assms(2)] slice_full [of k d]
      by (auto simp: next_chunk_def Let_def iw source_read_def fid honest_chunk_def suc)
  qed
qed

lemma next_chunk_done:
  assumes "sender_at c fl fid d k (sd, s)" "nchunks (length d) \<le> k"
  shows "next_chunk c fl (sd, s) = (Inr None, (sd, s))"
proof -
  have m: "manifest_for c fid d (fsnd_manifest sd)" and i: "unat (fsnd_current_chunk sd) = k"
    using assms(1) by simp_all
  have "unat (fm_total_chunks (fsnd_manifest sd)) = nchunks (length d)"
    using m by (simp add: manifest_for_def unat_total_chunks)
  then show ?thesis using assms(2) i by (simp add: next_chunk_def Let_def word_le_nat_alt)
qed

section \<open>A whole transfer\<close>

text \<open>
  The loop of a transfer: the chunks of a sender, each given to the receiver, until the
  sender has none. \<open>None\<close> is running out of fuel.
\<close>

fun relay ::
    "'x crates_scheme \<Rightarrow> faults \<Rightarrow> faults \<Rightarrow> nat \<Rightarrow> file_sender \<times> fs \<Rightarrow> file_receiver \<times> fs \<Rightarrow>
     ((transfer_error + unit) \<times> file_receiver \<times> fs) option" where
  "relay c fls flr 0 sd rc = None"
| "relay c fls flr (Suc n) sd rc =
     (case next_chunk c fls sd of
        (Inl e, _) \<Rightarrow> Some (Inl e, rc)
      | (Inr None, _) \<Rightarrow> Some (Inr (), rc)
      | (Inr (Some ch), sd') \<Rightarrow>
          (case receive_chunk c flr ch rc of
             (Inl e, rc') \<Rightarrow> Some (Inl e, rc')
           | (Inr _, rc') \<Rightarrow> relay c fls flr n sd' rc'))"

lemma relay_put_all:
  assumes "sender_at c fls fid d k sd" "k \<le> nchunks (length d)" "nchunks (length d) - k < n"
    "put_all (receive_chunk c flr) (map (honest_chunk c fid d) [k..<nchunks (length d)]) rc = (Inr (), rc')"
  shows "relay c fls flr n sd rc = Some (Inr (), rc')"
  using assms
proof (induction n arbitrary: k sd rc)
  case 0
  then show ?case by simp
next
  case (Suc n)
  obtain a s where sd: "sd = (a, s)" by (cases sd)
  show ?case
  proof (cases "k < nchunks (length d)")
    case True
    then obtain a' where nx: "next_chunk c fls sd = (Inr (Some (honest_chunk c fid d k)), (a', s))"
      and at: "sender_at c fls fid d (Suc k) (a', s)"
      using next_chunk_honest Suc.prems(1) sd by blast
    have "[k..<nchunks (length d)] = k # [Suc k..<nchunks (length d)]"
      using True by (rule upt_conv_Cons)
    then obtain rc1 where rc1: "receive_chunk c flr (honest_chunk c fid d k) rc = (Inr (), rc1)"
      "put_all (receive_chunk c flr) (map (honest_chunk c fid d) [Suc k..<nchunks (length d)]) rc1
        = (Inr (), rc')"
      using Suc.prems(4) by (auto simp: sbind_Inr_iff)
    have "relay c fls flr n (a', s) rc1 = Some (Inr (), rc')"
      using Suc.IH [OF at _ _ rc1(2)] True Suc.prems(3) by simp
    then show ?thesis using nx rc1(1) by simp
  next
    case False
    then show ?thesis using Suc.prems sd next_chunk_done [of c fls fid d k a s] by simp
  qed
qed

declare relay.simps [simp del]

lemma agrees_prefix:
  assumes "v * CHUNK_SIZE \<le> length d" "length d \<le> MAX_SIZE"
  shows "agrees d (chunk_set v) (take (v * CHUNK_SIZE) d)"
proof -
  have v: "v \<le> 2 ^ 32"
  proof -
    have "v * CHUNK_SIZE \<le> (2 ^ 32 - 1) * CHUNK_SIZE" using assms by (simp only: MAX_SIZE_def)
    then show ?thesis by (simp add: CHUNK_SIZE_def)
  qed
  have "i < v * CHUNK_SIZE" if i: "i < length d" "of_nat (i div CHUNK_SIZE) \<in> chunk_set v" for i
  proof -
    have "i div CHUNK_SIZE < 2 ^ 32"
      using div_less_nchunks [OF i(1)] nchunks_le [OF assms(2)] by simp
    then have "i div CHUNK_SIZE < v" using i(2) v by (simp only: mem_chunk_set)
    then show ?thesis by (simp add: div_less_iff_less_mult)
  qed
  then show ?thesis by (auto simp: agrees_def)
qed

lemma next_free_eq:
  assumes "v < 2 ^ 32" "i \<le> v"
  shows "next_free (chunk_set v) i = v"
  using assms(2)
proof (induction "v - i" arbitrary: i)
  case 0
  then have "i = v" by simp
  moreover have "of_nat v \<notin> chunk_set v" using assms(1) mem_chunk_set [of v v] by simp
  ultimately show ?case by (simp add: next_free.simps [of _ v])
next
  case (Suc n)
  then have "i < v" by simp
  then have "of_nat i \<in> chunk_set v" by (simp add: chunk_set_def)
  moreover have "next_free (chunk_set v) (Suc i) = v" using Suc by simp
  ultimately show ?case using \<open>i < v\<close> assms(1) by (simp add: next_free.simps [of _ i])
qed

lemma put_content_simps [simp]:
  "file_content (put_content p b s) p = b"
  "put_content p b (put_content p b' s) = put_content p b s"
  "files (put_content p b s) = (files s)(p \<mapsto> b)"
  by (simp_all add: file_content_def put_content_def)

definition dir_receiver :: "string \<Rightarrow> file_manifest \<Rightarrow> u32 set \<Rightarrow> file_receiver" where
  "dir_receiver dir m S =
     (let part = path_join dir (fm_filename m @ ''.part'') in
      \<lparr>rcv_manifest = m, rcv_target = FileTarget (path_join dir (fm_filename m)) part part,
       rcv_received = S\<rparr>)"

lemma to_dir_no_faults:
  fixes dir m s
  defines "p \<equiv> path_join dir (fm_filename m @ ''.part'')"
  defines "v \<equiv> min (of_nat (length (file_content s p) div CHUNK_SIZE)) (fm_total_chunks m)"
  shows "to_dir no_faults dir m s =
    (if length (file_content s p) > 0 \<and> fm_total_chunks m > 0
     then (Inr (dir_receiver dir m (chunk_set (unat v))),
           put_content p (resize (unat v * CHUNK_SIZE) (file_content s p)) s)
     else (Inr (dir_receiver dir m {}), put_content p (file_content s p) s))"
  unfolding to_dir_def Let_def dir_receiver_def p_def [symmetric]
  by (simp add: sbind_def smap_err_def v_def [symmetric] unat_chunk_offset chunk_set_def
      lessThan_atLeast0)

text \<open>Opening the destination over a partial file that is a prefix of the file being sent.\<close>

lemma to_dir_prefix:
  assumes m: "manifest_for c fid d m" and L: "L \<le> length d"
    and part: "file_content s (path_join dir (fm_filename m @ ''.part'')) = take L d"
    and v: "v = L div CHUNK_SIZE"
  shows "\<exists>t. to_dir no_faults dir m s = (Inr (dir_receiver dir m (chunk_set v)), t) \<and>
     files t = (files s)(path_join dir (fm_filename m @ ''.part'') \<mapsto> take (v * CHUNK_SIZE) d)"
proof -
  let ?p = "path_join dir (fm_filename m @ ''.part'')"
  have le: "length d \<le> MAX_SIZE" using m by (simp add: manifest_for_def)
  have n: "unat (fm_total_chunks m) = nchunks (length d)"
    using m by (simp add: manifest_for_def unat_total_chunks)
  have vL: "v * CHUNK_SIZE \<le> L" by (simp add: v)
  have vn: "v \<le> nchunks (length d)" using vL L by (intro le_nchunks) linarith
  have v32: "v < 2 ^ 32" using vn nchunks_le [OF le] by simp
  have min: "min (of_nat v) (fm_total_chunks m) = of_nat v"
    using vn v32 n by (simp add: min_def word_le_nat_alt unat_small)
  show ?thesis
  proof (cases "L = 0 \<or> d = []")
    case True
    then have "file_content s ?p = []" "v = 0" using v L part by auto
    then show ?thesis by (simp add: to_dir_no_faults chunk_set_def)
  next
    case False
    then have pos: "0 < L" "0 < fm_total_chunks m"
      using n div_less_nchunks [of 0 "length d"] by (auto simp: word_less_nat_alt)
    have "length (take L d) = L" using L by simp
    moreover have "resize (v * CHUNK_SIZE) (take L d) = take (v * CHUNK_SIZE) d"
      using vL L by (simp add: resize_def min_absorb1)
    ultimately show ?thesis
      using pos part by (simp add: to_dir_no_faults v [symmetric] min unat_small [OF v32])
  qed
qed

lemma sender_from_file_at:
  assumes "manifest_for c fid d m" "files s src = Some d" "v \<le> nchunks (length d)"
  shows "\<exists>sd. sender_from_file no_faults src m (of_nat v) s = (Inr sd, s) \<and>
    sender_at c no_faults fid d v (sd, s)"
proof -
  have le: "length d \<le> MAX_SIZE" using assms(1) by (simp add: manifest_for_def)
  have v32: "v < 2 ^ 32" using assms(3) nchunks_le [OF le] by simp
  have "unat (fm_total_chunks m) = nchunks (length d)"
    using assms(1) by (simp add: manifest_for_def unat_total_chunks)
  then have "\<not> fm_total_chunks m < of_nat v"
    using assms(3) by (simp add: word_less_nat_alt unat_small [OF v32])
  then show ?thesis using assms(1,2)
    by (simp add: sender_from_file_def file_open_def check_resume_def sbind_def smap_err_def
        unat_chunk_offset unat_small [OF v32])
qed

lemma receive_complete:
  assumes v: "v \<le> nchunks (length d)"
    and rc: "sink_ready c flr fid d rc" "rcv_received (fst rc) = chunk_set v"
    and ag: "agrees d (chunk_set v) (sink_content rc)"
  shows "\<exists>rc'. put_all (receive_chunk c flr) (map (honest_chunk c fid d) [v..<nchunks (length d)]) rc = (Inr (), rc') \<and>
    sink_ready c flr fid d rc' \<and> rcv_received (fst rc') = chunk_set (nchunks (length d)) \<and>
    sink_content rc' = d"
proof -
  have cover: "\<forall>k < nchunks (length d). of_nat k \<in> rcv_received (fst rc) \<or> k \<in> set [v..<nchunks (length d)]"
    unfolding rc(2) by (auto simp: chunk_set_def not_less)
  obtain rc' where rc': "put_all (receive_chunk c flr)
        (map (honest_chunk c fid d) [v..<nchunks (length d)]) rc = (Inr (), rc')"
      "sink_ready c flr fid d rc'" "sink_content rc' = d"
      "rcv_received (fst rc') = rcv_received (fst rc) \<union> of_nat ` set [v..<nchunks (length d)]"
    using recv.put_all_complete [OF rc(1) _ _ cover] ag rc(2) by auto
  have "chunk_set v \<union> of_nat ` {v..<nchunks (length d)} = chunk_set (nchunks (length d))"
    unfolding chunk_set_def using v by (simp flip: image_Un add: ivl_disj_un)
  then show ?thesis using rc' rc(2) by (intro exI [of _ rc']) simp
qed

lemma finalize_received:
  assumes "sink_ready c no_faults fid d (r, s)" "rcv_received r = chunk_set (nchunks (length d))"
    "sink_content (r, s) = d" "rcv_target r = FileTarget fp part part" "files s part \<noteq> None"
  shows "\<exists>r' s'. finalize_file c no_faults (r, s) = (Inr fp, (r', s')) \<and> files s' fp = Some d \<and>
    (part \<noteq> fp \<longrightarrow> files s' part = None) \<and> (\<forall>p. p \<noteq> fp \<and> p \<noteq> part \<longrightarrow> files s' p = files s p)"
proof -
  have m: "manifest_for c fid d (rcv_manifest r)" using assms(1) by simp
  have "files s part = Some d" using assms(3-5) by (auto simp: file_content_def)
  moreover have "is_complete r" using is_complete_all [OF m assms(2)] .
  moreover have "blake3 c d = fm_root_hash (rcv_manifest r)" using m by (simp add: manifest_for_def)
  ultimately show ?thesis using assms(4)
    by (simp add: finalize_file_Inr_iff seal_file_Inr_iff rename_file_Inr_iff file_content_def)
qed

text \<open>A receiver that resumes over a prefix, given the remaining chunks, ends with the file.\<close>

lemma resumed_receiver:
  assumes mf: "manifest_for c fid d m" and L: "L \<le> length d" and fnm: "fm_filename m = fn"
    and part: "file_content s (path_join dir (fn @ ''.part'')) = take L d" and v: "v = L div CHUNK_SIZE"
  shows "v \<le> nchunks (length d) \<and>
    (\<exists>r t r' t' r'' t''. to_dir no_faults dir m s = (Inr r, t) \<and> next_expected_chunk r = of_nat v \<and>
      put_all (receive_chunk c no_faults) (map (honest_chunk c fid d) [v..<nchunks (length d)]) (r, t) = (Inr (), (r', t')) \<and>
      finalize_file c no_faults (r', t') = (Inr (path_join dir fn), (r'', t'')) \<and>
      files t'' (path_join dir fn) = Some d \<and>
      (\<forall>p. p \<noteq> path_join dir fn \<and> p \<noteq> path_join dir (fn @ ''.part'') \<longrightarrow> files t'' p = files s p))"
proof -
  let ?fp = "path_join dir fn" and ?pp = "path_join dir (fn @ ''.part'')"
  let ?r = "dir_receiver dir m (chunk_set v)"
  have size: "length d \<le> MAX_SIZE" using mf by (simp add: manifest_for_def)
  obtain t where t: "to_dir no_faults dir m s = (Inr ?r, t)"
      "files t = (files s)(?pp \<mapsto> take (v * CHUNK_SIZE) d)"
    using to_dir_prefix [OF mf L _ v, of s dir] part fnm by auto
  have vL: "v * CHUNK_SIZE \<le> length d"
    unfolding v using L div_times_less_eq_dividend [of L CHUNK_SIZE] by linarith
  have vn: "v \<le> nchunks (length d)" using vL by (rule le_nchunks)
  have v32: "v < 2 ^ 32" using vn nchunks_le [OF size] by simp
  have tgt: "rcv_target ?r = FileTarget ?fp ?pp ?pp" "rcv_manifest ?r = m" "rcv_received ?r = chunk_set v"
    by (simp_all add: dir_receiver_def Let_def fnm)
  have next_v: "next_expected_chunk ?r = of_nat v"
    using vn mf by (simp add: next_expected_chunk_def tgt next_free_eq [OF v32] min_def
        word_le_nat_alt unat_small [OF v32] manifest_for_def unat_total_chunks)
  have ready: "sink_ready c no_faults fid d (?r, t)" using mf tgt by simp
  have cont: "sink_content (?r, t) = take (v * CHUNK_SIZE) d" by (simp add: tgt t file_content_def)
  obtain r' t' where rc': "put_all (receive_chunk c no_faults) (map (honest_chunk c fid d) [v..<nchunks (length d)]) (?r, t) = (Inr (), (r', t'))"
      "sink_ready c no_faults fid d (r', t')" "rcv_received r' = chunk_set (nchunks (length d))"
      "sink_content (r', t') = d"
    using receive_complete [OF vn ready] agrees_prefix [OF vL size] cont tgt(3) by auto
  have keep: "rcv_target r' = FileTarget ?fp ?pp ?pp" "\<forall>p. p \<noteq> ?pp \<longrightarrow> files t' p = files t p"
      "files t' ?pp \<noteq> None"
    using put_all_target [OF rc'(1) tgt(1)] t(2) by auto
  obtain r'' t'' where fin: "finalize_file c no_faults (r', t') = (Inr ?fp, (r'', t''))"
      "files t'' ?fp = Some d" "\<forall>p. p \<noteq> ?fp \<and> p \<noteq> ?pp \<longrightarrow> files t'' p = files t' p"
    using finalize_received [OF rc'(2-4) keep(1,3)] by blast
  have others: "\<forall>p. p \<noteq> ?fp \<and> p \<noteq> ?pp \<longrightarrow> files t'' p = files s p"
    using fin(3) keep(2) t(2) by simp
  have "?r = ?r \<and> to_dir no_faults dir m s = (Inr ?r, t)" using t(1) by simp
  with vn next_v rc'(1) fin(1,2) others show ?thesis by blast
qed

text \<open>C10: resuming an interrupted transfer yields exactly the file. If the partial file on the
  receiver's disk is some prefix of the file being sent (of any length, also in the middle
  of a chunk, also empty or absent), then opening the destination, starting the sender at
  the chunk the receiver asks for, relaying the chunks until the sender has none, and
  finalising succeeds, the final path holds the whole file, no other file changes, and the
  chunks already on disk are not sent again.\<close>

theorem resumed_transfer_complete:
  assumes size: "length d \<le> MAX_SIZE" and L: "L \<le> length d"
    and src: "files s1 src = Some d"
    and part: "file_content s2 (path_join dir (fn @ ''.part'')) = take L d"
    and m: "m = create_manifest_from_bytes c fid fn d"
  shows "\<exists>r t sd r' t' r'' t''.
    to_dir no_faults dir m s2 = (Inr r, t) \<and>
    next_expected_chunk r = of_nat (L div CHUNK_SIZE) \<and>
    sender_from_file no_faults src m (next_expected_chunk r) s1 = (Inr sd, s1) \<and>
    relay c no_faults no_faults (Suc (nchunks (length d))) (sd, s1) (r, t) = Some (Inr (), r', t') \<and>
    finalize_file c no_faults (r', t') = (Inr (path_join dir fn), r'', t'') \<and>
    files t'' (path_join dir fn) = Some d \<and>
    (\<forall>p. p \<noteq> path_join dir fn \<and> p \<noteq> path_join dir (fn @ ''.part'') \<longrightarrow> files t'' p = files s2 p)"
proof -
  define v where "v = L div CHUNK_SIZE"
  let ?fp = "path_join dir fn" and ?pp = "path_join dir (fn @ ''.part'')"
  have mf: "manifest_for c fid d m" and fnm: "fm_filename m = fn"
    using size by (simp_all add: m manifest_for_def create_manifest_from_bytes_def manifest_new_def
        compute_file_hash_def)
  obtain r t r' t' r'' t'' where vn: "v \<le> nchunks (length d)" and
      rc: "to_dir no_faults dir m s2 = (Inr r, t)" "next_expected_chunk r = of_nat v"
        "put_all (receive_chunk c no_faults) (map (honest_chunk c fid d) [v..<nchunks (length d)]) (r, t) = (Inr (), (r', t'))"
        "finalize_file c no_faults (r', t') = (Inr ?fp, (r'', t''))" "files t'' ?fp = Some d" and
      others: "\<forall>p. p \<noteq> ?fp \<and> p \<noteq> ?pp \<longrightarrow> files t'' p = files s2 p"
    using resumed_receiver [OF mf L fnm part v_def] by blast
  obtain sd where sd: "sender_from_file no_faults src m (of_nat v) s1 = (Inr sd, s1)"
      "sender_at c no_faults fid d v (sd, s1)"
    using sender_from_file_at [OF mf src vn] by blast
  have relay: "relay c no_faults no_faults (Suc (nchunks (length d))) (sd, s1) (r, t) = Some (Inr (), r', t')"
    by (rule relay_put_all [OF sd(2) vn _ rc(3)]) simp
  show ?thesis
    unfolding v_def [symmetric]
    by (rule exI [of _ r], rule exI [of _ t], rule exI [of _ sd], rule exI [of _ r'],
        rule exI [of _ t'], rule exI [of _ r''], rule exI [of _ t''])
      (simp only: rc(1,2,4,5) sd(1) relay simp_thms, rule others)
qed

theorem resumed_transfer_complete_witness:
  "\<exists>r t sd r' t' r'' t''.
    to_dir no_faults ''in'' (create_manifest_from_bytes sample_crates ''id'' ''f'' [1, 2, 3])
      \<lparr>files = [''in/f.part'' \<mapsto> [1, 2]], modes = Map.empty\<rparr> = (Inr r, t) \<and>
    next_expected_chunk r = of_nat (2 div CHUNK_SIZE) \<and>
    sender_from_file no_faults ''f'' (create_manifest_from_bytes sample_crates ''id'' ''f'' [1, 2, 3])
      (next_expected_chunk r) \<lparr>files = [''f'' \<mapsto> [1, 2, 3]], modes = Map.empty\<rparr>
      = (Inr sd, \<lparr>files = [''f'' \<mapsto> [1, 2, 3]], modes = Map.empty\<rparr>) \<and>
    relay sample_crates no_faults no_faults (Suc (nchunks (length [1, 2, 3 :: u8])))
      (sd, \<lparr>files = [''f'' \<mapsto> [1, 2, 3]], modes = Map.empty\<rparr>) (r, t) = Some (Inr (), r', t') \<and>
    finalize_file sample_crates no_faults (r', t') = (Inr (path_join ''in'' ''f''), r'', t'') \<and>
    files t'' (path_join ''in'' ''f'') = Some [1, 2, 3] \<and>
    (\<forall>p. p \<noteq> path_join ''in'' ''f'' \<and> p \<noteq> path_join ''in'' (''f'' @ ''.part'') \<longrightarrow>
       files t'' p = files \<lparr>files = [''in/f.part'' \<mapsto> [1, 2]], modes = Map.empty\<rparr> p)"
  by (rule resumed_transfer_complete)
    (simp_all add: MAX_SIZE_def CHUNK_SIZE_def path_join_def file_content_def)

text \<open>C18: chunks may arrive in any order and repeatedly. A receiver in memory that got every
  chunk of a file at least once, and only chunks of it, is complete and returns the file.\<close>

theorem chunks_in_any_order:
  assumes "length d \<le> MAX_SIZE" "set ks = {..<nchunks (length d)}"
  shows "\<exists>r r' s'. to_memory (create_manifest_from_bytes c fid fn d) = Inr r \<and>
    put_all (receive_chunk c fl) (map (honest_chunk c fid d) ks) (r, s) = (Inr (), (r', s')) \<and>
    finalize_memory c r' = Inr d"
proof -
  let ?m = "create_manifest_from_bytes c fid fn d"
  define r where "r = \<lparr>rcv_manifest = ?m, rcv_target = MemoryTarget (replicate (length d) 0), rcv_received = {}\<rparr>"
  have mf: "manifest_for c fid d ?m"
    using assms(1) by (simp add: manifest_for_def create_manifest_from_bytes_def manifest_new_def
        compute_file_hash_def)
  have "unat (fm_total_size ?m) = length d"
    using mf by (simp add: manifest_for_def unat_total_size)
  moreover have "length d < 2 ^ 63" using assms(1) by (simp add: MAX_SIZE_def CHUNK_SIZE_def)
  ultimately have mem: "to_memory ?m = Inr r" by (simp add: to_memory_def r_def)
  have ready: "sink_ready c fl fid d (r, s)" using mf by (simp add: r_def)
  have "agrees d (rcv_received (fst (r, s))) (sink_content (r, s))" by (simp add: agrees_def r_def)
  then obtain r' s' where rc': "put_all (receive_chunk c fl) (map (honest_chunk c fid d) ks) (r, s) = (Inr (), (r', s'))"
      "sink_ready c fl fid d (r', s')" "rcv_received r' = of_nat ` set ks" "sink_content (r', s') = d"
    using recv.put_all_complete [OF ready, of ks] assms(2) by (auto simp: r_def)
  have m': "manifest_for c fid d (rcv_manifest r')" using rc'(2) by simp
  have "is_complete r'"
    using is_complete_all [OF m'] rc'(3) assms(2) by (simp add: chunk_set_def)
  moreover have "rcv_target r' = MemoryTarget d"
    using put_all_memory [OF rc'(1)] rc'(4) by (auto simp: r_def split: destination_target.splits)
  ultimately have "finalize_memory c r' = Inr d"
    using m' by (simp add: finalize_memory_Inr_iff manifest_for_def)
  then show ?thesis using mem rc'(1) by blast
qed

theorem chunks_in_any_order_witness:
  "\<exists>r r' s'. to_memory (create_manifest_from_bytes sample_crates ''id'' ''f'' [7, 8]) = Inr r \<and>
    put_all (receive_chunk sample_crates no_faults) (map (honest_chunk sample_crates ''id'' [7, 8]) [0, 0])
      (r, \<lparr>files = Map.empty, modes = Map.empty\<rparr>) = (Inr (), (r', s')) \<and>
    finalize_memory sample_crates r' = Inr [7, 8]"
  by (rule chunks_in_any_order)
    (simp_all add: MAX_SIZE_def CHUNK_SIZE_def nchunks_def lessThan_Suc)



text \<open>A finalised file has the announced hash. When \<open>finalize_file\<close> succeeds, every chunk
  was counted, the file at the returned path is the assembled partial file, its BLAKE3 hash is
  the root hash of the manifest, and the partial file is gone.\<close>

theorem finalize_file_verified:
  assumes "rcv_target r = FileTarget fp part part" "finalize_file c fl (r, s) = (Inr p, (r', s'))"
  shows "p = fp \<and> is_complete r \<and> files s' fp = files s part \<and>
    (\<exists>b. files s' fp = Some b \<and> blake3 c b = fm_root_hash (rcv_manifest r)) \<and>
    (part \<noteq> fp \<longrightarrow> files s' part = None)"
  using assms
  by (auto simp: finalize_file_Inr_iff seal_file_Inr_iff rename_file_Inr_iff file_content_def)

theorem finalize_file_verified_witness:
  "\<exists>r' s'. finalize_file sample_crates no_faults
      (dir_receiver ''in'' (manifest_new ''id'' ''f'' 1 (sample_digest [5])) {0},
       \<lparr>files = [''in/f.part'' \<mapsto> [5]], modes = Map.empty\<rparr>) = (Inr ''in/f'', (r', s')) \<and>
    files s' ''in/f'' = Some [5] \<and> files s' ''in/f.part'' = None"
proof -
  let ?r = "dir_receiver ''in'' (manifest_new ''id'' ''f'' 1 (sample_digest [5])) {0}"
  let ?s = "\<lparr>files = [''in/f.part'' \<mapsto> [5]], modes = Map.empty\<rparr>"
  have tgt: "rcv_target ?r = FileTarget ''in/f'' ''in/f.part'' ''in/f.part''"
    by (simp add: dir_receiver_def Let_def manifest_new_def path_join_def)
  have "is_complete ?r"
    by (simp add: is_complete_def dir_receiver_def Let_def manifest_new_def
        calculate_total_chunks_def CHUNK_SIZE_def)
  moreover have "fm_root_hash (rcv_manifest ?r) = sample_digest [5]"
    by (simp add: dir_receiver_def Let_def manifest_new_def)
  ultimately obtain r' s' where "finalize_file sample_crates no_faults (?r, ?s) = (Inr ''in/f'', (r', s'))"
    using tgt by (auto simp: finalize_file_Inr_iff seal_file_Inr_iff rename_file_Inr_iff file_content_def)
  with finalize_file_verified [OF tgt this] show ?thesis by auto
qed

end
