(* ===== verification/Clipboard.thy ===== *)
theory Clipboard
  imports Protocol Sample_Instances
begin

text \<open>
  Clipboard synchronisation, \<open>crates/bridge-clipboard/src\<close>: payloads and messages
  (\<open>types.rs\<close>), the policy (\<open>policy.rs\<close>), echo suppression (\<open>guard.rs\<close>), the engine
  (\<open>engine.rs\<close>) and the in-memory backend (\<open>backend/memory.rs\<close>). A backend is a record of
  operations on a state of its own; the events an engine broadcasts are collected in a list.
\<close>

section \<open>Errors\<close>

datatype clipboard_error =
    Serialization string
  | Deserialization string
  | OversizedPayload nat nat
  | HashMismatch string string
  | UnsupportedFormat string
  | SensitiveContentBlocked
  | StaleSequence u64 u64
  | BackendError string
  | ChannelMismatch u16 u16
  | ClipCore bridge_error

fun clipboard_error_display :: "clipboard_error \<Rightarrow> string" where
  "clipboard_error_display (Serialization e) = ''Serialization error: '' @ e"
| "clipboard_error_display (Deserialization e) = ''Deserialization error: '' @ e"
| "clipboard_error_display (OversizedPayload n mx) =
     ''Payload exceeds maximum permitted size: '' @ show_nat n @ '' bytes (max: '' @ show_nat mx @ '' bytes)''"
| "clipboard_error_display (HashMismatch ex ac) =
     ''Content integrity mismatch: expected Blake3 '' @ ex @ '', calculated '' @ ac"
| "clipboard_error_display (UnsupportedFormat e) = ''Unsupported or disabled clipboard format: '' @ e"
| "clipboard_error_display SensitiveContentBlocked = ''Sensitive content blocked by privacy policy''"
| "clipboard_error_display (StaleSequence cur rec) =
     ''Stale or duplicate sequence number: received '' @ show_nat (unat rec) @ '', current '' @ show_nat (unat cur)"
| "clipboard_error_display (BackendError e) = ''Clipboard backend failure: '' @ e"
| "clipboard_error_display (ChannelMismatch ex ac) =
     ''Channel mismatch: expected channel '' @ show_nat (unat ex) @ '', got '' @ show_nat (unat ac)"
| "clipboard_error_display (ClipCore e) = ''Core error: '' @ bridge_error_display e"

section \<open>Payloads and messages\<close>

datatype image_format = Png | Jpeg | Bmp | Webp

fun mime_type :: "image_format \<Rightarrow> string" where
  "mime_type Png = ''image/png''"
| "mime_type Jpeg = ''image/jpeg''"
| "mime_type Bmp = ''image/bmp''"
| "mime_type Webp = ''image/webp''"

fun image_format_debug :: "image_format \<Rightarrow> string" where
  "image_format_debug Png = ''Png''"
| "image_format_debug Jpeg = ''Jpeg''"
| "image_format_debug Bmp = ''Bmp''"
| "image_format_debug Webp = ''Webp''"

fun image_format_code :: "image_format \<Rightarrow> u8" where
  "image_format_code Png = 0"
| "image_format_code Jpeg = 1"
| "image_format_code Bmp = 2"
| "image_format_code Webp = 3"

datatype clipboard_format = FmtText | FmtHtml | FmtRtf | FmtImage image_format

datatype clipboard_content =
    Text string
  | Html string "string option"
  | Image image_format bytes u32 u32

fun format_of :: "clipboard_content \<Rightarrow> clipboard_format" where
  "format_of (Text _) = FmtText"
| "format_of (Html _ _) = FmtHtml"
| "format_of (Image f _ _ _) = FmtImage f"

fun byte_len :: "clipboard_content \<Rightarrow> nat" where
  "byte_len (Text s) = length s"
| "byte_len (Html html plain) = length html + (case plain of None \<Rightarrow> 0 | Some p \<Rightarrow> length p)"
| "byte_len (Image _ b _ _) = length b"

definition content_is_empty :: "clipboard_content \<Rightarrow> bool" where
  "content_is_empty ct \<longleftrightarrow> byte_len ct = 0"

fun hash_input :: "clipboard_content \<Rightarrow> bytes" where
  "hash_input (Text s) = str_bytes ''TXT:'' @ str_bytes s"
| "hash_input (Html html plain) =
     str_bytes ''HTM:'' @ str_bytes html @
     (case plain of None \<Rightarrow> [] | Some p \<Rightarrow> str_bytes ''|PLN:'' @ str_bytes p)"
| "hash_input (Image f b w h) =
     str_bytes ''IMG:'' @ [image_format_code f] @ le_bytes 4 (unat w) @ le_bytes 4 (unat h) @ b"

definition compute_hash :: "'x crates_scheme \<Rightarrow> clipboard_content \<Rightarrow> bytes" where
  "compute_hash c ct = blake3 c (hash_input ct)"

record clipboard_metadata =
  cm_origin :: node_id
  cm_sequence :: u64
  cm_timestamp_ms :: u64
  cm_content_hash :: bytes
  cm_format :: clipboard_format
  cm_byte_size :: nat
  cm_is_sensitive :: bool

record clipboard_entry =
  ce_metadata :: clipboard_metadata
  ce_content :: clipboard_content

definition entry_new ::
    "'x crates_scheme \<Rightarrow> u64 \<Rightarrow> node_id \<Rightarrow> u64 \<Rightarrow> clipboard_content \<Rightarrow> bool \<Rightarrow> clipboard_entry" where
  "entry_new c now_ms origin sequence ct sensitive =
     \<lparr>ce_metadata =
        \<lparr>cm_origin = origin, cm_sequence = sequence, cm_timestamp_ms = now_ms,
         cm_content_hash = compute_hash c ct, cm_format = format_of ct,
         cm_byte_size = byte_len ct, cm_is_sensitive = sensitive\<rparr>,
      ce_content = ct\<rparr>"

definition validate_integrity :: "'x crates_scheme \<Rightarrow> clipboard_entry \<Rightarrow> clipboard_error + unit" where
  "validate_integrity c e =
     (let actual_hash = compute_hash c (ce_content e);
          actual_size = byte_len (ce_content e)
      in if actual_hash \<noteq> cm_content_hash (ce_metadata e) then
           Inl (HashMismatch (hex_encode c (cm_content_hash (ce_metadata e))) (hex_encode c actual_hash))
         else if actual_size \<noteq> cm_byte_size (ce_metadata e) then
           Inl (HashMismatch (''size:'' @ show_nat (cm_byte_size (ce_metadata e)))
                  (''size:'' @ show_nat actual_size))
         else Inr ())"

datatype clipboard_message =
    Sync clipboard_entry
  | Clear node_id u64 u64
  | ClipAck node_id u64 bytes

definition clip_to_data_frame ::
    "clipboard_message postcard \<Rightarrow> clipboard_message \<Rightarrow> clipboard_error + data_frame" where
  "clip_to_data_frame pc m =
     rbind (map_err Serialization (to_allocvec pc m)) (\<lambda>b.
     Inr (data_frame_new CHANNEL_CLIPBOARD b))"

definition clip_from_data_frame ::
    "clipboard_message postcard \<Rightarrow> data_frame \<Rightarrow> clipboard_error + clipboard_message" where
  "clip_from_data_frame pc df =
     (if channel df \<noteq> CHANNEL_CLIPBOARD then Inl (ChannelMismatch CHANNEL_CLIPBOARD (channel df))
      else map_err Deserialization (postcard.from_bytes pc (payload df)))"

section \<open>The policy\<close>

record clipboard_policy =
  max_text_bytes :: nat
  max_image_bytes :: nat
  allow_images :: bool
  allow_html :: bool
  filter_sensitive :: bool
  enabled :: bool

definition default_clipboard_policy :: clipboard_policy where
  "default_clipboard_policy =
     \<lparr>max_text_bytes = 2 * 1024 * 1024, max_image_bytes = 10 * 1024 * 1024, allow_images = True,
      allow_html = True, filter_sensitive = True, enabled = True\<rparr>"

definition policy_validate :: "clipboard_policy \<Rightarrow> clipboard_content \<Rightarrow> bool \<Rightarrow> clipboard_error + unit" where
  "policy_validate p ct sensitive =
     (if \<not> enabled p then Inl (BackendError ''Clipboard synchronization is disabled'')
      else if sensitive \<and> filter_sensitive p then Inl SensitiveContentBlocked
      else case ct of
        Text text \<Rightarrow>
          if length text > max_text_bytes p then Inl (OversizedPayload (length text) (max_text_bytes p))
          else Inr ()
      | Html html plain \<Rightarrow>
          if \<not> allow_html p then Inl (UnsupportedFormat ''HTML format disabled by policy'')
          else (let total = length html + (case plain of None \<Rightarrow> 0 | Some s \<Rightarrow> length s) in
                if total > max_text_bytes p then Inl (OversizedPayload total (max_text_bytes p))
                else Inr ())
      | Image f b _ _ \<Rightarrow>
          if \<not> allow_images p then
            Inl (UnsupportedFormat (''Image format ('' @ image_format_debug f @ '') disabled by policy''))
          else if length b > max_image_bytes p then Inl (OversizedPayload (length b) (max_image_bytes p))
          else Inr ())"

fun is_format_allowed :: "clipboard_policy \<Rightarrow> clipboard_format \<Rightarrow> bool" where
  "is_format_allowed p FmtText = True"
| "is_format_allowed p FmtRtf = True"
| "is_format_allowed p FmtHtml = allow_html p"
| "is_format_allowed p (FmtImage _) = allow_images p"

section \<open>The echo guard\<close>

record echo_guard =
  eg_capacity :: nat
  eg_history :: "bytes list"
  eg_seen :: "bytes set"
  eg_sequences :: "node_id \<rightharpoonup> u64"

definition DEFAULT_CAPACITY :: nat where
  "DEFAULT_CAPACITY = 256"

definition guard_new :: "nat \<Rightarrow> echo_guard" where
  "guard_new capacity =
     \<lparr>eg_capacity = (if capacity = 0 then DEFAULT_CAPACITY else capacity),
      eg_history = [], eg_seen = {}, eg_sequences = Map.empty\<rparr>"

definition should_suppress :: "echo_guard \<Rightarrow> bytes \<Rightarrow> bool" where
  "should_suppress g h \<longleftrightarrow> h \<in> eg_seen g"

definition push_hash :: "bytes \<Rightarrow> echo_guard \<Rightarrow> echo_guard" where
  "push_hash h g =
     (if h \<in> eg_seen g then g
      else let g1 = (if length (eg_history g) \<ge> eg_capacity g then
                       (case eg_history g of
                          [] \<Rightarrow> g
                        | oldest # rest \<Rightarrow> g\<lparr>eg_history := rest, eg_seen := eg_seen g - {oldest}\<rparr>)
                     else g)
           in g1\<lparr>eg_history := eg_history g1 @ [h], eg_seen := insert h (eg_seen g1)\<rparr>)"

definition record_sent :: "bytes \<Rightarrow> echo_guard \<Rightarrow> echo_guard" where
  "record_sent h g = push_hash h g"

definition record_received :: "node_id \<Rightarrow> u64 \<Rightarrow> bytes \<Rightarrow> echo_guard \<Rightarrow> bool \<times> echo_guard" where
  "record_received origin sequence h g =
     (if should_suppress g h then (False, g)
      else if (case eg_sequences g origin of Some last_seq \<Rightarrow> sequence \<le> last_seq | None \<Rightarrow> False)
      then (False, g)
      else (True, push_hash h (g\<lparr>eg_sequences := (eg_sequences g)(origin \<mapsto> sequence)\<rparr>)))"

definition last_sequence :: "echo_guard \<Rightarrow> node_id \<Rightarrow> u64 option" where
  "last_sequence g origin = eg_sequences g origin"

definition guard_clear :: "echo_guard \<Rightarrow> echo_guard" where
  "guard_clear g = g\<lparr>eg_history := [], eg_seen := {}, eg_sequences := Map.empty\<rparr>"

section \<open>Backends\<close>

text \<open>The trait \<open>ClipboardBackend\<close>: the operations of a backend with state \<open>'b\<close>.\<close>

record 'b clipboard_backend =
  cb_get_content :: "('b, clipboard_error, clipboard_content option) comp"
  cb_set_content :: "clipboard_content \<Rightarrow> ('b, clipboard_error, unit) comp"
  cb_clear :: "('b, clipboard_error, unit) comp"

text \<open>The in-memory backend; \<open>mb_notified\<close> are the contents sent to its subscribers.\<close>

record memory_backend =
  mb_content :: "clipboard_content option"
  mb_notified :: "clipboard_content list"

definition memory_backend_new :: memory_backend where
  "memory_backend_new = \<lparr>mb_content = None, mb_notified = []\<rparr>"

definition with_initial_content :: "clipboard_content \<Rightarrow> memory_backend" where
  "with_initial_content ct = memory_backend_new\<lparr>mb_content := Some ct\<rparr>"

definition memory_get_content :: "(memory_backend, clipboard_error, clipboard_content option) comp" where
  "memory_get_content = sget mb_content"

definition memory_set_content :: "clipboard_content \<Rightarrow> (memory_backend, clipboard_error, unit) comp" where
  "memory_set_content ct =
     sbind (smodify (\<lambda>b. b\<lparr>mb_content := Some ct\<rparr>)) (\<lambda>_.
     smodify (\<lambda>b. b\<lparr>mb_notified := mb_notified b @ [ct]\<rparr>))"

definition memory_clear :: "(memory_backend, clipboard_error, unit) comp" where
  "memory_clear = smodify (\<lambda>b. b\<lparr>mb_content := None\<rparr>)"

definition memory_clipboard :: "memory_backend clipboard_backend" where
  "memory_clipboard =
     \<lparr>cb_get_content = memory_get_content, cb_set_content = memory_set_content,
      cb_clear = memory_clear\<rparr>"

section \<open>The engine\<close>

datatype clipboard_sync_event =
    LocalCopied bytes clipboard_format nat
  | OutgoingBroadcastReady clipboard_message data_frame
  | RemoteApplied node_id u64 bytes clipboard_format
  | EchoSuppressed bytes string
  | Rejected string

record 'b clipboard_engine =
  en_local_node_id :: node_id
  en_sequence :: u64
  en_backend :: 'b
  en_guard :: echo_guard
  en_policy :: clipboard_policy
  en_events :: "clipboard_sync_event list"

definition engine_new :: "node_id \<Rightarrow> 'b \<Rightarrow> clipboard_policy \<Rightarrow> 'b clipboard_engine" where
  "engine_new n b p =
     \<lparr>en_local_node_id = n, en_sequence = 1, en_backend = b,
      en_guard = guard_new DEFAULT_CAPACITY, en_policy = p, en_events = []\<rparr>"

definition emit :: "clipboard_sync_event \<Rightarrow> 'b clipboard_engine \<Rightarrow> 'b clipboard_engine" where
  "emit ev e = e\<lparr>en_events := en_events e @ [ev]\<rparr>"

text \<open>A call of the backend from within the engine.\<close>

definition on_backend :: "('b, clipboard_error, 'a) comp \<Rightarrow> ('b clipboard_engine, clipboard_error, 'a) comp" where
  "on_backend m e = (case m (en_backend e) of (r, b) \<Rightarrow> (r, e\<lparr>en_backend := b\<rparr>))"

definition handle_local_change ::
    "'x crates_scheme \<Rightarrow> clipboard_message postcard \<Rightarrow> u64 \<Rightarrow> clipboard_content \<Rightarrow> bool \<Rightarrow>
     ('b clipboard_engine, clipboard_error, data_frame option) comp" where
  "handle_local_change c pc now_ms ct sensitive = (\<lambda>e.
     case policy_validate (en_policy e) ct sensitive of
       Inl err \<Rightarrow> (Inl err, emit (Rejected (clipboard_error_display err)) e)
     | Inr _ \<Rightarrow>
         let h = compute_hash c ct in
         if should_suppress (en_guard e) h then
           (Inr None, emit (EchoSuppressed h ''Local change matches recent known hash'') e)
         else
           let seq = en_sequence e;
               e1 = e\<lparr>en_sequence := seq + 1, en_guard := record_sent h (en_guard e)\<rparr>;
               message = Sync (entry_new c now_ms (en_local_node_id e) seq ct sensitive)
           in case clip_to_data_frame pc message of
                Inl err \<Rightarrow> (Inl err, e1)
              | Inr fr \<Rightarrow>
                  (Inr (Some fr),
                   emit (OutgoingBroadcastReady message fr)
                     (emit (LocalCopied h (format_of ct) (byte_len ct)) e1)))"

definition handle_sync ::
    "'x crates_scheme \<Rightarrow> 'b clipboard_backend \<Rightarrow> clipboard_entry \<Rightarrow>
     ('b clipboard_engine, clipboard_error, clipboard_sync_event option) comp" where
  "handle_sync c bk entry = (\<lambda>e.
     let md = ce_metadata entry in
     if cm_origin md = en_local_node_id e then (Inr None, e)
     else case validate_integrity c entry of
       Inl err \<Rightarrow> (Inl err, emit (Rejected (clipboard_error_display err)) e)
     | Inr _ \<Rightarrow>
         (case policy_validate (en_policy e) (ce_content entry) (cm_is_sensitive md) of
            Inl err \<Rightarrow> (Inl err, emit (Rejected (clipboard_error_display err)) e)
          | Inr _ \<Rightarrow>
              (case record_received (cm_origin md) (cm_sequence md) (cm_content_hash md) (en_guard e) of
                 (False, g) \<Rightarrow>
                   let ev = EchoSuppressed (cm_content_hash md)
                              ''Incoming entry already seen or has stale sequence''
                   in (Inr (Some ev), emit ev (e\<lparr>en_guard := g\<rparr>))
               | (True, g) \<Rightarrow>
                   (case on_backend (cb_set_content bk (ce_content entry)) (e\<lparr>en_guard := g\<rparr>) of
                      (Inl err, e') \<Rightarrow> (Inl err, e')
                    | (Inr _, e') \<Rightarrow>
                        let ev = RemoteApplied (cm_origin md) (cm_sequence md) (cm_content_hash md)
                                   (cm_format md)
                        in (Inr (Some ev), emit ev e')))))"

definition handle_clear ::
    "'b clipboard_backend \<Rightarrow> node_id \<Rightarrow> u64 \<Rightarrow>
     ('b clipboard_engine, clipboard_error, clipboard_sync_event option) comp" where
  "handle_clear bk origin sequence = (\<lambda>e.
     if origin = en_local_node_id e then (Inr None, e)
     else case record_received origin sequence (replicate 32 0) (en_guard e) of
       (False, g) \<Rightarrow> (Inr None, e\<lparr>en_guard := g\<rparr>)
     | (True, g) \<Rightarrow>
         (case on_backend (cb_clear bk) (e\<lparr>en_guard := g\<rparr>) of
            (Inl err, e') \<Rightarrow> (Inl err, e')
          | (Inr _, e') \<Rightarrow> (Inr None, e')))"

definition handle_incoming_frame ::
    "'x crates_scheme \<Rightarrow> clipboard_message postcard \<Rightarrow> 'b clipboard_backend \<Rightarrow> data_frame \<Rightarrow>
     ('b clipboard_engine, clipboard_error, clipboard_sync_event option) comp" where
  "handle_incoming_frame c pc bk fr =
     sbind (slift (clip_from_data_frame pc fr)) (\<lambda>message.
       case message of
         Sync entry \<Rightarrow> handle_sync c bk entry
       | Clear origin sequence _ \<Rightarrow> handle_clear bk origin sequence
       | ClipAck _ _ _ \<Rightarrow> sreturn None)"

text \<open>
  The monitor task: it forwards what the backend's broadcast channel delivers until the
  first receive error, which is a closed channel or a lag of the receiver.
\<close>

datatype recv_result = Delivered clipboard_content | Lagged nat | ChannelClosed

fun monitor_loop ::
    "'x crates_scheme \<Rightarrow> clipboard_message postcard \<Rightarrow> (u64 \<times> recv_result) list \<Rightarrow>
     'b clipboard_engine \<Rightarrow> 'b clipboard_engine" where
  "monitor_loop c pc [] e = e"
| "monitor_loop c pc ((now_ms, Delivered ct) # rs) e =
     monitor_loop c pc rs (snd (handle_local_change c pc now_ms ct False e))"
| "monitor_loop c pc ((_, Lagged _) # rs) e = e"
| "monitor_loop c pc ((_, ChannelClosed) # rs) e = e"

section \<open>Lemmas on the echo guard\<close>

definition guard_inv :: "echo_guard \<Rightarrow> bool" where
  "guard_inv g \<longleftrightarrow>
     0 < eg_capacity g \<and> eg_seen g = set (eg_history g) \<and> distinct (eg_history g) \<and>
     length (eg_history g) \<le> eg_capacity g"

lemma guard_new_inv [simp]: "guard_inv (guard_new n)"
  by (simp add: guard_inv_def guard_new_def DEFAULT_CAPACITY_def)

lemma push_hash_history:
  assumes "guard_inv g"
  shows "eg_history (push_hash h g) =
    (if h \<in> set (eg_history g) then eg_history g
     else if length (eg_history g) < eg_capacity g then eg_history g @ [h]
     else tl (eg_history g) @ [h])"
  using assms by (cases "eg_history g") (auto simp: push_hash_def guard_inv_def Let_def)

lemma push_hash_inv:
  assumes "guard_inv g"
  shows "guard_inv (push_hash h g)"
  using assms by (cases "eg_history g") (auto simp: push_hash_def guard_inv_def Let_def)

lemma push_hash_fields [simp]:
  "eg_capacity (push_hash h g) = eg_capacity g"
  "eg_sequences (push_hash h g) = eg_sequences g"
  by (simp_all add: push_hash_def Let_def split: list.split)

lemma push_hash_seen [simp]: "h \<in> eg_seen (push_hash h g)"
  by (simp add: push_hash_def Let_def)

lemma guard_inv_sequences [simp]: "guard_inv (g\<lparr>eg_sequences := m\<rparr>) = guard_inv g"
  by (simp add: guard_inv_def)

lemma record_received_inv:
  "guard_inv g \<Longrightarrow> guard_inv (snd (record_received n q h g))"
  by (simp add: record_received_def push_hash_inv)

lemma record_received_True_iff:
  "record_received n q h g = (True, g') \<longleftrightarrow>
     h \<notin> eg_seen g \<and> (\<forall>l. eg_sequences g n = Some l \<longrightarrow> l < q) \<and>
     g' = push_hash h (g\<lparr>eg_sequences := (eg_sequences g)(n \<mapsto> q)\<rparr>)"
  by (auto simp: record_received_def should_suppress_def not_le split: option.splits)

lemma record_received_False_iff:
  "record_received n q h g = (False, g') \<longleftrightarrow>
     g' = g \<and> (h \<in> eg_seen g \<or> (\<exists>l. eg_sequences g n = Some l \<and> q \<le> l))"
  by (auto simp: record_received_def should_suppress_def split: option.splits)

text \<open>
  A hash stays known while fewer hashes than the capacity are recorded after it: \<open>recent h k g\<close>
  says that at most \<open>k\<close> entries of the history are younger.
\<close>

definition recent :: "bytes \<Rightarrow> nat \<Rightarrow> echo_guard \<Rightarrow> bool" where
  "recent h k g \<longleftrightarrow> (\<exists>pre post. eg_history g = pre @ h # post \<and> length post \<le> k)"

lemma recentI: "eg_history g = pre @ h # post \<Longrightarrow> length post \<le> k \<Longrightarrow> recent h k g"
  unfolding recent_def by blast

lemma recent_seen: "guard_inv g \<Longrightarrow> recent h k g \<Longrightarrow> h \<in> eg_seen g"
  unfolding recent_def guard_inv_def by (metis in_set_conv_decomp)

lemma recent_push_new:
  assumes "guard_inv g" "h \<notin> eg_seen g"
  shows "recent h 0 (push_hash h g)"
proof (rule recentI)
  show "eg_history (push_hash h g) =
      (if length (eg_history g) < eg_capacity g then eg_history g else tl (eg_history g)) @ h # []"
    using assms push_hash_history [OF assms(1), of h] by (simp add: guard_inv_def)
qed simp

lemma recent_push:
  assumes "guard_inv g" "recent h k g" "Suc k < eg_capacity g"
  shows "recent h (Suc k) (push_hash h' g)"
proof -
  obtain pre post where hist: "eg_history g = pre @ h # post" "length post \<le> k"
    using assms(2) by (auto simp: recent_def)
  consider "h' \<in> set (eg_history g)"
    | "h' \<notin> set (eg_history g)" "length (eg_history g) < eg_capacity g"
    | "h' \<notin> set (eg_history g)" "\<not> length (eg_history g) < eg_capacity g" by blast
  then show ?thesis
  proof cases
    case 1
    then have "eg_history (push_hash h' g) = pre @ h # post"
      using hist push_hash_history [OF assms(1), of h'] by simp
    then show ?thesis using hist(2) by (intro recentI) auto
  next
    case 2
    then have "eg_history (push_hash h' g) = pre @ h # (post @ [h'])"
      using hist push_hash_history [OF assms(1), of h'] by simp
    then show ?thesis using hist(2) by (intro recentI) auto
  next
    case 3
    then have "pre \<noteq> []" using hist assms(3) by auto
    then have "eg_history (push_hash h' g) = tl pre @ h # (post @ [h'])"
      using 3 hist push_hash_history [OF assms(1), of h'] by (cases pre) auto
    then show ?thesis using hist(2) by (intro recentI) auto
  qed
qed

lemma recent_push_all:
  assumes "guard_inv g" "recent h k g" "k + length hs < eg_capacity g"
  shows "recent h (k + length hs) (fold push_hash hs g)"
  using assms
proof (induction hs arbitrary: g k)
  case Nil
  then show ?case by simp
next
  case (Cons x hs)
  have "recent h (Suc k) (push_hash x g)" using Cons.prems by (intro recent_push) auto
  then show ?case
    using Cons.IH [of "push_hash x g" "Suc k"] Cons.prems push_hash_inv by simp
qed

section \<open>Lemmas on the engine\<close>

lemma emit_fields [simp]:
  "en_local_node_id (emit ev e) = en_local_node_id e"
  "en_sequence (emit ev e) = en_sequence e"
  "en_backend (emit ev e) = en_backend e"
  "en_guard (emit ev e) = en_guard e"
  "en_policy (emit ev e) = en_policy e"
  "en_events (emit ev e) = en_events e @ [ev]"
  by (simp_all add: emit_def)

lemma on_backend_fields:
  assumes "on_backend m e = (r, e')"
  shows "en_local_node_id e' = en_local_node_id e \<and> en_sequence e' = en_sequence e \<and>
    en_guard e' = en_guard e \<and> en_policy e' = en_policy e \<and> en_events e' = en_events e \<and>
    m (en_backend e) = (r, en_backend e')"
  using assms by (auto simp: on_backend_def split: prod.splits)

lemma validate_integrity_Inr_iff:
  "validate_integrity c e = Inr () \<longleftrightarrow>
     compute_hash c (ce_content e) = cm_content_hash (ce_metadata e) \<and>
     byte_len (ce_content e) = cm_byte_size (ce_metadata e)"
  by (simp add: validate_integrity_def Let_def)

lemma entry_new_valid [simp]: "validate_integrity c (entry_new c now n q ct sens) = Inr ()"
  by (simp add: validate_integrity_Inr_iff entry_new_def)

lemma policy_validate_Inr_iff:
  "policy_validate p ct sens = Inr () \<longleftrightarrow>
     enabled p \<and> \<not> (sens \<and> filter_sensitive p) \<and> is_format_allowed p (format_of ct) \<and>
     byte_len ct \<le> (case ct of Image _ _ _ _ \<Rightarrow> max_image_bytes p | _ \<Rightarrow> max_text_bytes p)"
  by (cases ct) (auto simp: policy_validate_def Let_def)

lemma clip_roundtrip:
  assumes "postcard_roundtrip pc" "clip_to_data_frame pc m = Inr fr"
  shows "clip_from_data_frame pc fr = Inr m"
  using assms postcard_roundtripD [OF assms(1)]
  by (auto simp: clip_to_data_frame_def clip_from_data_frame_def rbind_Inr_iff data_frame_new_def)

text \<open>What a synchronisation message does: nothing beyond an event, or all checks passed.\<close>

fun applied_seqs :: "node_id \<Rightarrow> clipboard_sync_event list \<Rightarrow> u64 list" where
  "applied_seqs n [] = []"
| "applied_seqs n (RemoteApplied m q h f # evs) = (if m = n then [q] else []) @ applied_seqs n evs"
| "applied_seqs n (_ # evs) = applied_seqs n evs"

lemma applied_seqs_append [simp]:
  "applied_seqs n (xs @ ys) = applied_seqs n xs @ applied_seqs n ys"
  by (induction n xs rule: applied_seqs.induct) auto

definition sync_accepted :: "'x crates_scheme \<Rightarrow> 'b clipboard_engine \<Rightarrow> clipboard_entry \<Rightarrow> bool" where
  "sync_accepted c e entry \<longleftrightarrow>
     (let md = ce_metadata entry in
      cm_origin md \<noteq> en_local_node_id e \<and> validate_integrity c entry = Inr () \<and>
      policy_validate (en_policy e) (ce_content entry) (cm_is_sensitive md) = Inr () \<and>
      cm_content_hash md \<notin> eg_seen (en_guard e) \<and>
      (\<forall>l. eg_sequences (en_guard e) (cm_origin md) = Some l \<longrightarrow> l < cm_sequence md))"

definition received_guard :: "clipboard_entry \<Rightarrow> echo_guard \<Rightarrow> echo_guard" where
  "received_guard entry g =
     (let md = ce_metadata entry in
      push_hash (cm_content_hash md)
        (g\<lparr>eg_sequences := (eg_sequences g)(cm_origin md \<mapsto> cm_sequence md)\<rparr>))"

lemma sync_record_received:
  assumes "sync_accepted c e entry"
  shows "record_received (cm_origin (ce_metadata entry)) (cm_sequence (ce_metadata entry))
    (cm_content_hash (ce_metadata entry)) (en_guard e) = (True, received_guard entry (en_guard e))"
  using assms by (simp add: record_received_True_iff sync_accepted_def received_guard_def Let_def)

lemma handle_sync_accepted:
  assumes "sync_accepted c e entry"
    "cb_set_content bk (ce_content entry) (en_backend e) = (r, b)"
  shows "handle_sync c bk entry e =
    (let e1 = e\<lparr>en_guard := received_guard entry (en_guard e), en_backend := b\<rparr>;
         md = ce_metadata entry;
         ev = RemoteApplied (cm_origin md) (cm_sequence md) (cm_content_hash md) (cm_format md)
     in case r of Inl err \<Rightarrow> (Inl err, e1) | Inr _ \<Rightarrow> (Inr (Some ev), emit ev e1))"
  using assms sync_record_received [OF assms(1)]
  by (auto simp: handle_sync_def sync_accepted_def Let_def on_backend_def split: sum.split)

lemma handle_sync_refused:
  assumes "\<not> sync_accepted c e entry"
  shows "\<exists>r evs. handle_sync c bk entry e = (r, e\<lparr>en_events := en_events e @ evs\<rparr>) \<and>
    (\<forall>n. applied_seqs n evs = [])"
proof -
  let ?md = "ce_metadata entry"
  consider "cm_origin ?md = en_local_node_id e"
    | err where "cm_origin ?md \<noteq> en_local_node_id e" "validate_integrity c entry = Inl err"
    | err where "cm_origin ?md \<noteq> en_local_node_id e" "validate_integrity c entry = Inr ()"
        "policy_validate (en_policy e) (ce_content entry) (cm_is_sensitive ?md) = Inl err"
    | "cm_origin ?md \<noteq> en_local_node_id e" "validate_integrity c entry = Inr ()"
        "policy_validate (en_policy e) (ce_content entry) (cm_is_sensitive ?md) = Inr ()"
        "record_received (cm_origin ?md) (cm_sequence ?md) (cm_content_hash ?md) (en_guard e)
           = (False, en_guard e)"
    using assms
    by (cases "validate_integrity c entry";
        cases "policy_validate (en_policy e) (ce_content entry) (cm_is_sensitive ?md)")
      (auto simp: sync_accepted_def Let_def record_received_False_iff not_less)
  then show ?thesis
  proof cases
    case 1
    then show ?thesis
      by (intro exI [of _ "Inr None"] exI [of _ "[]"]) (simp add: handle_sync_def Let_def)
  next
    case (2 err)
    then have "handle_sync c bk entry e =
        (Inl err, e\<lparr>en_events := en_events e @ [Rejected (clipboard_error_display err)]\<rparr>)"
      by (simp add: handle_sync_def Let_def emit_def)
    then show ?thesis by (intro exI conjI) auto
  next
    case (3 err)
    then have "handle_sync c bk entry e =
        (Inl err, e\<lparr>en_events := en_events e @ [Rejected (clipboard_error_display err)]\<rparr>)"
      by (simp add: handle_sync_def Let_def emit_def)
    then show ?thesis by (intro exI conjI) auto
  next
    case 4
    then obtain ev where "handle_sync c bk entry e = (Inr (Some ev), e\<lparr>en_events := en_events e @ [ev]\<rparr>)"
      "\<forall>n. applied_seqs n [ev] = []"
      by (simp add: handle_sync_def Let_def emit_def)
    then show ?thesis by (intro exI conjI) auto
  qed
qed

lemma handle_local_change_shape:
  "\<exists>evs g q. snd (handle_local_change c pc now ct sens e) =
      e\<lparr>en_sequence := q, en_guard := g, en_events := en_events e @ evs\<rparr> \<and>
    (g = en_guard e \<or> g = push_hash (compute_hash c ct) (en_guard e)) \<and> (\<forall>n. applied_seqs n evs = [])"
proof -
  let ?h = "compute_hash c ct"
  let ?msg = "Sync (entry_new c now (en_local_node_id e) (en_sequence e) ct sens)"
  consider err where "policy_validate (en_policy e) ct sens = Inl err"
    | "policy_validate (en_policy e) ct sens = Inr ()" "should_suppress (en_guard e) ?h"
    | err where "policy_validate (en_policy e) ct sens = Inr ()" "\<not> should_suppress (en_guard e) ?h"
        "clip_to_data_frame pc ?msg = Inl err"
    | fr where "policy_validate (en_policy e) ct sens = Inr ()" "\<not> should_suppress (en_guard e) ?h"
        "clip_to_data_frame pc ?msg = Inr fr"
    by (cases "policy_validate (en_policy e) ct sens"; cases "clip_to_data_frame pc ?msg") auto
  then show ?thesis
  proof cases
    case (1 err)
    then show ?thesis
      by (intro exI [of _ "[Rejected (clipboard_error_display err)]"] exI [of _ "en_guard e"]
          exI [of _ "en_sequence e"]) (simp add: handle_local_change_def emit_def)
  next
    case 2
    then show ?thesis
      by (intro exI [of _ "[EchoSuppressed ?h ''Local change matches recent known hash'']"]
          exI [of _ "en_guard e"] exI [of _ "en_sequence e"])
        (simp add: handle_local_change_def emit_def Let_def)
  next
    case 3
    then show ?thesis
      by (intro exI [of _ "[]"] exI [of _ "push_hash ?h (en_guard e)"] exI [of _ "en_sequence e + 1"])
        (simp add: handle_local_change_def Let_def record_sent_def)
  next
    case (4 fr)
    then show ?thesis
      by (intro exI [of _ "[LocalCopied ?h (format_of ct) (byte_len ct), OutgoingBroadcastReady ?msg fr]"]
          exI [of _ "push_hash ?h (en_guard e)"] exI [of _ "en_sequence e + 1"])
        (simp add: handle_local_change_def emit_def Let_def record_sent_def)
  qed
qed

lemma handle_clear_cases:
  assumes "handle_clear bk origin q e = (r, e')"
  shows "e' = e \<or>
    (origin \<noteq> en_local_node_id e \<and> replicate 32 0 \<notin> eg_seen (en_guard e) \<and>
     (\<forall>l. eg_sequences (en_guard e) origin = Some l \<longrightarrow> l < q) \<and>
     (\<exists>x b. cb_clear bk (en_backend e) = (x, b) \<and>
        e' = e\<lparr>en_guard := push_hash (replicate 32 0)
                 ((en_guard e)\<lparr>eg_sequences := (eg_sequences (en_guard e))(origin \<mapsto> q)\<rparr>),
               en_backend := b\<rparr>))"
proof (cases "origin = en_local_node_id e")
  case True
  then show ?thesis using assms by (simp add: handle_clear_def)
next
  case False
  obtain ok g where rec: "record_received origin q (replicate 32 0) (en_guard e) = (ok, g)"
    by (cases "record_received origin q (replicate 32 0) (en_guard e)")
  show ?thesis
  proof (cases ok)
    case True
    then have g: "replicate 32 0 \<notin> eg_seen (en_guard e)"
      "\<forall>l. eg_sequences (en_guard e) origin = Some l \<longrightarrow> l < q"
      "g = push_hash (replicate 32 0) ((en_guard e)\<lparr>eg_sequences := (eg_sequences (en_guard e))(origin \<mapsto> q)\<rparr>)"
      using rec by (simp_all add: record_received_True_iff)
    obtain x b where clr: "cb_clear bk (en_backend e) = (x, b)" by (cases "cb_clear bk (en_backend e)")
    have "e' = e\<lparr>en_guard := g, en_backend := b\<rparr>"
      using assms False rec True clr
      by (auto simp: handle_clear_def on_backend_def split: sum.splits)
    then show ?thesis using g False clr by blast
  next
    case no: False
    then have "g = en_guard e" using rec by (simp add: record_received_False_iff)
    then have "e' = e" using assms False rec no by (simp add: handle_clear_def)
    then show ?thesis by simp
  qed
qed

section \<open>Runs of an engine\<close>

text \<open>The two entry points of an engine, and the state after a sequence of calls.\<close>

datatype clip_call = LocalChange u64 clipboard_content bool | IncomingFrame data_frame

fun clip_step ::
    "'x crates_scheme \<Rightarrow> clipboard_message postcard \<Rightarrow> 'b clipboard_backend \<Rightarrow> clip_call \<Rightarrow>
     'b clipboard_engine \<Rightarrow> 'b clipboard_engine" where
  "clip_step c pc bk (LocalChange now ct sens) e = snd (handle_local_change c pc now ct sens e)"
| "clip_step c pc bk (IncomingFrame fr) e = snd (handle_incoming_frame c pc bk fr e)"

definition clip_run ::
    "'x crates_scheme \<Rightarrow> clipboard_message postcard \<Rightarrow> 'b clipboard_backend \<Rightarrow> clip_call list \<Rightarrow>
     'b clipboard_engine \<Rightarrow> 'b clipboard_engine" where
  "clip_run c pc bk calls e = fold (clip_step c pc bk) calls e"

definition engine_inv :: "'b clipboard_engine \<Rightarrow> bool" where
  "engine_inv e \<longleftrightarrow>
     guard_inv (en_guard e) \<and>
     (\<forall>n. sorted_wrt (<) (applied_seqs n (en_events e)) \<and>
          (\<forall>q \<in> set (applied_seqs n (en_events e)).
             \<exists>l. eg_sequences (en_guard e) n = Some l \<and> q \<le> l))"

lemma engine_inv_new: "engine_inv (engine_new n b p)"
  by (simp add: engine_inv_def engine_new_def)

lemma engine_inv_keep:
  assumes "engine_inv e" "guard_inv (en_guard e')" "eg_sequences (en_guard e') = eg_sequences (en_guard e)"
    "en_events e' = en_events e @ evs" "\<And>n. applied_seqs n evs = []"
  shows "engine_inv e'"
  using assms by (simp add: engine_inv_def)

lemma engine_inv_bump:
  assumes "engine_inv e" "guard_inv (en_guard e')"
    "eg_sequences (en_guard e') = (eg_sequences (en_guard e))(m \<mapsto> q)"
    "\<forall>l. eg_sequences (en_guard e) m = Some l \<longrightarrow> l < q"
    "en_events e' = en_events e @ evs" "\<And>n. applied_seqs n evs = (if n = m then qs else [])"
    "qs = [] \<or> qs = [q]"
  shows "engine_inv e'"
proof -
  have lt: "x < q" if "x \<in> set (applied_seqs m (en_events e))" for x
    using assms(1,4) that by (fastforce simp: engine_inv_def)
  have "sorted_wrt (<) (applied_seqs n (en_events e'))" for n
    using assms(1,5,6,7) lt by (auto simp: engine_inv_def sorted_wrt_append)
  moreover have "\<exists>l. eg_sequences (en_guard e') n = Some l \<and> x \<le> l"
    if "x \<in> set (applied_seqs n (en_events e'))" for n x
    using that assms(1,3,5,6,7) lt by (auto simp: engine_inv_def less_imp_le split: if_splits)
  ultimately show ?thesis using assms(2) by (simp add: engine_inv_def)
qed

lemma engine_inv_local:
  assumes "engine_inv e"
  shows "engine_inv (snd (handle_local_change c pc now ct sens e))"
proof -
  obtain evs g q where "snd (handle_local_change c pc now ct sens e) =
      e\<lparr>en_sequence := q, en_guard := g, en_events := en_events e @ evs\<rparr>"
    "g = en_guard e \<or> g = push_hash (compute_hash c ct) (en_guard e)" "\<And>n. applied_seqs n evs = []"
    using handle_local_change_shape [of c pc now ct sens e] by blast
  then show ?thesis using assms push_hash_inv
    by (intro engine_inv_keep [OF assms, where evs = evs]) (auto simp: engine_inv_def)
qed

lemma engine_inv_sync:
  assumes "engine_inv e"
  shows "engine_inv (snd (handle_sync c bk entry e))"
proof (cases "sync_accepted c e entry")
  case True
  let ?md = "ce_metadata entry"
  obtain r b where set: "cb_set_content bk (ce_content entry) (en_backend e) = (r, b)"
    by (cases "cb_set_content bk (ce_content entry) (en_backend e)")
  have acc: "\<forall>l. eg_sequences (en_guard e) (cm_origin ?md) = Some l \<longrightarrow> l < cm_sequence ?md"
    using True by (simp add: sync_accepted_def Let_def)
  have g: "guard_inv (received_guard entry (en_guard e))"
    using assms by (simp add: received_guard_def Let_def push_hash_inv engine_inv_def)
  show ?thesis
  proof (cases r)
    case (Inl err)
    then show ?thesis using acc g
      by (intro engine_inv_bump [OF assms, where evs = "[]" and qs = "[]"])
        (simp_all add: handle_sync_accepted [OF True set] Let_def received_guard_def)
  next
    case (Inr u)
    then show ?thesis using acc g
      by (intro engine_inv_bump [OF assms, where qs = "[cm_sequence ?md]" and
            evs = "[RemoteApplied (cm_origin ?md) (cm_sequence ?md) (cm_content_hash ?md) (cm_format ?md)]"])
        (auto simp: handle_sync_accepted [OF True set] Let_def received_guard_def)
  qed
next
  case False
  then obtain r evs where "handle_sync c bk entry e = (r, e\<lparr>en_events := en_events e @ evs\<rparr>)"
    "\<forall>n. applied_seqs n evs = []"
    using handle_sync_refused by blast
  then show ?thesis using assms
    by (intro engine_inv_keep [OF assms, where evs = evs]) (simp_all add: engine_inv_def)
qed

lemma engine_inv_clear:
  assumes "engine_inv e"
  shows "engine_inv (snd (handle_clear bk origin q e))"
proof -
  obtain r e' where run: "handle_clear bk origin q e = (r, e')" by (cases "handle_clear bk origin q e")
  from handle_clear_cases [OF run] show ?thesis
  proof (elim disjE conjE exE)
    fix x b
    assume lt: "\<forall>l. eg_sequences (en_guard e) origin = Some l \<longrightarrow> l < q"
      and e': "e' = e\<lparr>en_guard := push_hash (replicate 32 0)
          ((en_guard e)\<lparr>eg_sequences := (eg_sequences (en_guard e))(origin \<mapsto> q)\<rparr>), en_backend := b\<rparr>"
    then show ?thesis using run assms
      by (intro engine_inv_bump [OF assms _ _ lt, where evs = "[]" and qs = "[]"])
        (simp_all add: push_hash_inv engine_inv_def)
  qed (use run assms in simp)
qed

lemma handle_incoming_frame_eq:
  "handle_incoming_frame c pc bk fr e =
     (case clip_from_data_frame pc fr of
        Inl err \<Rightarrow> (Inl err, e)
      | Inr (Sync entry) \<Rightarrow> handle_sync c bk entry e
      | Inr (Clear origin q _) \<Rightarrow> handle_clear bk origin q e
      | Inr (ClipAck _ _ _) \<Rightarrow> (Inr None, e))"
  by (simp add: handle_incoming_frame_def sbind_def split: sum.split clipboard_message.split)

lemma engine_inv_step:
  assumes "engine_inv e"
  shows "engine_inv (clip_step c pc bk call e)"
proof (cases call)
  case (LocalChange now ct sens)
  then show ?thesis using engine_inv_local [OF assms] by simp
next
  case (IncomingFrame fr)
  then show ?thesis
    by (simp add: handle_incoming_frame_eq assms engine_inv_sync engine_inv_clear
        split: sum.split clipboard_message.split)
qed

lemma engine_inv_run: "engine_inv e \<Longrightarrow> engine_inv (clip_run c pc bk calls e)"
  unfolding clip_run_def by (induction calls arbitrary: e) (simp_all add: engine_inv_step)

lemma clip_step_capacity: "eg_capacity (en_guard (clip_step c pc bk call e)) = eg_capacity (en_guard e)"
proof (cases call)
  case (LocalChange now ct sens)
  then show ?thesis using handle_local_change_shape [of c pc now ct sens e] by auto
next
  case (IncomingFrame fr)
  have "eg_capacity (en_guard (snd (handle_sync c bk entry e))) = eg_capacity (en_guard e)" for entry
  proof (cases "sync_accepted c e entry")
    case True
    show ?thesis
      using handle_sync_accepted [OF True, of bk "fst (cb_set_content bk (ce_content entry) (en_backend e))"
          "snd (cb_set_content bk (ce_content entry) (en_backend e))"]
      by (simp add: Let_def received_guard_def split: sum.split)
  next
    case False
    then show ?thesis using handle_sync_refused [OF False, of bk] by auto
  qed
  moreover have "eg_capacity (en_guard (snd (handle_clear bk n q e))) = eg_capacity (en_guard e)" for n q
    using handle_clear_cases [of bk n q e "fst (handle_clear bk n q e)" "snd (handle_clear bk n q e)"]
    by auto
  ultimately show ?thesis using IncomingFrame
    by (simp add: handle_incoming_frame_eq split: sum.split clipboard_message.split)
qed

lemma clip_run_capacity: "eg_capacity (en_guard (clip_run c pc bk calls e)) = eg_capacity (en_guard e)"
  unfolding clip_run_def by (induction calls arbitrary: e) (simp_all add: clip_step_capacity)

lemma local_change_frame:
  assumes "handle_local_change c pc now ct sens a = (Inr (Some fr), a')"
  shows "clip_to_data_frame pc (Sync (entry_new c now (en_local_node_id a) (en_sequence a) ct sens)) = Inr fr \<and>
    en_local_node_id a' = en_local_node_id a"
  using assms by (auto simp: handle_local_change_def Let_def split: sum.splits if_splits)

section \<open>The interface of a backend\<close>

text \<open>What the engine's users expect of a backend: it shows what was last written.\<close>

locale visible_clipboard =
  fixes bk :: "'b clipboard_backend"
  assumes set_law: "cb_set_content bk ct b = (Inr (), b') \<Longrightarrow> fst (cb_get_content bk b') = Inr (Some ct)"
    and clear_law: "cb_clear bk b = (Inr (), b') \<Longrightarrow> fst (cb_get_content bk b') = Inr None"
begin

lemma applied_is_visible:
  assumes "handle_sync c bk entry e = (Inr (Some (RemoteApplied n q h f)), e')"
  shows "sync_accepted c e entry \<and>
    fst (cb_get_content bk (en_backend e')) = Inr (Some (ce_content entry))"
proof (cases "sync_accepted c e entry")
  case True
  obtain r b where set: "cb_set_content bk (ce_content entry) (en_backend e) = (r, b)"
    by (cases "cb_set_content bk (ce_content entry) (en_backend e)")
  then have "r = Inr ()" "en_backend e' = b"
    using assms by (auto simp: handle_sync_accepted [OF True set] Let_def split: sum.splits)
  then show ?thesis using True set set_law by auto
next
  case False
  then show ?thesis
    using assms by (auto simp: handle_sync_def sync_accepted_def Let_def record_received_def
        should_suppress_def split: sum.splits if_splits option.splits prod.splits)
qed

end

interpretation mem_clip: visible_clipboard memory_clipboard
  by unfold_locales
    (auto simp: memory_clipboard_def memory_get_content_def memory_set_content_def memory_clear_def
      sbind_def)

section \<open>A concrete exchange for the witnesses\<close>

definition sample_update :: clipboard_entry where
  "sample_update = entry_new sample_crates 0 (NodeId [1]) 1 (Text ''hi'') False"

definition sample_clip_codec :: "clipboard_message postcard" where
  "sample_clip_codec = table_codec [(Sync sample_update, [7])]"

definition sample_engine :: "u8 \<Rightarrow> memory_backend clipboard_engine" where
  "sample_engine k = engine_new (NodeId [k]) memory_backend_new default_clipboard_policy"

lemma sample_clip_roundtrip [simp]: "postcard_roundtrip sample_clip_codec"
  unfolding sample_clip_codec_def by (rule table_codec_roundtrip) simp

lemma sample_update_decode:
  "clip_from_data_frame sample_clip_codec (data_frame_new CHANNEL_CLIPBOARD [7]) = Inr (Sync sample_update)"
  by (simp add: clip_from_data_frame_def data_frame_new_def sample_clip_codec_def table_codec_def)

lemma sample_policy: "policy_validate default_clipboard_policy (Text ''hi'') False = Inr ()"
  by (simp add: policy_validate_def default_clipboard_policy_def)

lemma sample_update_accepted: "sync_accepted sample_crates (sample_engine 2) sample_update"
  by (simp add: sync_accepted_def Let_def sample_update_def sample_engine_def engine_new_def
      guard_new_def) (simp add: entry_new_def sample_policy)

lemma sample_local_change:
  "\<exists>a'. handle_local_change sample_crates sample_clip_codec 0 (Text ''hi'') False (sample_engine 1) =
     (Inr (Some (data_frame_new CHANNEL_CLIPBOARD [7])), a')"
  by (simp add: handle_local_change_def sample_engine_def engine_new_def sample_policy Let_def
      should_suppress_def guard_new_def clip_to_data_frame_def sample_clip_codec_def table_codec_def
      sample_update_def [symmetric])

section \<open>Properties\<close>

text \<open>C16: an engine never applies a replayed or reordered update. Whatever local changes and
  incoming frames an engine processes, with whatever backend and codec, the sequence numbers
  of the updates it applied from one origin are strictly increasing, and its echo guard keeps
  its invariant, in particular never holds more hashes than its capacity of 256.\<close>

theorem clipboard_no_replay:
  "let e = clip_run c pc bk calls (engine_new n b p) in
   sorted_wrt (<) (applied_seqs m (en_events e)) \<and> guard_inv (en_guard e) \<and>
   length (eg_history (en_guard e)) \<le> 256"
proof -
  let ?e = "clip_run c pc bk calls (engine_new n b p)"
  have inv: "engine_inv ?e" by (rule engine_inv_run [OF engine_inv_new])
  have "eg_capacity (en_guard ?e) = 256"
    unfolding clip_run_capacity by (simp add: engine_new_def guard_new_def DEFAULT_CAPACITY_def)
  then show ?thesis using inv by (simp add: engine_inv_def guard_inv_def Let_def)
qed

text \<open>C26: the local clipboard is written only by accepted messages. If processing a frame
  changes the state of the backend, the frame decoded to an update from another node whose
  hash and size match its content, which the policy allows, whose hash is not known and whose
  sequence number is newer than the last one of its origin, or to a clear instruction of
  another node that is new in the same sense.\<close>

theorem clipboard_write_authorised:
  assumes "handle_incoming_frame c pc bk fr e = (r, e')" "en_backend e' \<noteq> en_backend e"
  shows "(\<exists>entry. clip_from_data_frame pc fr = Inr (Sync entry) \<and> sync_accepted c e entry) \<or>
    (\<exists>origin q ts. clip_from_data_frame pc fr = Inr (Clear origin q ts) \<and>
       origin \<noteq> en_local_node_id e \<and> replicate 32 0 \<notin> eg_seen (en_guard e) \<and>
       (\<forall>l. eg_sequences (en_guard e) origin = Some l \<longrightarrow> l < q))"
proof (cases "clip_from_data_frame pc fr")
  case (Inl err)
  then show ?thesis using assms by (simp add: handle_incoming_frame_eq)
next
  case (Inr msg)
  show ?thesis
  proof (cases msg)
    case (Sync entry)
    then have run: "handle_sync c bk entry e = (r, e')"
      using assms(1) Inr by (simp add: handle_incoming_frame_eq)
    have "sync_accepted c e entry"
    proof (rule ccontr)
      assume "\<not> sync_accepted c e entry"
      from handle_sync_refused [OF this, of bk] run assms(2) show False by auto
    qed
    then show ?thesis using Inr Sync by blast
  next
    case (Clear origin q ts)
    then have run: "handle_clear bk origin q e = (r, e')"
      using assms(1) Inr by (simp add: handle_incoming_frame_eq)
    from handle_clear_cases [OF run] assms(2) show ?thesis using Inr Clear by auto
  next
    case (ClipAck n q h)
    then show ?thesis using assms Inr by (simp add: handle_incoming_frame_eq)
  qed
qed

theorem clipboard_write_authorised_witness:
  "\<exists>r e'. handle_incoming_frame sample_crates sample_clip_codec memory_clipboard
      (data_frame_new CHANNEL_CLIPBOARD [7]) (sample_engine 2) = (r, e') \<and>
    en_backend e' \<noteq> en_backend (sample_engine 2) \<and>
    (\<exists>entry. clip_from_data_frame sample_clip_codec (data_frame_new CHANNEL_CLIPBOARD [7]) = Inr (Sync entry) \<and>
       sync_accepted sample_crates (sample_engine 2) entry)"
proof -
  let ?run = "handle_incoming_frame sample_crates sample_clip_codec memory_clipboard
      (data_frame_new CHANNEL_CLIPBOARD [7]) (sample_engine 2)"
  have run: "?run = (fst ?run, snd ?run)" by simp
  have set: "cb_set_content memory_clipboard (ce_content sample_update) (en_backend (sample_engine 2)) =
      (Inr (), \<lparr>mb_content = Some (Text ''hi''), mb_notified = [Text ''hi'']\<rparr>)"
    by (simp add: memory_clipboard_def memory_set_content_def sbind_def sample_update_def entry_new_def
        sample_engine_def engine_new_def memory_backend_new_def)
  have "en_backend (snd ?run) \<noteq> en_backend (sample_engine 2)"
    by (simp add: handle_incoming_frame_eq sample_update_decode
        handle_sync_accepted [OF sample_update_accepted set] Let_def)
      (simp add: sample_engine_def engine_new_def memory_backend_new_def)
  from clipboard_write_authorised [OF run this] this run sample_update_decode show ?thesis
    by (metis (no_types, lifting) clipboard_message.distinct(1) sum.inject(2))
qed



text \<open>How long an echo is remembered. A hash that was just recorded is suppressed as long
  as fewer further hashes are recorded than the capacity of the guard.\<close>

theorem echo_window:
  assumes "guard_inv g" "h \<notin> eg_seen g" "length hs < eg_capacity g"
  shows "should_suppress (fold record_sent hs (record_sent h g)) h"
proof -
  have inv: "guard_inv (push_hash h g)" using assms(1) by (rule push_hash_inv)
  have "recent h (0 + length hs) (fold push_hash hs (push_hash h g))"
    using recent_push_all [OF inv recent_push_new [OF assms(1,2)]] assms(3) by simp
  moreover have "guard_inv (fold push_hash hs (push_hash h g))"
    using inv by (induction hs arbitrary: h g) (simp_all add: push_hash_inv)
  moreover have "fold record_sent hs g' = fold push_hash hs g'" for g'
    by (rule fold_cong) (simp_all add: record_sent_def fun_eq_iff)
  ultimately show ?thesis using recent_seen by (simp add: should_suppress_def record_sent_def)
qed

theorem echo_window_witness:
  "should_suppress (fold record_sent [[2]] (record_sent [1] (guard_new 2))) [1]"
  by (rule echo_window) (simp_all add: guard_new_def, simp add: guard_inv_def)

text \<open>Only the first clear works. A clear instruction is recorded under the all-zero hash,
  so once one was accepted, a clear from any other origin with any sequence number is
  dropped: the backend keeps its content.\<close>

theorem second_clear_ignored:
  assumes "handle_clear bk n1 q1 e = (Inr None, e1)" "e1 \<noteq> e"
    "cb_set_content bk ct (en_backend e1) = (Inr (), b2)"
  shows "handle_clear bk n2 q2 (e1\<lparr>en_backend := b2\<rparr>) = (Inr None, e1\<lparr>en_backend := b2\<rparr>)"
proof -
  have "replicate 32 0 \<in> eg_seen (en_guard e1)"
    using handle_clear_cases [OF assms(1)] assms(2) by auto
  then have "record_received n2 q2 (replicate 32 0) (en_guard e1) = (False, en_guard e1)"
    by (simp add: record_received_False_iff)
  then show ?thesis by (simp add: handle_clear_def)
qed

theorem second_clear_ignored_witness:
  "\<exists>e1 b2. handle_clear memory_clipboard (NodeId [1]) 1 (sample_engine 3) = (Inr None, e1) \<and>
    handle_clear memory_clipboard (NodeId [2]) 9 (e1\<lparr>en_backend := b2\<rparr>) = (Inr None, e1\<lparr>en_backend := b2\<rparr>) \<and>
    mb_content b2 = Some (Text ''kept'')"
proof -
  obtain e1 where clr: "handle_clear memory_clipboard (NodeId [1]) 1 (sample_engine 3) = (Inr None, e1)"
      "eg_seen (en_guard e1) \<noteq> {}"
    by (simp add: handle_clear_def sample_engine_def engine_new_def guard_new_def record_received_def
        should_suppress_def on_backend_def memory_clipboard_def memory_clear_def)
      (metis empty_iff push_hash_seen)
  then have "e1 \<noteq> sample_engine 3" by (auto simp: sample_engine_def engine_new_def guard_new_def)
  moreover obtain b2 where "cb_set_content memory_clipboard (Text ''kept'') (en_backend e1) = (Inr (), b2)"
      "mb_content b2 = Some (Text ''kept'')"
    by (simp add: memory_clipboard_def memory_set_content_def sbind_def)
  ultimately show ?thesis using second_clear_ignored [OF clr(1)] clr(1) by blast
qed

end
