(* ===== verification/Session.thy ===== *)
theory Session
  imports Transport Pairing File_Transfer Clipboard
begin

text \<open>
  The authenticated, trust-gated session of \<open>crates/bridge-session/src\<close>: its states
  (\<open>state.rs\<close>), the pairing messages (\<open>pairing_flow.rs\<close>) and the orchestration of handshake,
  pairing and frame dispatch (\<open>session.rs\<close>), composed from the framed stream, the trust
  store, the pairing ceremony, the file receiver and the clipboard engine.
\<close>

section \<open>Errors and states\<close>

text \<open>\<open>OutOfFuel\<close> is not a \<open>SessionError\<close>: it stands for a loop that ran longer than its fuel.\<close>

datatype session_error =
    STransport string
  | SProtocol string
  | SIdentity identity_error
  | SCore bridge_error
  | SClipboard clipboard_error
  | SAuthenticationFailed string
  | SKeyMismatch string string string
  | SPeerRevoked string
  | SPeerUntrusted string
  | PairingRejected
  | SSasMismatch
  | ChannelBlocked u16 string
  | Closed string
  | STimeout string
  | OutOfFuel

datatype session_state = Handshaking | AuthenticatedUntrusted | Pairing | TrustedSession | Terminated string

fun state_is_trusted :: "session_state \<Rightarrow> bool" where
  "state_is_trusted TrustedSession = True"
| "state_is_trusted _ = False"

fun can_use_application_channels :: "session_state \<Rightarrow> bool" where
  "can_use_application_channels TrustedSession = True"
| "can_use_application_channels _ = False"

fun state_label :: "session_state \<Rightarrow> string" where
  "state_label Handshaking = ''Handshaking''"
| "state_label AuthenticatedUntrusted = ''Authenticated (Untrusted)''"
| "state_label Pairing = ''Pairing''"
| "state_label TrustedSession = ''Trusted''"
| "state_label (Terminated _) = ''Terminated''"

section \<open>Pairing messages\<close>

datatype pairing_message =
    Request pairing_request
  | Response pairing_response
  | Confirm pairing_confirm
  | Failed string

definition pairing_to_data_frame ::
    "pairing_message postcard \<Rightarrow> pairing_message \<Rightarrow> session_error + data_frame" where
  "pairing_to_data_frame pc m =
     rbind (map_err (\<lambda>e. SProtocol (''Failed to encode PairingMessage: '' @ e)) (to_allocvec pc m))
       (\<lambda>b. Inr (data_frame_new CHANNEL_PAIRING b))"

definition pairing_from_data_frame ::
    "pairing_message postcard \<Rightarrow> data_frame \<Rightarrow> session_error + pairing_message" where
  "pairing_from_data_frame pc df =
     (if channel df \<noteq> CHANNEL_PAIRING then
        Inl (SProtocol (''Expected channel '' @ show_nat (unat CHANNEL_PAIRING) @ '', got '' @
          show_nat (unat (channel df))))
      else map_err (\<lambda>e. SProtocol (''Failed to decode PairingMessage: '' @ e))
             (postcard.from_bytes pc (payload df)))"

text \<open>
  The confirmation callbacks. \<open>answer\<close> is what reading a line from standard input gives,
  \<open>None\<close> for an error; \<open>to_lowercase\<close> and the ASCII one agree on whether the result is one
  of the two accepted words, up to the Kelvin sign and the like, which neither word has.
\<close>

type_synonym confirmer = "sas_verification \<Rightarrow> string \<Rightarrow> bool"

definition auto_confirm :: "bool \<Rightarrow> confirmer" where
  "auto_confirm val = (\<lambda>_ _. val)"

definition interactive_cli_confirm :: "string option \<Rightarrow> confirmer" where
  "interactive_cli_confirm answer = (\<lambda>_ _.
     case answer of
       None \<Rightarrow> False
     | Some input \<Rightarrow>
         let trimmed = to_ascii_lowercase (trim input) in trimmed = ''y'' \<or> trimmed = ''yes'')"

section \<open>The environment and the state of a session\<close>

text \<open>
  Everything a session calls that is not part of this repository, besides the crates: the
  stream, the codecs of the message types, the clipboard backend, the failures of the
  operating system and the database, and the text that \<open>{:?}\<close> derives for a message.
\<close>

record ('s, 'b) session_env = crates +
  env_io :: "'s io_ops"
  env_frames :: "frame postcard"
  env_pairing :: "pairing_message postcard"
  env_transfer :: "transfer_message postcard"
  env_clip :: "clipboard_message postcard"
  env_backend :: "'b clipboard_backend"
  env_fs_faults :: faults
  env_db_faults :: db_faults
  env_debug_frame :: "frame \<Rightarrow> string"
  env_debug_pairing :: "pairing_message \<Rightarrow> string"

record ('s, 'b) active_session =
  as_local_identity :: identity_key
  as_local_name :: string
  as_local_device_type :: device_type
  as_remote_node_id :: node_id
  as_remote_pubkey :: public_key
  as_remote_name :: string
  as_remote_device_type :: device_type
  as_state :: session_state
  as_trust_store :: trust_db
  as_framed :: 's
  as_clipboard_engine :: "'b clipboard_engine option"
  as_receive_dir :: "string option"
  as_fs :: fs

text \<open>The shared state of a handshake: the stream and the trust store.\<close>

record 's link =
  lk_stream :: 's
  lk_store :: trust_db

fun disconnect_reason_debug :: "disconnect_reason \<Rightarrow> string" where
  "disconnect_reason_debug Graceful = ''Graceful''"
| "disconnect_reason_debug ProtocolError = ''ProtocolError''"
| "disconnect_reason_debug AuthenticationFailedReason = ''AuthenticationFailed''"
| "disconnect_reason_debug Timeout = ''Timeout''"

section \<open>The handshake\<close>

definition link_send ::
    "('s, 'b, 'x) session_env_scheme \<Rightarrow> frame \<Rightarrow> ('s link, session_error, unit) comp" where
  "link_send v f = (\<lambda>l.
     case send_frame (env_io v) (env_frames v) f (lk_stream l) of
       (r, st) \<Rightarrow> (map_err (\<lambda>e. STransport (bridge_error_display e)) r, l\<lparr>lk_stream := st\<rparr>))"

text \<open>Receiving a frame where the end of the stream is an error.\<close>

definition link_expect ::
    "('s, 'b, 'x) session_env_scheme \<Rightarrow> string \<Rightarrow> ('s link, session_error, frame) comp" where
  "link_expect v closed = (\<lambda>l.
     case recv_frame (env_io v) (env_frames v) (lk_stream l) of
       (r, st) \<Rightarrow>
         (rbind (map_err (\<lambda>e. STransport (bridge_error_display e)) r) (ok_or (Closed closed)),
          l\<lparr>lk_stream := st\<rparr>))"

text \<open>Consulting the trust store, the last step of both handshakes.\<close>

definition link_touch ::
    "('s, 'b, 'x) session_env_scheme \<Rightarrow> node_id \<Rightarrow> u64 \<Rightarrow> ('s link, session_error, unit) comp" where
  "link_touch v n now = (\<lambda>l.
     (Inr (), l\<lparr>lk_store := snd (update_last_seen v (env_db_faults v) n now (lk_store l))\<rparr>))"

definition consult_trust ::
    "('s, 'b, 'x) session_env_scheme \<Rightarrow> u64 \<Rightarrow> node_id \<Rightarrow> public_key \<Rightarrow>
     ('s link, session_error, session_state) comp" where
  "consult_trust v now n pk = (\<lambda>l.
     case is_trusted v (env_db_faults v) n pk (lk_store l) of
       Inr True \<Rightarrow> sbind (link_touch v n now) (\<lambda>_. sreturn TrustedSession) l
     | Inr False \<Rightarrow> (Inr AuthenticatedUntrusted, l)
     | Inl (KeyMismatch n' expected presented) \<Rightarrow>
         sbind (signore (link_send v (Control (Disconnect AuthenticationFailedReason)))) (\<lambda>_.
         sfail (SKeyMismatch (node_id_display v n') expected presented)) l
     | Inl (PeerRevoked n') \<Rightarrow>
         sbind (signore (link_send v (Control (Disconnect AuthenticationFailedReason)))) (\<lambda>_.
         sfail (SPeerRevoked (node_id_display v n'))) l
     | Inl e \<Rightarrow> (Inl (SIdentity e), l))"

definition peer_key :: "'x crates_scheme \<Rightarrow> node_id \<Rightarrow> session_error + public_key" where
  "peer_key c n =
     map_err (\<lambda>e. SAuthenticationFailed (''Invalid Ed25519 public key: '' @ bridge_error_display e))
       (key_from_bytes c (node_bytes n))"

definition new_session ::
    "identity_key \<Rightarrow> string \<Rightarrow> device_type \<Rightarrow> node_id \<Rightarrow> public_key \<Rightarrow> string \<Rightarrow> session_state \<Rightarrow>
     'b clipboard_engine option \<Rightarrow> string option \<Rightarrow> fs \<Rightarrow> 's link \<Rightarrow> ('s, 'b) active_session" where
  "new_session key nm dt n pk rname st engine rdir files0 l =
     \<lparr>as_local_identity = key, as_local_name = nm, as_local_device_type = dt,
      as_remote_node_id = n, as_remote_pubkey = pk, as_remote_name = rname,
      as_remote_device_type = Unknown, as_state = st, as_trust_store = lk_store l,
      as_framed = lk_stream l, as_clipboard_engine = engine, as_receive_dir = rdir,
      as_fs = files0\<rparr>"

text \<open>
  The server: \<open>server_handshake\<close> waits for the hello, \<open>server_greet\<close> answers it,
  \<open>server_authenticate\<close> checks the signature over both nonces and consults the store.
\<close>

definition server_authenticate ::
    "('s, 'b, 'x) session_env_scheme \<Rightarrow> bytes \<Rightarrow> u64 \<Rightarrow> identity_key \<Rightarrow> string \<Rightarrow> device_type \<Rightarrow>
     'b clipboard_engine option \<Rightarrow> string option \<Rightarrow> fs \<Rightarrow> client_hello \<Rightarrow> public_key \<Rightarrow> frame \<Rightarrow>
     ('s link, session_error, ('s, 'b) active_session) comp" where
  "server_authenticate v server_nonce now key nm dt engine rdir files0 hello pk auth_frame =
     (case auth_frame of
        Handshake (AuthResponse resp) \<Rightarrow>
          (case verify_handshake_challenge v pk (ch_client_nonce hello) server_nonce (signature resp) of
             Inl e \<Rightarrow>
               sbind (signore (link_send v (Handshake (AuthResult
                 (auth_failed (''Cryptographic challenge failed: '' @ bridge_error_display e)))))) (\<lambda>_.
               sfail (SAuthenticationFailed (''Signature verification failed for peer '' @
                 ch_device_name hello @ '' ('' @ node_id_display v (ch_node_id hello) @ ''): '' @
                 bridge_error_display e)))
           | Inr _ \<Rightarrow>
               sbind (link_send v (Handshake (AuthResult auth_ok))) (\<lambda>_.
               sbind (consult_trust v now (ch_node_id hello) pk) (\<lambda>st l.
               (Inr (new_session key nm dt (ch_node_id hello) pk (ch_device_name hello) st
                  engine rdir files0 l), l))))
      | other \<Rightarrow> sfail (SProtocol (''Expected AuthResponse, got '' @ env_debug_frame v other)))"

definition server_hello_of ::
    "'x crates_scheme \<Rightarrow> bytes \<Rightarrow> identity_key \<Rightarrow> string \<Rightarrow> client_hello \<Rightarrow> server_hello" where
  "server_hello_of c server_nonce key nm hello =
     \<lparr>sh_agreed_version = CURRENT, sh_node_id = identity_node_id c key, sh_device_name = nm,
      sh_server_nonce = server_nonce,
      sh_negotiated_capabilities = caps_intersect (ch_capabilities hello) caps_all\<rparr>"

definition server_greet ::
    "('s, 'b, 'x) session_env_scheme \<Rightarrow> bytes \<Rightarrow> u64 \<Rightarrow> identity_key \<Rightarrow> string \<Rightarrow> device_type \<Rightarrow>
     'b clipboard_engine option \<Rightarrow> string option \<Rightarrow> fs \<Rightarrow> frame \<Rightarrow>
     ('s link, session_error, ('s, 'b) active_session) comp" where
  "server_greet v server_nonce now key nm dt engine rdir files0 hello_frame =
     (case hello_frame of
        Handshake (ClientHello hello) \<Rightarrow>
          sbind (slift (peer_key v (ch_node_id hello))) (\<lambda>pk.
          sbind (link_send v (Handshake (ServerHello (server_hello_of v server_nonce key nm hello)))) (\<lambda>_.
          sbind (link_expect v ''Peer disconnected before AuthResponse'')
            (server_authenticate v server_nonce now key nm dt engine rdir files0 hello pk)))
      | other \<Rightarrow> sfail (SProtocol (''Expected ClientHello, got '' @ env_debug_frame v other)))"

definition server_handshake ::
    "('s, 'b, 'x) session_env_scheme \<Rightarrow> bytes \<Rightarrow> u64 \<Rightarrow> identity_key \<Rightarrow> string \<Rightarrow> device_type \<Rightarrow>
     'b clipboard_engine option \<Rightarrow> string option \<Rightarrow> fs \<Rightarrow>
     ('s link, session_error, ('s, 'b) active_session) comp" where
  "server_handshake v server_nonce now key nm dt engine rdir files0 =
     sbind (link_expect v ''Peer disconnected before ClientHello'')
       (server_greet v server_nonce now key nm dt engine rdir files0)"

text \<open>The client, in the same three stages.\<close>

definition client_conclude ::
    "('s, 'b, 'x) session_env_scheme \<Rightarrow> u64 \<Rightarrow> identity_key \<Rightarrow> string \<Rightarrow>
     'b clipboard_engine option \<Rightarrow> string option \<Rightarrow> fs \<Rightarrow> server_hello \<Rightarrow> public_key \<Rightarrow> frame \<Rightarrow>
     ('s link, session_error, ('s, 'b) active_session) comp" where
  "client_conclude v now key nm engine rdir files0 hello pk result_frame =
     (case result_frame of
        Handshake (AuthResult res) \<Rightarrow>
          if \<not> success res then
            sfail (SAuthenticationFailed (case reason res of Some r \<Rightarrow> r | None \<Rightarrow> ''Unknown error''))
          else
            sbind (consult_trust v now (sh_node_id hello) pk) (\<lambda>st l.
            (Inr (new_session key nm Unknown (sh_node_id hello) pk (sh_device_name hello) st
               engine rdir files0 l), l))
      | other \<Rightarrow> sfail (SProtocol (''Expected AuthResult, got '' @ env_debug_frame v other)))"

definition client_greet ::
    "('s, 'b, 'x) session_env_scheme \<Rightarrow> bytes \<Rightarrow> u64 \<Rightarrow> identity_key \<Rightarrow> string \<Rightarrow>
     'b clipboard_engine option \<Rightarrow> string option \<Rightarrow> fs \<Rightarrow> frame \<Rightarrow>
     ('s link, session_error, ('s, 'b) active_session) comp" where
  "client_greet v client_nonce now key nm engine rdir files0 hello_frame =
     (case hello_frame of
        Handshake (ServerHello hello) \<Rightarrow>
          sbind (slift (peer_key v (sh_node_id hello))) (\<lambda>pk.
          sbind (link_send v (Handshake (AuthResponse
             \<lparr>signature = sign_handshake_challenge v key client_nonce (sh_server_nonce hello)\<rparr>))) (\<lambda>_.
          sbind (link_expect v ''Server disconnected before AuthResult'')
            (client_conclude v now key nm engine rdir files0 hello pk)))
      | other \<Rightarrow> sfail (SProtocol (''Expected ServerHello, got '' @ env_debug_frame v other)))"

definition client_hello_of :: "'x crates_scheme \<Rightarrow> bytes \<Rightarrow> identity_key \<Rightarrow> string \<Rightarrow> client_hello" where
  "client_hello_of c client_nonce key nm =
     \<lparr>ch_version = CURRENT, ch_node_id = identity_node_id c key, ch_device_name = nm,
      ch_client_nonce = client_nonce, ch_capabilities = caps_all\<rparr>"

definition client_handshake ::
    "('s, 'b, 'x) session_env_scheme \<Rightarrow> bytes \<Rightarrow> u64 \<Rightarrow> identity_key \<Rightarrow> string \<Rightarrow> device_type \<Rightarrow>
     'b clipboard_engine option \<Rightarrow> string option \<Rightarrow> fs \<Rightarrow>
     ('s link, session_error, ('s, 'b) active_session) comp" where
  "client_handshake v client_nonce now key nm dt engine rdir files0 =
     sbind (link_send v (Handshake (ClientHello (client_hello_of v client_nonce key nm)))) (\<lambda>_.
     sbind (link_expect v ''Server disconnected before ServerHello'')
       (client_greet v client_nonce now key nm engine rdir files0))"

section \<open>Sending and receiving in a session\<close>

definition session_send ::
    "('s, 'b, 'x) session_env_scheme \<Rightarrow> frame \<Rightarrow> (('s, 'b) active_session, session_error, unit) comp" where
  "session_send v f = (\<lambda>s.
     case send_frame (env_io v) (env_frames v) f (as_framed s) of
       (r, st) \<Rightarrow> (map_err (\<lambda>e. STransport (bridge_error_display e)) r, s\<lparr>as_framed := st\<rparr>))"

definition session_recv ::
    "('s, 'b, 'x) session_env_scheme \<Rightarrow> (('s, 'b) active_session, session_error, frame option) comp" where
  "session_recv v = (\<lambda>s.
     case recv_frame (env_io v) (env_frames v) (as_framed s) of
       (r, st) \<Rightarrow> (map_err (\<lambda>e. STransport (bridge_error_display e)) r, s\<lparr>as_framed := st\<rparr>))"

text \<open>Waiting for a data frame of a channel, answering pings and skipping everything else.\<close>

fun recv_data_frame ::
    "('s, 'b, 'x) session_env_scheme \<Rightarrow> nat \<Rightarrow> u16 \<Rightarrow> (('s, 'b) active_session, session_error, data_frame) comp" where
  "recv_data_frame v 0 expected_channel = sfail OutOfFuel"
| "recv_data_frame v (Suc n) expected_channel =
     sbind (session_recv v) (\<lambda>frame_opt.
     case frame_opt of
       None \<Rightarrow> sfail (Closed ''Peer disconnected while awaiting data frame'')
     | Some fr \<Rightarrow>
         (case fr of
            Data df \<Rightarrow>
              if channel df = expected_channel then sreturn df else recv_data_frame v n expected_channel
          | Control (Ping nonce) \<Rightarrow>
              sbind (signore (session_send v (Control (Pong nonce)))) (\<lambda>_.
              recv_data_frame v n expected_channel)
          | Control (Disconnect r) \<Rightarrow>
              sfail (Closed (''Peer disconnected: '' @ disconnect_reason_debug r))
          | _ \<Rightarrow> recv_data_frame v n expected_channel))"

section \<open>The pairing ceremony over the stream\<close>

definition set_state :: "session_state \<Rightarrow> (('s, 'b) active_session, session_error, unit) comp" where
  "set_state st = smodify (\<lambda>s. s\<lparr>as_state := st\<rparr>)"

definition send_pairing ::
    "('s, 'b, 'x) session_env_scheme \<Rightarrow> pairing_message \<Rightarrow>
     (('s, 'b) active_session, session_error, unit) comp" where
  "send_pairing v m =
     sbind (slift (pairing_to_data_frame (env_pairing v) m)) (\<lambda>df. session_send v (Data df))"

definition recv_pairing ::
    "('s, 'b, 'x) session_env_scheme \<Rightarrow> nat \<Rightarrow> (('s, 'b) active_session, session_error, pairing_message) comp" where
  "recv_pairing v fuel =
     sbind (recv_data_frame v fuel CHANNEL_PAIRING) (\<lambda>df.
     slift (pairing_from_data_frame (env_pairing v) df))"

definition store_save ::
    "('s, 'b, 'x) session_env_scheme \<Rightarrow> trusted_peer \<Rightarrow> (('s, 'b) active_session, session_error, unit) comp" where
  "store_save v p = (\<lambda>s.
     case save_peer v (env_db_faults v) p (as_trust_store s) of
       (r, db) \<Rightarrow> (map_err SIdentity r, s\<lparr>as_trust_store := db\<rparr>))"

text \<open>
  The end of the ceremony, the same for both sides: ask the user, exchange signed
  confirmations, verify the remote one, persist the peer and open the session.
\<close>

definition reject_pairing ::
    "('s, 'b, 'x) session_env_scheme \<Rightarrow> (('s, 'b) active_session, session_error, 'a) comp" where
  "reject_pairing v =
     sbind (slift (pairing_to_data_frame (env_pairing v) (Failed ''Local user rejected pairing''))) (\<lambda>df.
     sbind (signore (session_send v (Data df))) (\<lambda>_.
     sbind (set_state AuthenticatedUntrusted) (\<lambda>_.
     sfail PairingRejected)))"

definition conclude_pairing ::
    "('s, 'b, 'x) session_env_scheme \<Rightarrow> pairing_session \<Rightarrow> sas_verification \<Rightarrow> pairing_message \<Rightarrow>
     (('s, 'b) active_session, session_error, sas_verification) comp" where
  "conclude_pairing v ps sas msg =
     (case msg of
        Confirm peer_confirm \<Rightarrow>
          sbind (slift (map_err SIdentity (fst (finalize v peer_confirm ps)))) (\<lambda>peer.
          sbind (store_save v peer) (\<lambda>_.
          sbind (set_state TrustedSession) (\<lambda>_.
          sreturn sas)))
      | Failed r \<Rightarrow> sfail (Closed (''Pairing rejected by peer: '' @ r))
      | other \<Rightarrow> sfail (SProtocol (''Expected PairingConfirm, got '' @ env_debug_pairing v other)))"

definition finish_pairing ::
    "('s, 'b, 'x) session_env_scheme \<Rightarrow> nat \<Rightarrow> confirmer \<Rightarrow> pairing_session \<Rightarrow> sas_verification \<Rightarrow>
     (('s, 'b) active_session, session_error, sas_verification) comp" where
  "finish_pairing v fuel confirmer ps sas =
     sbind (sget as_remote_name) (\<lambda>rname.
     if \<not> confirmer sas rname then reject_pairing v
     else
       sbind (slift (map_err SIdentity (confirm v ps))) (\<lambda>my_confirm.
       sbind (send_pairing v (Confirm my_confirm)) (\<lambda>_.
       sbind (recv_pairing v fuel) (\<lambda>msg.
       conclude_pairing v ps sas msg))))"

definition pair_initiator ::
    "('s, 'b, 'x) session_env_scheme \<Rightarrow> nat \<Rightarrow> bytes \<Rightarrow> u64 \<Rightarrow> u64 \<Rightarrow> confirmer \<Rightarrow>
     (('s, 'b) active_session, session_error, sas_verification) comp" where
  "pair_initiator v fuel nonce now1 now2 confirmer = (\<lambda>s.
     case new_initiator v nonce now1 (as_local_identity s) (as_local_name s) (as_local_device_type s) of
       (ps, req) \<Rightarrow>
         sbind (send_pairing v (Request req)) (\<lambda>_.
         sbind (recv_pairing v fuel) (\<lambda>msg.
         case msg of
           Response resp \<Rightarrow>
             (case initiator_receive_response v now2 resp ps of
                (Inl e, _) \<Rightarrow> sfail (SIdentity e)
              | (Inr sas, ps') \<Rightarrow> finish_pairing v fuel confirmer ps' sas)
         | Failed r \<Rightarrow> sfail (Closed (''Pairing rejected by peer: '' @ r))
         | other \<Rightarrow> sfail (SProtocol (''Expected PairingResponse, got '' @ env_debug_pairing v other)))) s)"

definition pair_responder ::
    "('s, 'b, 'x) session_env_scheme \<Rightarrow> nat \<Rightarrow> bytes \<Rightarrow> u64 \<Rightarrow> confirmer \<Rightarrow>
     (('s, 'b) active_session, session_error, sas_verification) comp" where
  "pair_responder v fuel nonce now confirmer =
     sbind (recv_pairing v fuel) (\<lambda>msg.
     case msg of
       Request req \<Rightarrow>
         (\<lambda>s.
           case new_responder v nonce now (as_local_identity s) (as_local_name s)
                  (as_local_device_type s) req of
             Inl e \<Rightarrow> (Inl (SIdentity e), s)
           | Inr (ps, resp, sas) \<Rightarrow>
               sbind (send_pairing v (Response resp)) (\<lambda>_. finish_pairing v fuel confirmer ps sas) s)
     | other \<Rightarrow> sfail (SProtocol (''Expected PairingRequest, got '' @ env_debug_pairing v other)))"

definition execute_pairing ::
    "('s, 'b, 'x) session_env_scheme \<Rightarrow> nat \<Rightarrow> bytes \<Rightarrow> u64 \<Rightarrow> u64 \<Rightarrow> bool \<Rightarrow> confirmer \<Rightarrow>
     (('s, 'b) active_session, session_error, sas_verification) comp" where
  "execute_pairing v fuel nonce now1 now2 is_initiator confirmer =
     sbind (set_state Pairing) (\<lambda>_.
     if is_initiator then pair_initiator v fuel nonce now1 now2 confirmer
     else pair_responder v fuel nonce now1 confirmer)"

section \<open>Dispatching frames\<close>

definition handle_file_transfer_frame ::
    "('s, 'b, 'x) session_env_scheme \<Rightarrow> bytes \<Rightarrow> string \<Rightarrow>
     (('s, 'b) active_session, session_error, unit) comp" where
  "handle_file_transfer_frame v pl receive_dir =
     sbind (slift (map_err (\<lambda>e. SProtocol (''Transfer payload error: '' @ transfer_error_display e))
              (transfer_from_bytes (env_transfer v) pl))) (\<lambda>msg.
     case msg of
       Offer manifest \<Rightarrow>
         sbind (\<lambda>s. case to_dir (env_fs_faults v) receive_dir manifest (as_fs s) of
                  (r, f) \<Rightarrow> (map_err (\<lambda>e. SProtocol (transfer_error_display e)) r, s\<lparr>as_fs := f\<rparr>)) (\<lambda>receiver.
         sbind (slift (map_err (\<lambda>e. SProtocol (transfer_error_display e))
                  (transfer_to_bytes (env_transfer v)
                     (Accept (fm_file_id (rcv_manifest receiver)) (next_expected_chunk receiver))))) (\<lambda>b.
         session_send v (Data (data_frame_new CHANNEL_FILE_TRANSFER b))))
     | _ \<Rightarrow> sreturn ())"

definition apply_clipboard ::
    "('s, 'b, 'x) session_env_scheme \<Rightarrow> data_frame \<Rightarrow> (('s, 'b) active_session, session_error, unit) comp" where
  "apply_clipboard v df = smodify (\<lambda>s.
     case as_clipboard_engine s of
       None \<Rightarrow> s
     | Some e \<Rightarrow>
         s\<lparr>as_clipboard_engine :=
             Some (snd (handle_incoming_frame v (env_clip v) (env_backend v) df e))\<rparr>)"

definition dispatch_data ::
    "('s, 'b, 'x) session_env_scheme \<Rightarrow> data_frame \<Rightarrow> (('s, 'b) active_session, session_error, bool) comp" where
  "dispatch_data v df = (\<lambda>s.
     if channel df = CHANNEL_PAIRING then (Inr True, s)
     else if channel df = CHANNEL_CLIPBOARD then
       (if \<not> state_is_trusted (as_state s) then (Inr True, s)
        else sbind (apply_clipboard v df) (\<lambda>_. sreturn True) s)
     else if channel df = CHANNEL_FILE_TRANSFER then
       (if \<not> state_is_trusted (as_state s) then (Inr True, s)
        else (case as_receive_dir s of
            None \<Rightarrow> (Inr True, s)
          | Some rdir \<Rightarrow> sbind (handle_file_transfer_frame v (payload df) rdir) (\<lambda>_. sreturn True) s))
     else (Inr True, s))"

definition process_next_frame ::
    "('s, 'b, 'x) session_env_scheme \<Rightarrow> (('s, 'b) active_session, session_error, bool) comp" where
  "process_next_frame v =
     sbind (session_recv v) (\<lambda>frame_opt.
     case frame_opt of
       None \<Rightarrow> sreturn False
     | Some (Control (Ping nonce)) \<Rightarrow>
         sbind (session_send v (Control (Pong nonce))) (\<lambda>_. sreturn True)
     | Some (Control (Pong _)) \<Rightarrow> sreturn True
     | Some (Control (Disconnect r)) \<Rightarrow>
         sbind (set_state (Terminated (''Disconnected: '' @ disconnect_reason_debug r))) (\<lambda>_. sreturn False)
     | Some (Data df) \<Rightarrow> dispatch_data v df
     | Some (Handshake _) \<Rightarrow> sreturn True)"

end
