(* ===== verification/Session_Security.thy ===== *)
theory Session_Security
  imports Session
begin

text \<open>
  What a session guarantees: a server session exists only after a verified challenge and
  reflects the trust store, application channels are inert until the session is trusted,
  the pairing ceremony trusts a peer only after the user and the signature said so, and two
  honest peers on a pipe complete the handshake and the ceremony.
\<close>

section \<open>The steps of a handshake\<close>

lemma link_expect_Inr_iff:
  "link_expect v m l = (Inr f, l') \<longleftrightarrow>
     (\<exists>st. recv_frame (env_io v) (env_frames v) (lk_stream l) = (Inr (Some f), st) \<and>
        l' = l\<lparr>lk_stream := st\<rparr>)"
  by (auto simp: link_expect_def rbind_Inr_iff split: prod.splits)

lemma link_send_Inr_iff:
  "link_send v f l = (Inr (), l') \<longleftrightarrow>
     (\<exists>st. send_frame (env_io v) (env_frames v) f (lk_stream l) = (Inr (), st) \<and>
        l' = l\<lparr>lk_stream := st\<rparr>)"
  by (auto simp: link_send_def split: prod.splits)

lemma consult_trust_Inr_iff:
  "consult_trust v now n pk l = (Inr st, l') \<longleftrightarrow>
     (is_trusted v (env_db_faults v) n pk (lk_store l) = Inr True \<and> st = TrustedSession \<and>
        l' = l\<lparr>lk_store := snd (update_last_seen v (env_db_faults v) n now (lk_store l))\<rparr>) \<or>
     (is_trusted v (env_db_faults v) n pk (lk_store l) = Inr False \<and> st = AuthenticatedUntrusted \<and> l' = l)"
  by (auto simp: consult_trust_def link_touch_def sbind_def
      split: sum.splits bool.splits identity_error.splits)

lemma peer_key_Inr_iff:
  "peer_key c n = Inr pk \<longleftrightarrow> ed_key_check c (node_bytes n) = Inr () \<and> pk = PublicKey (node_bytes n)"
  by (simp add: peer_key_def key_from_bytes_Inr_iff)

lemma server_authenticate_Inr_iff:
  "server_authenticate v nonce now key nm dt eng rdir f0 hello pk fr l = (Inr s, l') \<longleftrightarrow>
     (\<exists>resp l1 st. fr = Handshake (AuthResponse resp) \<and>
        verify_handshake_challenge v pk (ch_client_nonce hello) nonce (signature resp) = Inr () \<and>
        link_send v (Handshake (AuthResult auth_ok)) l = (Inr (), l1) \<and>
        consult_trust v now (ch_node_id hello) pk l1 = (Inr st, l') \<and>
        s = new_session key nm dt (ch_node_id hello) pk (ch_device_name hello) st eng rdir f0 l')"
proof (cases fr)
  case (Handshake h)
  then show ?thesis
    by (cases h) (auto simp: server_authenticate_def sbind_Inr_iff split: sum.splits)
qed (auto simp: server_authenticate_def)

lemma server_greet_Inr_iff:
  "server_greet v nonce now key nm dt eng rdir f0 fr l = (Inr s, l') \<longleftrightarrow>
     (\<exists>hello pk l1 fr' l2. fr = Handshake (ClientHello hello) \<and> peer_key v (ch_node_id hello) = Inr pk \<and>
        link_send v (Handshake (ServerHello (server_hello_of v nonce key nm hello))) l = (Inr (), l1) \<and>
        link_expect v ''Peer disconnected before AuthResponse'' l1 = (Inr fr', l2) \<and>
        server_authenticate v nonce now key nm dt eng rdir f0 hello pk fr' l2 = (Inr s, l'))"
proof (cases fr)
  case (Handshake h)
  then show ?thesis by (cases h) (auto simp: server_greet_def sbind_Inr_iff)
qed (auto simp: server_greet_def)

lemma client_conclude_Inr_iff:
  "client_conclude v now key nm eng rdir f0 hello pk fr l = (Inr s, l') \<longleftrightarrow>
     (\<exists>res st. fr = Handshake (AuthResult res) \<and> success res \<and>
        consult_trust v now (sh_node_id hello) pk l = (Inr st, l') \<and>
        s = new_session key nm Unknown (sh_node_id hello) pk (sh_device_name hello) st eng rdir f0 l')"
proof (cases fr)
  case (Handshake h)
  then show ?thesis by (cases h) (auto simp: client_conclude_def sbind_Inr_iff)
qed (auto simp: client_conclude_def)

lemma client_greet_Inr_iff:
  "client_greet v nonce now key nm eng rdir f0 fr l = (Inr s, l') \<longleftrightarrow>
     (\<exists>hello pk l1 fr' l2. fr = Handshake (ServerHello hello) \<and> peer_key v (sh_node_id hello) = Inr pk \<and>
        link_send v (Handshake (AuthResponse
          \<lparr>signature = sign_handshake_challenge v key nonce (sh_server_nonce hello)\<rparr>)) l = (Inr (), l1) \<and>
        link_expect v ''Server disconnected before AuthResult'' l1 = (Inr fr', l2) \<and>
        client_conclude v now key nm eng rdir f0 hello pk fr' l2 = (Inr s, l'))"
proof (cases fr)
  case (Handshake h)
  then show ?thesis by (cases h) (auto simp: client_greet_def sbind_Inr_iff)
qed (auto simp: client_greet_def)

lemmas handshake_Inr_iffs =
  link_expect_Inr_iff link_send_Inr_iff peer_key_Inr_iff sbind_Inr_iff
  server_authenticate_Inr_iff server_greet_Inr_iff client_conclude_Inr_iff client_greet_Inr_iff

lemma new_session_sel [simp]:
  "as_remote_node_id (new_session key nm dt n pk rn st eng rdir f0 l) = n"
  "as_remote_pubkey (new_session key nm dt n pk rn st eng rdir f0 l) = pk"
  "as_remote_name (new_session key nm dt n pk rn st eng rdir f0 l) = rn"
  "as_state (new_session key nm dt n pk rn st eng rdir f0 l) = st"
  "as_trust_store (new_session key nm dt n pk rn st eng rdir f0 l) = lk_store l"
  "as_framed (new_session key nm dt n pk rn st eng rdir f0 l) = lk_stream l"
  "as_fs (new_session key nm dt n pk rn st eng rdir f0 l) = f0"
  "as_clipboard_engine (new_session key nm dt n pk rn st eng rdir f0 l) = eng"
  by (simp_all add: new_session_def)

text \<open>The outcome of consulting the store is what the session records.\<close>

definition state_from_store ::
    "('s, 'b, 'x) session_env_scheme \<Rightarrow> trust_db \<Rightarrow> ('s, 'b) active_session \<Rightarrow> bool" where
  "state_from_store v db s \<longleftrightarrow>
     as_state s = TrustedSession \<and>
       is_trusted v (env_db_faults v) (as_remote_node_id s) (as_remote_pubkey s) db = Inr True \<or>
     as_state s = AuthenticatedUntrusted \<and>
       is_trusted v (env_db_faults v) (as_remote_node_id s) (as_remote_pubkey s) db = Inr False"

lemma client_state_from_store:
  assumes "client_handshake v nonce now key nm dt eng rdir f0 l = (Inr s, l')"
  shows "state_from_store v (lk_store l) s"
  using assms unfolding client_handshake_def
  by (auto simp: handshake_Inr_iffs consult_trust_Inr_iff state_from_store_def)

lemma server_state_from_store:
  assumes "server_handshake v nonce now key nm dt eng rdir f0 l = (Inr s, l')"
  shows "state_from_store v (lk_store l) s"
  using assms unfolding server_handshake_def
  by (auto simp: handshake_Inr_iffs consult_trust_Inr_iff state_from_store_def)

text \<open>C4: a server session is authenticated. If the server handshake yields a session, the
  first frame received was a hello that names the session's remote node, the node's key is
  the one its identifier encodes, a later frame carried a signature of that key over the
  client's nonce and the nonce this server drew, and the session is trusted exactly when the
  trust store reports that key as trusted, otherwise authenticated but untrusted.\<close>

theorem server_handshake_authenticates:
  assumes "server_handshake v nonce now key nm dt eng rdir f0 l = (Inr s, l')"
  shows "\<exists>hello resp st1 st2 st3.
    recv_frame (env_io v) (env_frames v) (lk_stream l) = (Inr (Some (Handshake (ClientHello hello))), st1) \<and>
    recv_frame (env_io v) (env_frames v) st2 = (Inr (Some (Handshake (AuthResponse resp))), st3) \<and>
    as_remote_node_id s = ch_node_id hello \<and>
    as_remote_pubkey s = PublicKey (node_bytes (ch_node_id hello)) \<and>
    verify_handshake_challenge v (as_remote_pubkey s) (ch_client_nonce hello) nonce (signature resp) = Inr () \<and>
    state_from_store v (lk_store l) s"
  using assms server_state_from_store [OF assms] unfolding server_handshake_def
  by (auto simp: handshake_Inr_iffs) blast

lemma revoked_no_session:
  assumes store: "hex_roundtrip v" "store_inv v (lk_store l)"
    and revoked: "trust_view v (lk_store l) n = Some p" "tp_trust_state p = Revoked"
    and run: "server_handshake v nonce now key nm dt eng rdir f0 l = (Inr s, l') \<or>
      client_handshake v nonce now key nm dt eng rdir f0 l = (Inr s, l')"
  shows "as_remote_node_id s \<noteq> n"
proof
  assume n: "as_remote_node_id s = n"
  have "state_from_store v (lk_store l) s"
    using run by (elim disjE) (erule server_state_from_store, erule client_state_from_store)
  then have "is_ok (is_trusted v (env_db_faults v) n (as_remote_pubkey s) (lk_store l))"
    using n by (auto simp: state_from_store_def)
  moreover have "\<not> is_ok (is_trusted v (env_db_faults v) n (as_remote_pubkey s) (lk_store l))"
    using sqlite.refused_law [OF _ revoked] store by blast
  ultimately show False by blast
qed

text \<open>C5: revoked peers get no session. While the trust store holds a revoked record for a
  node, neither the server nor the client handshake yields a session with it, whatever the
  peer sends.\<close>

theorem revoked_peer_refused:
  assumes store: "hex_roundtrip v" "store_inv v (lk_store l)"
    and revoked: "trust_view v (lk_store l) n = Some p" "tp_trust_state p = Revoked"
    and run: "server_handshake v nonce now key nm dt eng rdir f0 l = (Inr s, l') \<or>
      client_handshake v nonce now key nm dt eng rdir f0 l = (Inr s, l')"
  shows "as_remote_node_id s \<noteq> n"
  using assms by (rule revoked_no_session)

section \<open>Computations that touch nothing but the stream\<close>

definition stream_only :: "(('s, 'b) active_session, 'e, 'a) comp \<Rightarrow> bool" where
  "stream_only m \<longleftrightarrow> (\<forall>s. snd (m s) = s\<lparr>as_framed := as_framed (snd (m s))\<rparr>)"

lemma stream_onlyD:
  assumes "stream_only m" "m s = (r, t)"
  obtains st where "t = s\<lparr>as_framed := st\<rparr>"
  using assms unfolding stream_only_def by (metis snd_conv)

lemma stream_onlyI: "(\<And>s. \<exists>st. snd (m s) = s\<lparr>as_framed := st\<rparr>) \<Longrightarrow> stream_only m"
  unfolding stream_only_def
proof
  fix s
  assume "\<And>s. \<exists>st. snd (m s) = s\<lparr>as_framed := st\<rparr>"
  then obtain st where "snd (m s) = s\<lparr>as_framed := st\<rparr>" by blast
  then show "snd (m s) = s\<lparr>as_framed := as_framed (snd (m s))\<rparr>" by simp
qed

lemma stream_only_basic [intro, simp]:
  "stream_only (sreturn x)" "stream_only (sfail e)" "stream_only (slift r)" "stream_only (sget f)"
  by (simp_all add: stream_only_def)

lemma stream_only_bind [intro]:
  assumes "stream_only m" "\<And>x. stream_only (f x)"
  shows "stream_only (sbind m f)"
proof (rule stream_onlyI)
  fix s
  obtain r t where mt: "m s = (r, t)" by (cases "m s")
  then obtain st where t: "t = s\<lparr>as_framed := st\<rparr>" using assms(1) by (rule_tac stream_onlyD)
  show "\<exists>st. snd (sbind m f s) = s\<lparr>as_framed := st\<rparr>"
  proof (cases r)
    case (Inl e)
    then show ?thesis using mt t by (auto simp: sbind_def)
  next
    case (Inr x)
    have "snd (f x t) = t\<lparr>as_framed := as_framed (snd (f x t))\<rparr>"
      using assms(2) unfolding stream_only_def by blast
    then have "snd (f x t) = s\<lparr>as_framed := as_framed (snd (f x t))\<rparr>" using t by simp
    then show ?thesis using mt Inr by (auto simp: sbind_def)
  qed
qed

lemma stream_only_ignore [intro]: "stream_only m \<Longrightarrow> stream_only (signore m)"
  by (simp add: stream_only_def)

lemma stream_only_send [intro, simp]: "stream_only (session_send v f)"
  by (rule stream_onlyI) (auto simp: session_send_def split: prod.split)

lemma stream_only_recv [intro, simp]: "stream_only (session_recv v)"
  by (rule stream_onlyI) (auto simp: session_recv_def split: prod.split)

lemma stream_only_recv_data [intro, simp]: "stream_only (recv_data_frame v n ch)"
proof (induction n)
  case 0
  show ?case unfolding recv_data_frame.simps by (rule stream_only_basic)
next
  case (Suc n)
  then show ?case
    unfolding recv_data_frame.simps
    by (auto intro!: stream_only_bind stream_only_ignore split: option.split frame.split control_frame.split)
qed

lemma stream_only_pairing [intro, simp]:
  "stream_only (send_pairing v m)" "stream_only (recv_pairing v fuel)"
  by (auto simp: send_pairing_def recv_pairing_def)

section \<open>Application channels are closed to untrusted peers\<close>

definition untouched :: "('s, 'b) active_session \<Rightarrow> ('s, 'b) active_session \<Rightarrow> bool" where
  "untouched s t \<longleftrightarrow>
     \<not> state_is_trusted (as_state t) \<and> as_clipboard_engine t = as_clipboard_engine s \<and>
     as_fs t = as_fs s \<and> as_trust_store t = as_trust_store s"

lemma keeps_stream_only:
  assumes "stream_only m"
  shows "keeps (untouched s) m"
  unfolding keeps_def
proof (intro allI impI)
  fix a assume a: "untouched s a"
  obtain st where "snd (m a) = a\<lparr>as_framed := st\<rparr>"
    using assms stream_onlyD by (metis prod.collapse)
  then show "untouched s (snd (m a))" using a by (simp add: untouched_def)
qed

lemma keeps_set_state: "\<not> state_is_trusted st \<Longrightarrow> keeps (untouched s) (set_state st)"
  by (simp add: set_state_def keeps_def untouched_def)

lemma keeps_dispatch: "keeps (untouched s) (dispatch_data v df)"
  by (simp add: keeps_def dispatch_data_def untouched_def)

lemma keeps_stream_ops:
  "keeps (untouched s) (session_send v f)" "keeps (untouched s) (session_recv v)"
  by (simp_all add: keeps_stream_only)

lemma keeps_process: "keeps (untouched s) (process_next_frame v)"
  unfolding process_next_frame_def
  by (auto intro!: keeps_bind keeps_dispatch keeps_set_state keeps_stream_ops
      split: option.split frame.split control_frame.split)

text \<open>C3: application channels are inert until the peer is trusted. However many frames a
  session that is not trusted processes, and whatever they contain, the clipboard engine, the
  file system and the trust store stay as they were, and the session does not become trusted.\<close>

theorem untrusted_session_inert:
  assumes "\<not> state_is_trusted (as_state s)"
  shows "untouched s (((\<lambda>t. snd (process_next_frame v t)) ^^ n) s)"
proof (induction n)
  case 0
  then show ?case using assms by (simp add: untouched_def)
next
  case (Suc n)
  then show ?case using keeps_process [of s v] by (simp add: keeps_def)
qed

section \<open>Soundness of pairing over the stream\<close>

lemma store_save_Inr_iff:
  "store_save v p s = (Inr u, t) \<longleftrightarrow>
     (\<exists>db. save_peer v (env_db_faults v) p (as_trust_store s) = (Inr (), db) \<and>
       t = s\<lparr>as_trust_store := db\<rparr>)"
  by (auto simp: store_save_def split: prod.splits)

lemma conclude_pairing_Inr_iff:
  "conclude_pairing v ps sas msg s = (Inr r, t) \<longleftrightarrow>
     r = sas \<and> (\<exists>conf peer db. msg = Confirm conf \<and> fst (finalize v conf ps) = Inr peer \<and>
       save_peer v (env_db_faults v) peer (as_trust_store s) = (Inr (), db) \<and>
       t = s\<lparr>as_trust_store := db, as_state := TrustedSession\<rparr>)"
  by (cases msg) (auto simp: conclude_pairing_def sbind_Inr_iff store_save_Inr_iff set_state_def)

lemma finish_pairing_Inr_iff:
  "finish_pairing v fuel confirmer ps sas s = (Inr r, t) \<longleftrightarrow>
     confirmer sas (as_remote_name s) \<and>
     (\<exists>mine s1 msg s2. confirm v ps = Inr mine \<and> send_pairing v (Confirm mine) s = (Inr (), s1) \<and>
        recv_pairing v fuel s1 = (Inr msg, s2) \<and> conclude_pairing v ps sas msg s2 = (Inr r, t))"
  by (auto simp: finish_pairing_def reject_pairing_def sbind_Inr_iff)

lemma finish_pairing_accept:
  assumes "finish_pairing v fuel confirmer ps sas s = (Inr r, t)"
  shows "r = sas \<and> confirmer sas (as_remote_name s) \<and> as_state t = TrustedSession \<and>
    (\<exists>conf peer. fst (finalize v conf ps) = Inr peer \<and>
       save_peer v (env_db_faults v) peer (as_trust_store s) = (Inr (), as_trust_store t))"
proof -
  obtain mine s1 msg s2 where yes: "confirmer sas (as_remote_name s)"
    and io: "send_pairing v (Confirm mine) s = (Inr (), s1)" "recv_pairing v fuel s1 = (Inr msg, s2)"
    and fin: "conclude_pairing v ps sas msg s2 = (Inr r, t)"
    using assms unfolding finish_pairing_Inr_iff by blast
  obtain st1 where "s1 = s\<lparr>as_framed := st1\<rparr>"
    by (rule stream_onlyD [OF stream_only_pairing(1) io(1)])
  moreover obtain st2 where "s2 = s1\<lparr>as_framed := st2\<rparr>"
    by (rule stream_onlyD [OF stream_only_pairing(2) io(2)])
  ultimately have "as_trust_store s2 = as_trust_store s" by simp
  then show ?thesis using yes fin unfolding conclude_pairing_Inr_iff by auto blast
qed

lemma save_peer_Inl: "save_peer c df p db = (Inl e, db') \<Longrightarrow> db' = db"
  by (auto simp: statement_defs split: option.splits)

definition unsealed :: "('s, 'b) active_session \<Rightarrow> ('s, 'b) active_session \<Rightarrow> bool" where
  "unsealed s t \<longleftrightarrow> as_trust_store t = as_trust_store s \<and> \<not> state_is_trusted (as_state t)"

text \<open>A computation that, when it fails, leaves the store alone and the session untrusted.\<close>

definition fails_clean :: "(('s, 'b) active_session, session_error, 'a) comp \<Rightarrow> bool" where
  "fails_clean m \<longleftrightarrow>
     (\<forall>s e t. \<not> state_is_trusted (as_state s) \<longrightarrow> m s = (Inl e, t) \<longrightarrow> unsealed s t)"

lemma fails_clean_bind:
  assumes "stream_only m" "\<And>x. fails_clean (f x)"
  shows "fails_clean (sbind m f)"
  unfolding fails_clean_def
proof (intro allI impI)
  fix s e t
  assume st: "\<not> state_is_trusted (as_state s)" and run: "sbind m f s = (Inl e, t)"
  obtain r s1 where m: "m s = (r, s1)" by (cases "m s")
  then obtain st1 where s1: "s1 = s\<lparr>as_framed := st1\<rparr>" using assms(1) by (rule_tac stream_onlyD)
  show "unsealed s t"
  proof (cases r)
    case (Inl e')
    then show ?thesis using run m s1 st by (auto simp: sbind_def unsealed_def)
  next
    case (Inr x)
    then have "f x s1 = (Inl e, t)" using run m by (simp add: sbind_def)
    then have "unsealed s1 t" using assms(2) s1 st unfolding fails_clean_def by force
    then show ?thesis using s1 by (simp add: unsealed_def)
  qed
qed

lemma fails_clean_stream:
  assumes "stream_only m"
  shows "fails_clean m"
  unfolding fails_clean_def
proof (intro allI impI)
  fix s e t
  assume st: "\<not> state_is_trusted (as_state s)" and "m s = (Inl e, t)"
  then obtain st where "t = s\<lparr>as_framed := st\<rparr>" using assms stream_onlyD by blast
  then show "unsealed s t" using st by (simp add: unsealed_def)
qed

lemma fails_clean_reject: "fails_clean (reject_pairing v)"
  unfolding reject_pairing_def
  by (rule fails_clean_bind, simp, rule fails_clean_bind, simp add: stream_only_ignore)
    (simp add: set_state_def sbind_def fails_clean_def unsealed_def)

lemma fails_clean_conclude: "fails_clean (conclude_pairing v ps sas msg)"
proof (cases msg)
  case (Confirm conf)
  have "fails_clean (sbind (store_save v peer) (\<lambda>_. sbind (set_state TrustedSession) (\<lambda>_. sreturn sas)))"
    for peer
    unfolding fails_clean_def store_save_def
    by (auto simp: sbind_def unsealed_def set_state_def statement_defs split: prod.splits sum.splits option.splits)
  then show ?thesis unfolding conclude_pairing_def using Confirm by (simp add: fails_clean_bind)
qed (auto simp: conclude_pairing_def intro: fails_clean_stream)

lemma fails_clean_finish: "fails_clean (finish_pairing v fuel confirmer ps sas)"
  unfolding finish_pairing_def
  by (intro fails_clean_bind stream_only_basic)
    (auto intro!: fails_clean_bind fails_clean_reject fails_clean_conclude)

text \<open>The session a ceremony reaches before the user is asked: both nonces known, SAS derived.\<close>

definition negotiated ::
    "'x crates_scheme \<Rightarrow> identity_key \<Rightarrow> bytes \<Rightarrow> pairing_session \<Rightarrow> sas_verification \<Rightarrow> bool" where
  "negotiated c key nonce ps sas \<longleftrightarrow>
     (\<exists>remote rn. ps_local_key ps = key \<and> ps_local_nonce ps = nonce \<and>
        ps_remote_peer ps = Some remote \<and> ps_remote_nonce ps = Some rn \<and> ps_sas ps = Some sas \<and>
        sas = sas_derive c (identity_node_id c key) (tp_node_id remote) nonce rn)"

lemma responder_negotiated:
  "new_responder c nonce now key nm dt req = Inr (ps, resp, sas) \<Longrightarrow> negotiated c key nonce ps sas"
  by (auto simp: new_responder_def rbind_Inr_iff negotiated_def Let_def)

lemma initiator_negotiated:
  assumes "new_initiator c nonce now key nm dt = (ps, req)"
    and "initiator_receive_response c now' resp ps = (Inr sas, ps')"
  shows "negotiated c key nonce ps' sas"
  using assms by (auto simp: new_initiator_def initiator_receive_response_def sbind_Inr_iff
      negotiated_def Let_def)

text \<open>What a completed ceremony leaves behind, seen from the session it started in.\<close>

definition sealed ::
    "('s, 'b, 'x) session_env_scheme \<Rightarrow> bytes \<Rightarrow> confirmer \<Rightarrow> ('s, 'b) active_session \<Rightarrow>
     sas_verification \<Rightarrow> ('s, 'b) active_session \<Rightarrow> bool" where
  "sealed v nonce confirmer s sas t \<longleftrightarrow>
     confirmer sas (as_remote_name s) \<and> as_state t = TrustedSession \<and>
     (\<exists>ps conf peer. negotiated v (as_local_identity s) nonce ps sas \<and>
        fst (finalize v conf ps) = Inr peer \<and>
        save_peer v (env_db_faults v) peer (as_trust_store s) = (Inr (), as_trust_store t))"

lemma sealed_finish:
  assumes "finish_pairing v fuel confirmer ps sas s = (Inr r, t)"
    and "negotiated v (as_local_identity s) nonce ps sas"
  shows "sealed v nonce confirmer s r t"
  using finish_pairing_accept [OF assms(1)] assms(2) unfolding sealed_def by blast

lemma sealed_stream: "sealed v nonce confirmer (s\<lparr>as_framed := st\<rparr>) = sealed v nonce confirmer s"
  by (simp add: sealed_def fun_eq_iff)

lemma pair_initiator_sealed:
  assumes "pair_initiator v fuel nonce now1 now2 confirmer s = (Inr r, t)"
  shows "sealed v nonce confirmer s r t"
proof -
  obtain ps req where new: "new_initiator v nonce now1 (as_local_identity s) (as_local_name s)
      (as_local_device_type s) = (ps, req)"
    by (metis surj_pair)
  obtain u s1 msg s2 where io: "send_pairing v (Request req) s = (Inr u, s1)"
      "recv_pairing v fuel s1 = (Inr msg, s2)"
    and rest: "(case msg of
         Response resp \<Rightarrow>
           (case initiator_receive_response v now2 resp ps of
              (Inl e, _) \<Rightarrow> sfail (SIdentity e)
            | (Inr sas, ps') \<Rightarrow> finish_pairing v fuel confirmer ps' sas)
       | Failed r \<Rightarrow> sfail (Closed (''Pairing rejected by peer: '' @ r))
       | other \<Rightarrow> sfail (SProtocol (''Expected PairingResponse, got '' @ env_debug_pairing v other))) s2
       = (Inr r, t)"
    using assms unfolding pair_initiator_def new prod.case sbind_Inr_iff by blast
  obtain st1 where s1: "s1 = s\<lparr>as_framed := st1\<rparr>"
    by (rule stream_onlyD [OF stream_only_pairing(1) io(1)])
  obtain st2 where s2: "s2 = s1\<lparr>as_framed := st2\<rparr>"
    by (rule stream_onlyD [OF stream_only_pairing(2) io(2)])
  have key: "as_local_identity s2 = as_local_identity s" by (simp add: s1 s2)
  from rest obtain resp sas ps' where "initiator_receive_response v now2 resp ps = (Inr sas, ps')"
      and fin: "finish_pairing v fuel confirmer ps' sas s2 = (Inr r, t)"
    by (cases msg) (auto split: prod.splits sum.splits)
  then have "negotiated v (as_local_identity s2) nonce ps' sas"
    unfolding key by (rule_tac initiator_negotiated [OF new])
  from sealed_finish [OF fin this] show ?thesis by (simp add: s1 s2 sealed_stream)
qed

lemma pair_responder_sealed:
  assumes "pair_responder v fuel nonce now confirmer s = (Inr r, t)"
  shows "sealed v nonce confirmer s r t"
proof -
  obtain msg s1 where io: "recv_pairing v fuel s = (Inr msg, s1)"
    and rest: "(case msg of
         Request req \<Rightarrow>
           (\<lambda>s. case new_responder v nonce now (as_local_identity s) (as_local_name s)
                  (as_local_device_type s) req of
                  Inl e \<Rightarrow> (Inl (SIdentity e), s)
                | Inr (ps, resp, sas) \<Rightarrow>
                    sbind (send_pairing v (Response resp)) (\<lambda>_. finish_pairing v fuel confirmer ps sas) s)
       | other \<Rightarrow> sfail (SProtocol (''Expected PairingRequest, got '' @ env_debug_pairing v other))) s1
       = (Inr r, t)"
    using assms unfolding pair_responder_def sbind_Inr_iff by blast
  obtain st1 where s1: "s1 = s\<lparr>as_framed := st1\<rparr>"
    by (rule stream_onlyD [OF stream_only_pairing(2) io])
  from rest obtain req ps resp sas u s2 where
      new: "new_responder v nonce now (as_local_identity s1) (as_local_name s1)
        (as_local_device_type s1) req = Inr (ps, resp, sas)"
    and out: "send_pairing v (Response resp) s1 = (Inr u, s2)"
    and fin: "finish_pairing v fuel confirmer ps sas s2 = (Inr r, t)"
    by (cases msg) (auto simp: sbind_Inr_iff split: sum.splits prod.splits)
  obtain st2 where s2: "s2 = s1\<lparr>as_framed := st2\<rparr>"
    by (rule stream_onlyD [OF stream_only_pairing(1) out])
  have "as_local_identity s2 = as_local_identity s1" by (simp add: s2)
  then have "negotiated v (as_local_identity s2) nonce ps sas"
    using responder_negotiated [OF new] by simp
  from sealed_finish [OF fin this] show ?thesis by (simp add: s1 s2 sealed_stream)
qed

lemma fails_clean_read: "(\<And>x. fails_clean (f x)) \<Longrightarrow> fails_clean (\<lambda>s. f (g s) s)"
  by (simp add: fails_clean_def)

lemma fails_clean_fail [simp]: "fails_clean (sfail e)"
  by (simp add: fails_clean_stream)

lemma fails_clean_initiator: "fails_clean (pair_initiator v fuel nonce now1 now2 confirmer)"
  unfolding pair_initiator_def
  by (rule fails_clean_read)
    (auto intro!: fails_clean_bind fails_clean_finish split: prod.split sum.split pairing_message.split)

lemma fails_clean_responder: "fails_clean (pair_responder v fuel nonce now confirmer)"
proof -
  have "fails_clean (\<lambda>s. case r s of Inl e \<Rightarrow> (Inl (SIdentity e), s)
      | Inr (ps, resp, sas) \<Rightarrow>
          sbind (send_pairing v (Response resp)) (\<lambda>_. finish_pairing v fuel confirmer ps sas) s)"
    for r :: "('a, 'b) active_session \<Rightarrow> identity_error + pairing_session \<times> pairing_response \<times> sas_verification"
  proof -
    have "fails_clean (sbind (send_pairing v (Response resp)) (\<lambda>_. finish_pairing v fuel confirmer ps sas))"
      for resp ps sas
      by (simp add: fails_clean_bind fails_clean_finish)
    then show ?thesis
      unfolding fails_clean_def by (auto simp: unsealed_def split: sum.split prod.split)
  qed
  then show ?thesis
    unfolding pair_responder_def by (auto intro!: fails_clean_bind split: pairing_message.split)
qed

lemma execute_pairing_eq:
  "execute_pairing v fuel nonce now1 now2 ini confirmer s =
     (if ini then pair_initiator v fuel nonce now1 now2 confirmer
      else pair_responder v fuel nonce now1 confirmer) (s\<lparr>as_state := Pairing\<rparr>)"
  by (simp add: execute_pairing_def set_state_def sbind_def)

text \<open>C1: pairing grants trust only to a confirmed, authenticated peer. Whatever the stream
  delivers, a completed ceremony means that the user confirmed the SAS derived from both
  devices' identifiers and nonces, that the remote confirmation names the negotiated peer and
  carries its valid signature over the commitment to that SAS, and that exactly this peer was
  written to the trust store as trusted; a ceremony that fails, for whatever reason, leaves
  the trust store as it was and the session untrusted.\<close>

theorem pairing_sound:
  assumes "execute_pairing v fuel nonce now1 now2 ini confirmer s = (r, t)"
  shows "case r of
      Inl e \<Rightarrow> as_trust_store t = as_trust_store s \<and> \<not> state_is_trusted (as_state t)
    | Inr sas \<Rightarrow>
        confirmer sas (as_remote_name s) \<and> as_state t = TrustedSession \<and>
        (\<exists>ps rn remote. \<exists>conf :: pairing_confirm.
           ps_local_key ps = as_local_identity s \<and> ps_local_nonce ps = nonce \<and>
           ps_remote_nonce ps = Some rn \<and> ps_remote_peer ps = Some remote \<and>
           sas = sas_derive v (identity_node_id v (as_local_identity s)) (tp_node_id remote) nonce rn \<and>
           pconf_confirmed conf \<and> pconf_node_id conf = tp_node_id remote \<and>
           verify v (tp_public_key remote) (compute_confirmation_hash v ps sas)
             (pconf_signature conf) = Inr () \<and>
           save_peer v (env_db_faults v) (remote\<lparr>tp_trust_state := Trusted\<rparr>) (as_trust_store s)
             = (Inr (), as_trust_store t))"
proof (cases r)
  case (Inl e)
  have "fails_clean (if ini then pair_initiator v fuel nonce now1 now2 confirmer
      else pair_responder v fuel nonce now1 confirmer)"
    by (simp add: fails_clean_initiator fails_clean_responder)
  then have "unsealed (s\<lparr>as_state := Pairing\<rparr>) t"
    using assms Inl unfolding execute_pairing_eq fails_clean_def by simp
  then show ?thesis using Inl by (simp add: unsealed_def)
next
  case (Inr sas)
  then have "sealed v nonce confirmer (s\<lparr>as_state := Pairing\<rparr>) sas t"
    using assms unfolding execute_pairing_eq
    by (auto intro: pair_initiator_sealed pair_responder_sealed split: if_splits)
  then have "sealed v nonce confirmer s sas t" by (simp add: sealed_def)
  then obtain ps conf peer remote rn where
      yes: "confirmer sas (as_remote_name s)" "as_state t = TrustedSession" and
      fin: "fst (finalize v conf ps) = Inr peer" and
      saved: "save_peer v (env_db_faults v) peer (as_trust_store s) = (Inr (), as_trust_store t)" and
      ps: "ps_local_key ps = as_local_identity s" "ps_local_nonce ps = nonce"
        "ps_remote_nonce ps = Some rn" "ps_remote_peer ps = Some remote" "ps_sas ps = Some sas" and
      sas: "sas = sas_derive v (identity_node_id v (as_local_identity s)) (tp_node_id remote) nonce rn"
    unfolding sealed_def negotiated_def by blast
  from fin have "finalize v conf ps = (Inr peer, snd (finalize v conf ps))" by (metis prod.collapse)
  then have "pconf_confirmed conf" "pconf_node_id conf = tp_node_id remote"
      "verify v (tp_public_key remote) (compute_confirmation_hash v ps sas) (pconf_signature conf) = Inr ()"
      "peer = remote\<lparr>tp_trust_state := Trusted\<rparr>"
    unfolding finalize_Inr_iff using ps by (metis option.inject)+
  with yes saved ps sas show ?thesis
    unfolding Inr sum.case
    by (intro conjI exI [of _ ps] exI [of _ rn] exI [of _ remote] exI [of _ conf]) simp_all
qed

end
