(* ===== verification/Session_Liveness.thy ===== *)
theory Session_Liveness
  imports Session_Security
begin

text \<open>
  Two honest peers connected by a pipe: the handshake of
  \<open>crates/bridge-session/src/session.rs\<close> gives both a session with the other, and the
  pairing ceremony makes both sessions trusted with the same short authentication string.
  The bytes one side leaves in its outbox are the bytes the other side reads, so the two
  statements of each theorem fit together into one run.
\<close>

section \<open>Frames on a pipe\<close>

definition push_out :: "bytes \<Rightarrow> pipe \<Rightarrow> pipe" where
  "push_out b p = p\<lparr>outbox := outbox p @ b\<rparr>"

lemma push_out_sel [simp]: "inbox (push_out b p) = inbox p" "outbox (push_out b p) = outbox p @ b"
  by (simp_all add: push_out_def)

text \<open>An environment whose stream is the pipe and whose codecs round-trip.\<close>

definition piped :: "(pipe, 'b, 'x) session_env_scheme \<Rightarrow> bool" where
  "piped v \<longleftrightarrow> env_io v = pipe_ops \<and> ed25519_correct v \<and> postcard_roundtrip (env_frames v) \<and>
     postcard_roundtrip (env_pairing v)"

lemma link_send_pipe:
  "\<lbrakk>piped v; encode_frame (env_frames v) f = Inr b\<rbrakk> \<Longrightarrow>
     link_send v f l = (Inr (), l\<lparr>lk_stream := push_out b (lk_stream l)\<rparr>)"
  by (simp add: link_send_def piped_def send_frame_pipe push_out_def)

lemma link_expect_pipe:
  "\<lbrakk>piped v; encode_frame (env_frames v) f = Inr b; inbox (lk_stream l) = b @ rest\<rbrakk> \<Longrightarrow>
     link_expect v m l = (Inr f, l\<lparr>lk_stream := (lk_stream l)\<lparr>inbox := rest\<rparr>\<rparr>)"
  using recv_frame_pipe_encoded [of "env_frames v" f b "lk_stream l" rest]
  by (simp add: link_expect_def piped_def)

lemma consult_trust_ok:
  "is_trusted v (env_db_faults v) n pk (lk_store l) = Inr b \<Longrightarrow>
     \<exists>l'. consult_trust v now n pk l = (Inr (if b then TrustedSession else AuthenticatedUntrusted), l') \<and>
       lk_stream l' = lk_stream l"
  by (cases b) (simp_all add: consult_trust_def link_touch_def sbind_def)

lemma peer_key_own: "ed25519_correct c \<Longrightarrow> peer_key c (identity_node_id c k) = Inr (public_of c k)"
  by (simp add: peer_key_Inr_iff identity_node_id_def key_node_id_def public_of_def ed25519_correctD)

section \<open>The handshake of two honest peers\<close>

text \<open>The four frames of a handshake, as both sides build them.\<close>

definition handshake_frames ::
    "'x crates_scheme \<Rightarrow> identity_key \<Rightarrow> string \<Rightarrow> bytes \<Rightarrow> identity_key \<Rightarrow> string \<Rightarrow> bytes \<Rightarrow> frame list" where
  "handshake_frames c kc nmc cn ks nms sn =
     [Handshake (ClientHello (client_hello_of c cn kc nmc)),
      Handshake (ServerHello (server_hello_of c sn ks nms (client_hello_of c cn kc nmc))),
      Handshake (AuthResponse \<lparr>signature = sign_handshake_challenge c kc cn sn\<rparr>),
      Handshake (AuthResult auth_ok)]"

lemma hello_sel [simp]:
  "ch_node_id (client_hello_of c cn kc nmc) = identity_node_id c kc"
  "ch_device_name (client_hello_of c cn kc nmc) = nmc"
  "ch_client_nonce (client_hello_of c cn kc nmc) = cn"
  "sh_node_id (server_hello_of c sn ks nms h) = identity_node_id c ks"
  "sh_device_name (server_hello_of c sn ks nms h) = nms"
  "sh_server_nonce (server_hello_of c sn ks nms h) = sn"
  by (simp_all add: client_hello_of_def server_hello_of_def)

lemma server_completes:
  assumes v: "piped v"
    and enc: "map (encode_frame (env_frames v)) (handshake_frames v kc nmc cn ks nms sn) = map Inr [ba, bb, bc, bd]"
    and inb: "inbox (lk_stream l) = ba @ bc @ rest"
    and db: "is_trusted v (env_db_faults v) (identity_node_id v kc) (public_of v kc) (lk_store l) = Inr tr"
  shows "\<exists>s l'. server_handshake v sn now ks nms dt eng rdir f0 l = (Inr s, l') \<and>
    as_framed s = lk_stream l' \<and> inbox (lk_stream l') = rest \<and>
    outbox (lk_stream l') = outbox (lk_stream l) @ bb @ bd \<and>
    as_remote_node_id s = identity_node_id v kc \<and> as_remote_pubkey s = public_of v kc \<and>
    as_remote_name s = nmc \<and> as_fs s = f0 \<and> as_clipboard_engine s = eng \<and>
    as_state s = (if tr then TrustedSession else AuthenticatedUntrusted)"
proof -
  have ed: "ed25519_correct v" using v by (simp add: piped_def)
  let ?hello = "client_hello_of v cn kc nmc" and ?st = "if tr then TrustedSession else AuthenticatedUntrusted"
  have e: "encode_frame (env_frames v) (Handshake (ClientHello ?hello)) = Inr ba"
      "encode_frame (env_frames v) (Handshake (ServerHello (server_hello_of v sn ks nms ?hello))) = Inr bb"
      "encode_frame (env_frames v) (Handshake (AuthResponse \<lparr>signature = sign_handshake_challenge v kc cn sn\<rparr>)) = Inr bc"
      "encode_frame (env_frames v) (Handshake (AuthResult auth_ok)) = Inr bd"
    using enc by (simp_all add: handshake_frames_def)
  define l1 where "l1 = l\<lparr>lk_stream := (lk_stream l)\<lparr>inbox := bc @ rest\<rparr>\<rparr>"
  define l2 where "l2 = l1\<lparr>lk_stream := push_out bb (lk_stream l1)\<rparr>"
  define l3 where "l3 = l2\<lparr>lk_stream := (lk_stream l2)\<lparr>inbox := rest\<rparr>\<rparr>"
  define l4 where "l4 = l3\<lparr>lk_stream := push_out bd (lk_stream l3)\<rparr>"
  note l_defs = l1_def l2_def l3_def l4_def
  have in2: "inbox (lk_stream l2) = bc @ rest" by (simp add: l_defs)
  have "lk_store l4 = lk_store l" by (simp add: l_defs)
  then obtain l' where consult: "consult_trust v now (identity_node_id v kc) (public_of v kc) l4 = (Inr ?st, l')"
      and stream: "lk_stream l' = lk_stream l4"
    using consult_trust_ok [of v "identity_node_id v kc" "public_of v kc" l4 tr now] db by metis
  have "server_authenticate v sn now ks nms dt eng rdir f0 ?hello (public_of v kc)
      (Handshake (AuthResponse \<lparr>signature = sign_handshake_challenge v kc cn sn\<rparr>)) l3 =
      (Inr (new_session ks nms dt (identity_node_id v kc) (public_of v kc) nmc ?st eng rdir f0 l'), l')"
    using link_send_pipe [OF v e(4), of l3, folded l4_def] consult ed
    unfolding server_authenticate_Inr_iff by auto
  then have "server_greet v sn now ks nms dt eng rdir f0 (Handshake (ClientHello ?hello)) l1 =
      (Inr (new_session ks nms dt (identity_node_id v kc) (public_of v kc) nmc ?st eng rdir f0 l'), l')"
    using link_send_pipe [OF v e(2), of l1, folded l2_def] peer_key_own [OF ed, of kc]
      link_expect_pipe [OF v e(3) in2, folded l3_def]
    unfolding server_greet_Inr_iff by auto
  then have "server_handshake v sn now ks nms dt eng rdir f0 l =
      (Inr (new_session ks nms dt (identity_node_id v kc) (public_of v kc) nmc ?st eng rdir f0 l'), l')"
    using link_expect_pipe [OF v e(1) inb, folded l1_def] by (simp add: server_handshake_def sbind_def)
  then show ?thesis using stream by (simp add: l_defs)
qed

text \<open>The client's side holds for whatever hello the server sends.\<close>

lemma client_accepts:
  assumes v: "piped v"
    and e: "encode_frame (env_frames v) (Handshake (ClientHello (client_hello_of v cn kc nmc))) = Inr ba"
      "encode_frame (env_frames v) (Handshake (ServerHello hello)) = Inr bb"
      "encode_frame (env_frames v) (Handshake (AuthResponse
         \<lparr>signature = sign_handshake_challenge v kc cn (sh_server_nonce hello)\<rparr>)) = Inr bc"
      "encode_frame (env_frames v) (Handshake (AuthResult auth_ok)) = Inr bd"
    and pk: "peer_key v (sh_node_id hello) = Inr pk"
    and inb: "inbox (lk_stream l) = bb @ bd @ rest"
    and db: "is_trusted v (env_db_faults v) (sh_node_id hello) pk (lk_store l) = Inr tr"
  shows "\<exists>s l'. client_handshake v cn now kc nmc dt eng rdir f0 l = (Inr s, l') \<and>
    as_framed s = lk_stream l' \<and> inbox (lk_stream l') = rest \<and>
    outbox (lk_stream l') = outbox (lk_stream l) @ ba @ bc \<and>
    as_remote_node_id s = sh_node_id hello \<and> as_remote_pubkey s = pk \<and>
    as_remote_name s = sh_device_name hello \<and>
    as_state s = (if tr then TrustedSession else AuthenticatedUntrusted)"
proof -
  let ?st = "if tr then TrustedSession else AuthenticatedUntrusted"
  define l1 where "l1 = l\<lparr>lk_stream := push_out ba (lk_stream l)\<rparr>"
  define l2 where "l2 = l1\<lparr>lk_stream := (lk_stream l1)\<lparr>inbox := bd @ rest\<rparr>\<rparr>"
  define l3 where "l3 = l2\<lparr>lk_stream := push_out bc (lk_stream l2)\<rparr>"
  define l4 where "l4 = l3\<lparr>lk_stream := (lk_stream l3)\<lparr>inbox := rest\<rparr>\<rparr>"
  note l_defs = l1_def l2_def l3_def l4_def
  have ins: "inbox (lk_stream l1) = bb @ bd @ rest" "inbox (lk_stream l3) = bd @ rest"
    using inb by (simp_all add: l_defs)
  have "lk_store l4 = lk_store l" by (simp add: l_defs)
  then obtain l' where consult: "consult_trust v now (sh_node_id hello) pk l4 = (Inr ?st, l')"
      and stream: "lk_stream l' = lk_stream l4"
    using consult_trust_ok [of v "sh_node_id hello" pk l4 tr now] db by metis
  let ?s = "new_session kc nmc Unknown (sh_node_id hello) pk (sh_device_name hello) ?st eng rdir f0 l'"
  have "client_conclude v now kc nmc eng rdir f0 hello pk (Handshake (AuthResult auth_ok)) l4 = (Inr ?s, l')"
    using consult unfolding client_conclude_Inr_iff by (auto simp: auth_ok_def)
  then have "client_greet v cn now kc nmc eng rdir f0 (Handshake (ServerHello hello)) l2 = (Inr ?s, l')"
    using link_send_pipe [OF v e(3), of l2, folded l3_def] pk
      link_expect_pipe [OF v e(4) ins(2), folded l4_def]
    unfolding client_greet_Inr_iff by auto
  then have "client_handshake v cn now kc nmc dt eng rdir f0 l = (Inr ?s, l')"
    using link_send_pipe [OF v e(1), of l, folded l1_def] link_expect_pipe [OF v e(2) ins(1), folded l2_def]
    by (simp add: client_handshake_def sbind_def)
  then show ?thesis using stream by (simp add: l_defs)
qed

lemma client_completes:
  assumes v: "piped v"
    and enc: "map (encode_frame (env_frames v)) (handshake_frames v kc nmc cn ks nms sn) = map Inr [ba, bb, bc, bd]"
    and inb: "inbox (lk_stream l) = bb @ bd @ rest"
    and db: "is_trusted v (env_db_faults v) (identity_node_id v ks) (public_of v ks) (lk_store l) = Inr tr"
  shows "\<exists>s l'. client_handshake v cn now kc nmc dt eng rdir f0 l = (Inr s, l') \<and>
    as_framed s = lk_stream l' \<and> inbox (lk_stream l') = rest \<and>
    outbox (lk_stream l') = outbox (lk_stream l) @ ba @ bc \<and>
    as_remote_node_id s = identity_node_id v ks \<and> as_remote_pubkey s = public_of v ks \<and>
    as_remote_name s = nms \<and> as_state s = (if tr then TrustedSession else AuthenticatedUntrusted)"
  using client_accepts [OF v _ _ _ _ _ inb,
      where hello = "server_hello_of v sn ks nms (client_hello_of v cn kc nmc)" and kc = kc and cn = cn
        and nmc = nmc and ba = ba and bc = bc and pk = "public_of v ks" and tr = tr]
    enc db peer_key_own [of v ks] v
  by (auto simp: handshake_frames_def piped_def)

text \<open>C36: the client authenticates nobody. A server that answers with any hello naming a
  device the client trusts, and then reports success, obtains a trusted session under that
  device's name: nothing the server sends depends on the secret key of that device, since the
  nonce in its hello is arbitrary and it never signs.\<close>

theorem client_trusts_unproven_server:
  assumes "piped v"
    and "encode_frame (env_frames v) (Handshake (ClientHello (client_hello_of v cn kc nmc))) = Inr ba"
    and "encode_frame (env_frames v) (Handshake (ServerHello hello)) = Inr bb"
    and "encode_frame (env_frames v) (Handshake (AuthResponse
         \<lparr>signature = sign_handshake_challenge v kc cn (sh_server_nonce hello)\<rparr>)) = Inr bc"
    and "encode_frame (env_frames v) (Handshake (AuthResult auth_ok)) = Inr bd"
    and "peer_key v (sh_node_id hello) = Inr pk"
    and "inbox (lk_stream l) = bb @ bd"
    and "is_trusted v (env_db_faults v) (sh_node_id hello) pk (lk_store l) = Inr True"
  shows "\<exists>s l'. client_handshake v cn now kc nmc dt eng rdir f0 l = (Inr s, l') \<and>
    as_remote_node_id s = sh_node_id hello \<and> as_state s = TrustedSession"
proof -
  have "inbox (lk_stream l) = bb @ bd @ []" using assms(7) by simp
  from client_accepts [OF assms(1-6) this assms(8)] show ?thesis by fastforce
qed

text \<open>C9: honest peers reach a session. Over a pipe on which each side reads exactly what the
  other writes, the client and the server handshake both succeed, the server writes the hello
  and the verdict the client reads, the client writes the hello and the signature the server
  reads, each session names the other device and its key, and each is trusted exactly when
  its own trust store says so.\<close>

theorem honest_handshake:
  assumes "piped v"
    and "map (encode_frame (env_frames v)) (handshake_frames v kc nmc cn ks nms sn) = map Inr [ba, bb, bc, bd]"
    and "inbox (lk_stream ls) = ba @ bc" "inbox (lk_stream lc) = bb @ bd"
    and "outbox (lk_stream ls) = []" "outbox (lk_stream lc) = []"
    and "is_trusted v (env_db_faults v) (identity_node_id v kc) (public_of v kc) (lk_store ls) = Inr trs"
    and "is_trusted v (env_db_faults v) (identity_node_id v ks) (public_of v ks) (lk_store lc) = Inr trc"
  shows "\<exists>ss ls' sc lc'.
    server_handshake v sn now ks nms dts eng rdir f0 ls = (Inr ss, ls') \<and>
    client_handshake v cn now' kc nmc dtc eng' rdir' f0' lc = (Inr sc, lc') \<and>
    outbox (lk_stream ls') = inbox (lk_stream lc) \<and> outbox (lk_stream lc') = inbox (lk_stream ls) \<and>
    inbox (lk_stream ls') = [] \<and> inbox (lk_stream lc') = [] \<and>
    as_remote_node_id ss = identity_node_id v kc \<and> as_remote_pubkey ss = public_of v kc \<and>
    as_remote_node_id sc = identity_node_id v ks \<and> as_remote_pubkey sc = public_of v ks \<and>
    as_remote_name ss = nmc \<and> as_remote_name sc = nms \<and>
    (state_is_trusted (as_state ss) \<longleftrightarrow> trs) \<and> (state_is_trusted (as_state sc) \<longleftrightarrow> trc)"
proof -
  have "inbox (lk_stream ls) = ba @ bc @ []" "inbox (lk_stream lc) = bb @ bd @ []"
    using assms(3,4) by simp_all
  from server_completes [OF assms(1,2) this(1) assms(7), of now dts eng rdir f0]
    client_completes [OF assms(1,2) this(2) assms(8), of now' dtc eng' rdir' f0'] assms(3-6)
  show ?thesis by fastforce
qed

section \<open>The pairing ceremony of two honest peers\<close>

definition on_wire :: "('s, 'b, 'x) session_env_scheme \<Rightarrow> pairing_message \<Rightarrow> bytes \<Rightarrow> bool" where
  "on_wire v m b \<longleftrightarrow>
     (\<exists>df. pairing_to_data_frame (env_pairing v) m = Inr df \<and> encode_frame (env_frames v) (Data df) = Inr b)"

definition sent :: "bytes \<Rightarrow> (pipe, 'b) active_session \<Rightarrow> (pipe, 'b) active_session" where
  "sent b s = s\<lparr>as_framed := push_out b (as_framed s)\<rparr>"

definition got :: "bytes \<Rightarrow> (pipe, 'b) active_session \<Rightarrow> (pipe, 'b) active_session" where
  "got rest s = s\<lparr>as_framed := (as_framed s)\<lparr>inbox := rest\<rparr>\<rparr>"

lemma send_pairing_pipe: "\<lbrakk>piped v; on_wire v m b\<rbrakk> \<Longrightarrow> send_pairing v m s = (Inr (), sent b s)"
  by (auto simp: on_wire_def send_pairing_def sbind_def session_send_def piped_def send_frame_pipe
      sent_def push_out_def)

lemma recv_pairing_pipe:
  assumes "piped v" "on_wire v m b" "inbox (as_framed s) = b @ rest"
  shows "recv_pairing v (Suc n) s = (Inr m, got rest s)"
proof -
  obtain df where df: "pairing_to_data_frame (env_pairing v) m = Inr df"
      and enc: "encode_frame (env_frames v) (Data df) = Inr b"
    using assms(2) by (auto simp: on_wire_def)
  have "session_recv v s = (Inr (Some (Data df)), got rest s)"
    using recv_frame_pipe_encoded [OF _ enc assms(3)] assms(1)
    by (simp add: session_recv_def piped_def got_def)
  moreover have "channel df = CHANNEL_PAIRING" "pairing_from_data_frame (env_pairing v) df = Inr m"
    using df assms(1) by (auto simp: pairing_to_data_frame_def pairing_from_data_frame_def
        rbind_Inr_iff data_frame_new_def piped_def postcard_roundtripD)
  ultimately show ?thesis by (simp add: recv_pairing_def sbind_def)
qed

lemma finish_pairing_pipe:
  assumes "piped v" "on_wire v (Confirm mine) bm" "on_wire v (Confirm theirs) bt"
    and "confirm v ps = Inr mine" "fst (finalize v theirs ps) = Inr peer"
    and "inbox (as_framed s) = bt @ rest" "confirmer sas (as_remote_name s)"
    and "env_db_faults v SqlSave = None"
  shows "finish_pairing v (Suc n) confirmer ps sas s =
    (Inr sas, (got rest (sent bm s))
      \<lparr>as_trust_store := snd (save_peer v (env_db_faults v) peer (as_trust_store s)),
       as_state := TrustedSession\<rparr>)"
proof -
  have "inbox (as_framed (sent bm s)) = bt @ rest" using assms(6) by (simp add: sent_def)
  from recv_pairing_pipe [OF assms(1,3) this, of n] send_pairing_pipe [OF assms(1,2), of s]
  show ?thesis using assms(4,5,7,8)
    by (simp add: finish_pairing_def conclude_pairing_def sbind_def store_save_def set_state_def
        statement_defs sql_ok_def sent_def got_def)
qed

lemma got_sent_sel [simp]:
  "as_remote_name (sent b s) = as_remote_name s" "as_remote_name (got r s) = as_remote_name s"
  "as_trust_store (sent b s) = as_trust_store s" "as_trust_store (got r s) = as_trust_store s"
  "as_local_identity (got r s) = as_local_identity s" "as_local_name (got r s) = as_local_name s"
  "as_local_device_type (got r s) = as_local_device_type s"
  "inbox (as_framed (sent b s)) = inbox (as_framed s)" "inbox (as_framed (got r s)) = r"
  "outbox (as_framed (sent b s)) = outbox (as_framed s) @ b" "outbox (as_framed (got r s)) = outbox (as_framed s)"
  by (simp_all add: sent_def got_def)

lemma new_initiator_parts:
  "(case new_initiator c n t k nm d of (ps, req) \<Rightarrow> f ps req) =
     f (fst (new_initiator c n t k nm d)) (request_of c n t k nm d)"
  by (simp add: request_of_def split_def)

lemma initiator_completes:
  assumes v: "piped v"
    and local: "as_local_identity s = ki" "as_local_name s = nmi" "as_local_device_type s = di"
    and wire: "on_wire v (Request (request_of v ni t0 ki nmi di)) ba"
      "on_wire v (Response (response_of v nr t1 kr nmr dr)) bb"
      "on_wire v (Confirm ci) bc" "on_wire v (Confirm cr) bd"
    and conf: "confirm v (ready_session v ki nmi di ni (peer_of v kr nmr dr t2 Pending) nr) = Inr ci"
      "fst (finalize v cr (ready_session v ki nmi di ni (peer_of v kr nmr dr t2 Pending) nr)) = Inr peer"
    and inb: "inbox (as_framed s) = bb @ bd @ rest"
    and yes: "confirmer (sas_derive v (identity_node_id v ki) (identity_node_id v kr) ni nr) (as_remote_name s)"
    and db: "env_db_faults v SqlSave = None"
  shows "\<exists>t. execute_pairing v (Suc n) ni t0 t2 True confirmer s =
      (Inr (sas_derive v (identity_node_id v ki) (identity_node_id v kr) ni nr), t) \<and>
    as_state t = TrustedSession \<and> inbox (as_framed t) = rest \<and>
    outbox (as_framed t) = outbox (as_framed s) @ ba @ bc \<and>
    as_trust_store t = snd (save_peer v (env_db_faults v) peer (as_trust_store s))"
proof -
  let ?sas = "sas_derive v (identity_node_id v ki) (identity_node_id v kr) ni nr"
  let ?ps = "ready_session v ki nmi di ni (peer_of v kr nmr dr t2 Pending) nr"
  let ?s0 = "s\<lparr>as_state := Pairing\<rparr>"
  have ed: "ed25519_correct v" using v by (simp add: piped_def)
  have "inbox (as_framed (sent ba ?s0)) = bb @ bd @ rest" using inb by simp
  note io = send_pairing_pipe [OF v wire(1), of ?s0] recv_pairing_pipe [OF v wire(2) this, of n]
  have "execute_pairing v (Suc n) ni t0 t2 True confirmer s =
      finish_pairing v (Suc n) confirmer ?ps ?sas (got (bd @ rest) (sent ba ?s0))"
    using io local initiator_ready [OF ed, of t2 nr t1 kr nmr dr ni t0 ki nmi di]
    by (simp add: execute_pairing_eq pair_initiator_def sbind_def new_initiator_parts)
  also have "\<dots> = (Inr ?sas, (got rest (sent bc (got (bd @ rest) (sent ba ?s0))))
      \<lparr>as_trust_store := snd (save_peer v (env_db_faults v) peer (as_trust_store s)),
       as_state := TrustedSession\<rparr>)"
    using finish_pairing_pipe [OF v wire(3,4) conf, of "got (bd @ rest) (sent ba ?s0)" rest confirmer ?sas n]
      yes db by simp
  finally show ?thesis by simp
qed

lemma responder_completes:
  assumes v: "piped v"
    and local: "as_local_identity s = kr" "as_local_name s = nmr" "as_local_device_type s = dr"
    and wire: "on_wire v (Request (request_of v ni t0 ki nmi di)) ba"
      "on_wire v (Response (response_of v nr t1 kr nmr dr)) bb"
      "on_wire v (Confirm ci) bc" "on_wire v (Confirm cr) bd"
    and conf: "confirm v (ready_session v kr nmr dr nr (peer_of v ki nmi di t1 Pending) ni) = Inr cr"
      "fst (finalize v ci (ready_session v kr nmr dr nr (peer_of v ki nmi di t1 Pending) ni)) = Inr peer"
    and inb: "inbox (as_framed s) = ba @ bc @ rest"
    and yes: "confirmer (sas_derive v (identity_node_id v kr) (identity_node_id v ki) nr ni) (as_remote_name s)"
    and db: "env_db_faults v SqlSave = None"
  shows "\<exists>t. execute_pairing v (Suc n) nr t1 t2 False confirmer s =
      (Inr (sas_derive v (identity_node_id v kr) (identity_node_id v ki) nr ni), t) \<and>
    as_state t = TrustedSession \<and> inbox (as_framed t) = rest \<and>
    outbox (as_framed t) = outbox (as_framed s) @ bb @ bd \<and>
    as_trust_store t = snd (save_peer v (env_db_faults v) peer (as_trust_store s))"
proof -
  let ?sas = "sas_derive v (identity_node_id v kr) (identity_node_id v ki) nr ni"
  let ?ps = "ready_session v kr nmr dr nr (peer_of v ki nmi di t1 Pending) ni"
  let ?s0 = "s\<lparr>as_state := Pairing\<rparr>"
  have ed: "ed25519_correct v" using v by (simp add: piped_def)
  have "inbox (as_framed ?s0) = ba @ bc @ rest" using inb by simp
  note io = recv_pairing_pipe [OF v wire(1) this, of n]
    send_pairing_pipe [OF v wire(2), of "got (bc @ rest) ?s0"]
  have "execute_pairing v (Suc n) nr t1 t2 False confirmer s =
      finish_pairing v (Suc n) confirmer ?ps ?sas (sent bb (got (bc @ rest) ?s0))"
    using io local responder_ready [OF ed, of nr t1 kr nmr dr ni t0 ki nmi di]
    by (simp add: execute_pairing_eq pair_responder_def sbind_def)
  also have "\<dots> = (Inr ?sas, (got rest (sent bd (sent bb (got (bc @ rest) ?s0))))
      \<lparr>as_trust_store := snd (save_peer v (env_db_faults v) peer (as_trust_store s)),
       as_state := TrustedSession\<rparr>)"
    using finish_pairing_pipe [OF v wire(4,3) conf, of "sent bb (got (bc @ rest) ?s0)" rest confirmer ?sas n]
      yes db by simp
  finally show ?thesis by simp
qed

lemma saved_is_trusted:
  assumes "hex_roundtrip c" "store_inv c db" "ed25519_correct c"
    and "0 \<le> sint t" "df SqlSave = None" "df SqlGet = None"
  shows "is_trusted c df (identity_node_id c k) (public_of c k)
    (snd (save_peer c df (peer_of c k nm d t Trusted) db)) = Inr True"
proof -
  let ?p = "peer_of c k nm d t Trusted"
  have wf: "peer_wf c ?p" using assms(3,4)
    by (simp add: peer_wf_def peer_of_def public_of_def ed25519_correctD)
  have "save_peer c df ?p db = (Inr (), snd (save_peer c df ?p db))"
    using assms(5) by (simp add: statement_defs)
  from sqlite.put_law [OF _ wf this] assms(1-3)
  have "trust_view c (snd (save_peer c df ?p db)) (identity_node_id c k) =
      Some (merge_peer (trust_view c db (identity_node_id c k)) ?p)"
    and "store_inv c (snd (save_peer c df ?p db))"
    by (simp_all add: peer_of_def)
  then show ?thesis
    using assms(1,6) by (simp add: is_trusted_def get_peer_view merge_peer_def peer_of_def split: option.split)
qed

text \<open>C7: honest peers pair. When both users accept and the databases work, one run of the
  ceremony over a pipe on which each side reads what the other writes succeeds on both sides
  with the same short authentication string; both sessions become trusted, nothing is left
  unread, and each trust store now reports the other device's key as trusted.\<close>

theorem honest_pairing:
  assumes "piped v" "hex_roundtrip v"
    and "env_db_faults v SqlSave = None" "env_db_faults v SqlGet = None"
    and "identity_node_id v ki \<noteq> identity_node_id v kr"
    and "as_local_identity si = ki" "as_local_name si = nmi" "as_local_device_type si = di"
    and "as_local_identity sr = kr" "as_local_name sr = nmr" "as_local_device_type sr = dr"
    and "store_inv v (as_trust_store si)" "store_inv v (as_trust_store sr)"
    and "0 \<le> sint t1" "0 \<le> sint t2"
    and "confirm v (ready_session v ki nmi di ni (peer_of v kr nmr dr t2 Pending) nr) = Inr ci"
    and "confirm v (ready_session v kr nmr dr nr (peer_of v ki nmi di t1 Pending) ni) = Inr cr"
    and "on_wire v (Request (request_of v ni t0 ki nmi di)) ba" "on_wire v (Confirm ci) bc"
    and "on_wire v (Response (response_of v nr t1 kr nmr dr)) bb" "on_wire v (Confirm cr) bd"
    and "inbox (as_framed si) = bb @ bd" "inbox (as_framed sr) = ba @ bc"
    and "outbox (as_framed si) = []" "outbox (as_framed sr) = []"
    and "cfi (sas_derive v (identity_node_id v ki) (identity_node_id v kr) ni nr) (as_remote_name si)"
    and "cfr (sas_derive v (identity_node_id v kr) (identity_node_id v ki) nr ni) (as_remote_name sr)"
  shows "\<exists>sas ti tr.
    execute_pairing v (Suc n) ni t0 t2 True cfi si = (Inr sas, ti) \<and>
    execute_pairing v (Suc n) nr t1 t3 False cfr sr = (Inr sas, tr) \<and>
    as_state ti = TrustedSession \<and> as_state tr = TrustedSession \<and>
    outbox (as_framed ti) = inbox (as_framed sr) \<and> outbox (as_framed tr) = inbox (as_framed si) \<and>
    inbox (as_framed ti) = [] \<and> inbox (as_framed tr) = [] \<and>
    is_trusted v (env_db_faults v) (identity_node_id v kr) (public_of v kr) (as_trust_store ti) = Inr True \<and>
    is_trusted v (env_db_faults v) (identity_node_id v ki) (public_of v ki) (as_trust_store tr) = Inr True"
proof -
  have ed: "ed25519_correct v" using assms(1) by (simp add: piped_def)
  have fin: "fst (finalize v cr (ready_session v ki nmi di ni (peer_of v kr nmr dr t2 Pending) nr)) =
        Inr (peer_of v kr nmr dr t2 Trusted)"
      "fst (finalize v ci (ready_session v kr nmr dr nr (peer_of v ki nmi di t1 Pending) ni)) =
        Inr (peer_of v ki nmi di t1 Trusted)"
    using confirm_finalize [OF ed assms(5), where nma = nmi and da = di and ta = t1 and nmb = nmr and
        db = dr and tb = t2 and na = ni and nb = nr]
      confirm_finalize [OF ed assms(5) [symmetric], where nma = nmr and da = dr and ta = t2 and
        nmb = nmi and db = di and tb = t1 and na = nr and nb = ni] assms(16,17) by auto
  have inb: "inbox (as_framed si) = bb @ bd @ []" "inbox (as_framed sr) = ba @ bc @ []"
    using assms(22,23) by simp_all
  have sas: "sas_derive v (identity_node_id v kr) (identity_node_id v ki) nr ni =
      sas_derive v (identity_node_id v ki) (identity_node_id v kr) ni nr"
    by (rule sas_derive_swap [OF assms(5), symmetric])
  from initiator_completes [where confirmer = cfi, OF assms(1,6-8,18,20,19,21,16) fin(1) inb(1) assms(26,3), of n]
    responder_completes [where confirmer = cfr, OF assms(1,9-11,18,20,19,21,17) fin(2) inb(2) assms(27,3), of n t3]
    saved_is_trusted [OF assms(2,12) ed assms(15,3,4), of kr nmr dr]
    saved_is_trusted [OF assms(2,13) ed assms(14,3,4), of ki nmi di]
  show ?thesis using assms(22-25) unfolding sas by fastforce
qed

section \<open>A concrete pair of devices\<close>

text \<open>A pipe environment on the sample crates, for given tables of frames and messages.\<close>

definition sample_env ::
    "frame postcard \<Rightarrow> pairing_message postcard \<Rightarrow> (pipe, memory_backend) session_env" where
  "sample_env fr pa =
     \<lparr>sha256 = sha256 sample_crates, blake3 = blake3 sample_crates, ed_public = ed_public sample_crates,
      ed_sign = ed_sign sample_crates, ed_key_check = ed_key_check sample_crates,
      ed_verify_strict = ed_verify_strict sample_crates, hex_encode = hex_encode sample_crates,
      hex_decode = hex_decode sample_crates, hex_decode_to_slice = hex_decode_to_slice sample_crates,
      env_io = pipe_ops, env_frames = fr, env_pairing = pa, env_transfer = table_codec [],
      env_clip = table_codec [], env_backend = memory_clipboard, env_fs_faults = no_faults,
      env_db_faults = no_db_faults, env_debug_frame = (\<lambda>_. ''frame''),
      env_debug_pairing = (\<lambda>_. ''pairing'')\<rparr>"

lemma sample_env_sel [simp]:
  "sha256 (sample_env fr pa) = sample_digest" "ed_public (sample_env fr pa) = sample_public"
  "ed_sign (sample_env fr pa) k m = sample_tag (sample_public k) m"
  "env_io (sample_env fr pa) = pipe_ops" "env_frames (sample_env fr pa) = fr"
  "env_pairing (sample_env fr pa) = pa" "env_db_faults (sample_env fr pa) = no_db_faults"
  "hex_encode (sample_env fr pa) = sample_hex_encode"
  by (simp_all add: sample_env_def fun_eq_iff)

lemma sample_env_lawful [simp]:
  "ed25519_correct (sample_env fr pa)" "hex_roundtrip (sample_env fr pa)"
  using sample_ed25519 sample_hex
  by (simp_all add: sample_env_def ed25519_correct_def hex_roundtrip_def)

lemma sample_env_same:
  "identity_node_id (sample_env fr pa) k = identity_node_id sample_crates k"
  "public_of (sample_env fr pa) k = public_of sample_crates k"
  "sas_derive (sample_env fr pa) a b na nb = sas_derive sample_crates a b na nb"
  "request_of (sample_env fr pa) nonce now k nm d = request_of sample_crates nonce now k nm d"
  "response_of (sample_env fr pa) nonce now k nm d = response_of sample_crates nonce now k nm d"
  "confirm (sample_env fr pa) ps = confirm sample_crates ps"
  "ready_session (sample_env fr pa) k nm d nonce p rn = ready_session sample_crates k nm d nonce p rn"
  "peer_of (sample_env fr pa) k nm d now st = peer_of sample_crates k nm d now st"
  "client_hello_of (sample_env fr pa) cn k nm = client_hello_of sample_crates cn k nm"
  "server_hello_of (sample_env fr pa) sn k nm h = server_hello_of sample_crates sn k nm h"
  "sign_handshake_challenge (sample_env fr pa) k cn sn = sign_handshake_challenge sample_crates k cn sn"
  by (simp_all add: identity_node_id_def public_of_def sas_derive_def request_of_def new_initiator_def
      response_of_def ready_session_def peer_of_def confirm_def compute_confirmation_hash_def sign_def client_hello_of_def
      server_hello_of_def sign_handshake_challenge_def Let_def split: option.split cong: option.case_cong)

text \<open>The frames and messages of a run between \<open>''a''\<close> and \<open>''b''\<close>, with a code for each.\<close>

definition sample_request :: pairing_request where
  "sample_request = request_of sample_crates [3] 5 (IdentityKey [1]) ''a'' Linux"

definition sample_response :: pairing_response where
  "sample_response = response_of sample_crates [4] 6 (IdentityKey [2]) ''b'' Android"

definition sample_confirm :: "identity_key \<Rightarrow> string \<Rightarrow> device_type \<Rightarrow> bytes \<Rightarrow> trusted_peer \<Rightarrow> bytes \<Rightarrow> pairing_confirm" where
  "sample_confirm k nm d nonce peer rn =
     (case confirm sample_crates (ready_session sample_crates k nm d nonce peer rn) of Inr cf \<Rightarrow> cf)"

definition confirm_a :: pairing_confirm where
  "confirm_a = sample_confirm (IdentityKey [1]) ''a'' Linux [3]
     (peer_of sample_crates (IdentityKey [2]) ''b'' Android 7 Pending) [4]"

definition confirm_b :: pairing_confirm where
  "confirm_b = sample_confirm (IdentityKey [2]) ''b'' Android [4]
     (peer_of sample_crates (IdentityKey [1]) ''a'' Linux 6 Pending) [3]"

lemma sample_confirm_eq:
  "confirm sample_crates (ready_session sample_crates k nm d nonce peer rn) =
     Inr (sample_confirm k nm d nonce peer rn)"
  "pconf_node_id (sample_confirm k nm d nonce peer rn) = identity_node_id sample_crates k"
  by (simp_all add: sample_confirm_def confirm_def ready_session_def Let_def)

definition sample_messages :: "(pairing_message \<times> bytes) list" where
  "sample_messages =
     [(Request sample_request, [1]), (Response sample_response, [2]),
      (Confirm confirm_a, [3]), (Confirm confirm_b, [4])]"

definition sample_handshake :: "frame list" where
  "sample_handshake =
     handshake_frames sample_crates (IdentityKey [1]) ''a'' [3] (IdentityKey [2]) ''b'' [4]"

definition sample_frames :: "(frame \<times> bytes) list" where
  "sample_frames =
     zip sample_handshake [[11], [12], [13], [14]] @
     map (\<lambda>b. (Data (data_frame_new CHANNEL_PAIRING [b]), [20 + b])) [1, 2, 3, 4]"

definition devices :: "(pipe, memory_backend) session_env" where
  "devices = sample_env (table_codec sample_frames) (table_codec sample_messages)"

definition coded :: "8 word \<Rightarrow> bytes" where
  "coded b = MAGIC @ be_bytes 4 1 @ [b]"

lemma devices_piped: "piped devices"
  by (simp add: piped_def devices_def table_codec_roundtrip sample_frames_def sample_messages_def
      sample_handshake_def handshake_frames_def)

lemma devices_handshake:
  "map (encode_frame (env_frames devices))
     (handshake_frames devices (IdentityKey [1]) ''a'' [3] (IdentityKey [2]) ''b'' [4]) =
     map Inr [coded 11, coded 12, coded 13, coded 14]"
  by (simp add: devices_def encode_frame_Inr_iff table_codec_def sample_frames_def sample_handshake_def
      handshake_frames_def sample_env_same coded_def MAX_FRAME_LENGTH_def)

lemma devices_store [simp]: "env_db_faults devices = no_db_faults" "hex_roundtrip devices" "ed25519_correct devices"
  by (simp_all add: devices_def)

lemma node_ids_differ:
  "identity_node_id devices (IdentityKey [a]) = identity_node_id devices (IdentityKey [b]) \<longleftrightarrow> a = b"
  by (simp add: devices_def identity_node_id_def key_node_id_def public_of_def sample_public_def)

lemma confirms_differ: "confirm_a \<noteq> confirm_b"
proof
  assume "confirm_a = confirm_b"
  then have "pconf_node_id confirm_a = pconf_node_id confirm_b" by simp
  then show False
    by (simp add: confirm_a_def confirm_b_def sample_confirm_eq identity_node_id_def key_node_id_def
        public_of_def sample_public_def)
qed

lemma devices_on_wire:
  "on_wire devices (Request sample_request) (coded 21)" "on_wire devices (Response sample_response) (coded 22)"
  "on_wire devices (Confirm confirm_a) (coded 23)" "on_wire devices (Confirm confirm_b) (coded 24)"
  using confirms_differ
  by (auto simp: on_wire_def devices_def pairing_to_data_frame_def encode_frame_Inr_iff table_codec_def
      sample_frames_def sample_messages_def sample_handshake_def handshake_frames_def coded_def
      MAX_FRAME_LENGTH_def data_frame_new_def)

definition blank_fs :: fs where
  "blank_fs = \<lparr>files = Map.empty, modes = Map.empty\<rparr>"

definition sample_link :: "bytes \<Rightarrow> trust_db \<Rightarrow> pipe link" where
  "sample_link b db = \<lparr>lk_stream = \<lparr>inbox = b, outbox = []\<rparr>, lk_store = db\<rparr>"

lemma empty_store [simp]:
  "store_inv c empty_db" "trust_view c empty_db n = None" "is_trusted c no_db_faults n k empty_db = Inr False"
  by (simp_all add: store_inv_def empty_db_def trust_view_def get_peer_def is_trusted_def sql_ok_def)

lemma sample_server_run:
  assumes "is_trusted devices no_db_faults (identity_node_id devices (IdentityKey [1]))
    (public_of devices (IdentityKey [1])) db = Inr tr"
  shows "\<exists>s l'. server_handshake devices [4] 9 (IdentityKey [2]) ''b'' Android None None fs0
      (sample_link (coded 11 @ coded 13) db) = (Inr s, l') \<and>
    as_remote_node_id s = identity_node_id devices (IdentityKey [1])"
  using server_completes [OF devices_piped devices_handshake, of "sample_link (coded 11 @ coded 13) db" "[]" tr]
    assms by (fastforce simp: sample_link_def)

theorem honest_handshake_witness:
  "\<exists>ss ls' sc lc'.
    server_handshake devices [4] 9 (IdentityKey [2]) ''b'' Android None None blank_fs
      (sample_link (coded 11 @ coded 13) empty_db) = (Inr ss, ls') \<and>
    client_handshake devices [3] 9 (IdentityKey [1]) ''a'' Linux None None blank_fs
      (sample_link (coded 12 @ coded 14) empty_db) = (Inr sc, lc') \<and>
    outbox (lk_stream ls') = coded 12 @ coded 14 \<and>
    as_remote_name ss = ''a'' \<and> as_remote_name sc = ''b'' \<and>
    \<not> state_is_trusted (as_state ss) \<and> \<not> state_is_trusted (as_state sc)"
  using honest_handshake [OF devices_piped devices_handshake,
      of "sample_link (coded 11 @ coded 13) empty_db" "sample_link (coded 12 @ coded 14) empty_db" False False
      9 Android None None blank_fs 9 Linux None None blank_fs]
  by (auto simp: sample_link_def)

theorem server_handshake_authenticates_witness:
  "\<exists>s l' hello resp.
    server_handshake devices [4] 9 (IdentityKey [2]) ''b'' Android None None blank_fs
      (sample_link (coded 11 @ coded 13) empty_db) = (Inr s, l') \<and>
    as_remote_node_id s = identity_node_id devices (IdentityKey [1]) \<and>
    as_remote_node_id s = ch_node_id (hello :: client_hello) \<and>
    verify_handshake_challenge devices (as_remote_pubkey s) (ch_client_nonce hello) [4]
      (signature (resp :: auth_response)) = Inr ()"
proof -
  obtain s l' where run: "server_handshake devices [4] 9 (IdentityKey [2]) ''b'' Android None None blank_fs
      (sample_link (coded 11 @ coded 13) empty_db) = (Inr s, l')"
      "as_remote_node_id s = identity_node_id devices (IdentityKey [1])"
    using sample_server_run [OF empty_store(3)] by blast
  from server_handshake_authenticates [OF run(1)] run show ?thesis by blast
qed

text \<open>A store in which a third device is revoked.\<close>

definition revoked_db :: trust_db where
  "revoked_db = snd (save_peer devices no_db_faults
     (peer_of devices (IdentityKey [9]) ''c'' MacOS 1 Revoked) empty_db)"

lemma revoked_db_view:
  "store_inv devices revoked_db"
  "node_id_wf n \<Longrightarrow> trust_view devices revoked_db n =
     (if n = identity_node_id devices (IdentityKey [9])
      then Some (peer_of devices (IdentityKey [9]) ''c'' MacOS 1 Revoked) else None)"
proof -
  let ?p = "peer_of devices (IdentityKey [9]) ''c'' MacOS 1 Revoked"
  have wf: "peer_wf devices ?p"
    by (simp add: peer_wf_def peer_of_def public_of_def ed25519_correctD)
  have "save_peer devices no_db_faults ?p empty_db = (Inr (), revoked_db)"
    by (simp add: revoked_db_def statement_defs)
  from sqlite.put_law [OF _ wf this]
  show "store_inv devices revoked_db"
    "node_id_wf n \<Longrightarrow> trust_view devices revoked_db n =
     (if n = identity_node_id devices (IdentityKey [9]) then Some ?p else None)"
    by (simp_all add: peer_of_def merge_peer_def)
qed

theorem revoked_peer_refused_witness:
  "\<exists>s l'. trust_view devices revoked_db (identity_node_id devices (IdentityKey [9])) =
      Some (peer_of devices (IdentityKey [9]) ''c'' MacOS 1 Revoked) \<and>
    server_handshake devices [4] 9 (IdentityKey [2]) ''b'' Android None None blank_fs
      (sample_link (coded 11 @ coded 13) revoked_db) = (Inr s, l') \<and>
    as_remote_node_id s \<noteq> identity_node_id devices (IdentityKey [9])"
proof -
  have view: "trust_view devices revoked_db (identity_node_id devices (IdentityKey [9])) =
      Some (peer_of devices (IdentityKey [9]) ''c'' MacOS 1 Revoked)"
    by (simp add: revoked_db_view)
  have st: "tp_trust_state (peer_of devices (IdentityKey [9]) ''c'' MacOS 1 Revoked) = Revoked"
    by (simp add: peer_of_def)
  have "is_trusted devices no_db_faults (identity_node_id devices (IdentityKey [1]))
      (public_of devices (IdentityKey [1])) revoked_db = Inr False"
    by (simp add: is_trusted_def get_peer_view revoked_db_view node_ids_differ)
  then obtain s l' where run: "server_handshake devices [4] 9 (IdentityKey [2]) ''b'' Android None None blank_fs
      (sample_link (coded 11 @ coded 13) revoked_db) = (Inr s, l')"
    using sample_server_run by blast
  have "store_inv devices (lk_store (sample_link (coded 11 @ coded 13) revoked_db))"
    "trust_view devices (lk_store (sample_link (coded 11 @ coded 13) revoked_db))
       (identity_node_id devices (IdentityKey [9])) = Some (peer_of devices (IdentityKey [9]) ''c'' MacOS 1 Revoked)"
    using view by (simp_all add: sample_link_def revoked_db_view)
  from revoked_peer_refused [OF devices_store(2) this st disjI1 [OF run]] view run
  show ?thesis by blast
qed

text \<open>The sessions of \<open>''a''\<close> and \<open>''b''\<close> before the ceremony.\<close>

definition sample_session ::
    "identity_key \<Rightarrow> string \<Rightarrow> device_type \<Rightarrow> bytes \<Rightarrow> (pipe, memory_backend) active_session" where
  "sample_session k nm d b =
     (new_session k nm d (NodeId []) (PublicKey []) ''peer'' AuthenticatedUntrusted None None blank_fs
        (sample_link b empty_db))"

lemma sample_session_sel [simp]:
  "as_local_identity (sample_session k nm d b) = k" "as_local_name (sample_session k nm d b) = nm"
  "as_local_device_type (sample_session k nm d b) = d" "as_trust_store (sample_session k nm d b) = empty_db"
  "as_framed (sample_session k nm d b) = \<lparr>inbox = b, outbox = []\<rparr>"
  "as_state (sample_session k nm d b) = AuthenticatedUntrusted"
  "as_remote_name (sample_session k nm d b) = ''peer''"
  by (simp_all add: sample_session_def new_session_def sample_link_def)

lemma sample_confirms:
  "confirm devices (ready_session devices (IdentityKey [1]) ''a'' Linux [3]
     (peer_of devices (IdentityKey [2]) ''b'' Android 7 Pending) [4]) = Inr confirm_a"
  "confirm devices (ready_session devices (IdentityKey [2]) ''b'' Android [4]
     (peer_of devices (IdentityKey [1]) ''a'' Linux 6 Pending) [3]) = Inr confirm_b"
  by (simp_all add: devices_def sample_env_same sample_confirm_eq confirm_a_def confirm_b_def)

theorem honest_pairing_witness:
  "\<exists>sas ta tb.
    execute_pairing devices 1 [3] 5 7 True (auto_confirm True)
      (sample_session (IdentityKey [1]) ''a'' Linux (coded 22 @ coded 24)) = (Inr sas, ta) \<and>
    execute_pairing devices 1 [4] 6 0 False (auto_confirm True)
      (sample_session (IdentityKey [2]) ''b'' Android (coded 21 @ coded 23)) = (Inr sas, tb) \<and>
    as_state ta = TrustedSession \<and> as_state tb = TrustedSession"
proof -
  have wires: "on_wire devices (Request (request_of devices [3] 5 (IdentityKey [1]) ''a'' Linux)) (coded 21)"
    "on_wire devices (Response (response_of devices [4] 6 (IdentityKey [2]) ''b'' Android)) (coded 22)"
    using devices_on_wire(1,2) by (simp_all add: devices_def sample_env_same sample_request_def sample_response_def)
  have "identity_node_id devices (IdentityKey [1]) \<noteq> identity_node_id devices (IdentityKey [2])"
    by (simp add: node_ids_differ)
  from honest_pairing [where cfi = "auto_confirm True" and cfr = "auto_confirm True" and n = 0 and ?t3.0 = 0,
      OF devices_piped devices_store(2) _ _ this, where
      si = "sample_session (IdentityKey [1]) ''a'' Linux (coded 22 @ coded 24)" and
      sr = "sample_session (IdentityKey [2]) ''b'' Android (coded 21 @ coded 23)",
      OF _ _ _ _ _ _ _ _ _ _ _ _ sample_confirms wires(1) devices_on_wire(3) wires(2) devices_on_wire(4)]
  show ?thesis by (auto simp: auto_confirm_def)
qed

theorem pairing_sound_witness:
  "\<exists>sas t.
    execute_pairing devices 1 [3] 5 7 True (auto_confirm True)
      (sample_session (IdentityKey [1]) ''a'' Linux (coded 22 @ coded 24)) = (Inr sas, t) \<and>
    auto_confirm True sas ''peer'' \<and> as_state t = TrustedSession"
proof -
  have wires: "on_wire devices (Request (request_of devices [3] 5 (IdentityKey [1]) ''a'' Linux)) (coded 21)"
    "on_wire devices (Response (response_of devices [4] 6 (IdentityKey [2]) ''b'' Android)) (coded 22)"
    using devices_on_wire(1,2) by (simp_all add: devices_def sample_env_same sample_request_def sample_response_def)
  have "fst (finalize devices confirm_b (ready_session devices (IdentityKey [1]) ''a'' Linux [3]
      (peer_of devices (IdentityKey [2]) ''b'' Android 7 Pending) [4])) =
      Inr (peer_of devices (IdentityKey [2]) ''b'' Android 7 Trusted)"
    using confirm_finalize [of devices "IdentityKey [2]" "IdentityKey [1]",
        where nma = "''b''" and da = Android and ta = 7 and nmb = "''a''" and db = Linux and tb = 6
          and na = "[4]" and nb = "[3]"]
    by (simp add: node_ids_differ sample_confirms)
  from initiator_completes [where confirmer = "auto_confirm True" and n = 0 and rest = "[]",
      OF devices_piped _ _ _ wires devices_on_wire(3,4) sample_confirms(1) this, where
      s = "sample_session (IdentityKey [1]) ''a'' Linux (coded 22 @ coded 24)"]
  obtain sas t where run: "execute_pairing devices 1 [3] 5 7 True (auto_confirm True)
      (sample_session (IdentityKey [1]) ''a'' Linux (coded 22 @ coded 24)) = (Inr sas, t)"
    by (auto simp: auto_confirm_def)
  from pairing_sound [OF run] run show ?thesis by auto
qed

theorem untrusted_session_inert_witness:
  "\<not> state_is_trusted (as_state (sample_session (IdentityKey [1]) ''a'' Linux (coded 21 @ coded 23))) \<and>
   untouched (sample_session (IdentityKey [1]) ''a'' Linux (coded 21 @ coded 23))
     (((\<lambda>t. snd (process_next_frame devices t)) ^^ 3)
        (sample_session (IdentityKey [1]) ''a'' Linux (coded 21 @ coded 23)))"
  using untrusted_session_inert [where v = devices and n = 3 and
      s = "sample_session (IdentityKey [1]) ''a'' Linux (coded 21 @ coded 23)"]
  by simp

theorem client_trusts_unproven_server_witness:
  "\<exists>s l'. client_handshake devices [3] 9 (IdentityKey [1]) ''a'' Linux None None blank_fs
      (sample_link (coded 12 @ coded 14) (snd (save_peer devices no_db_faults
         (peer_of devices (IdentityKey [2]) ''b'' Android 6 Trusted) empty_db))) = (Inr s, l') \<and>
    as_state s = TrustedSession"
proof -
  let ?hello = "server_hello_of devices [4] (IdentityKey [2]) ''b'' (client_hello_of devices [3] (IdentityKey [1]) ''a'')"
  let ?db = "snd (save_peer devices no_db_faults (peer_of devices (IdentityKey [2]) ''b'' Android 6 Trusted) empty_db)"
  have "is_trusted devices (env_db_faults devices) (sh_node_id ?hello) (public_of devices (IdentityKey [2]))
      (lk_store (sample_link (coded 12 @ coded 14) ?db)) = Inr True"
    using saved_is_trusted [of devices empty_db 6 no_db_faults "IdentityKey [2]" "''b''" Android]
    by (simp add: sample_link_def)
  from client_trusts_unproven_server [where hello = ?hello and cn = "[3]" and kc = "IdentityKey [1]" and nmc = "''a''"
      and ba = "coded 11" and bb = "coded 12" and bc = "coded 13" and bd = "coded 14",
      OF devices_piped _ _ _ _ _ _ this, of 9 Linux None None blank_fs]
    devices_handshake peer_key_own [of devices "IdentityKey [2]"]
  show ?thesis by (fastforce simp: handshake_frames_def sample_link_def)
qed

end
