(* ===== verification/Peer_Directory.thy ===== *)
theory Peer_Directory
  imports Core_Types "HOL-Library.AList"
begin

text \<open>
  The directory of peers seen on the local network, \<open>crates/bridge-discovery/src/peer.rs\<close>, and
  the events discovery emits about it (\<open>service.rs\<close>). Times are nanoseconds and arguments of
  the operations that read the clock. The hash map is an association list; its order stands
  for the unspecified order of iteration. An operation holds the lock during the whole call.
\<close>

section \<open>Addresses and time\<close>

datatype ip_addr = V4 "32 word" | V6 "128 word"

record socket_addr =
  sa_ip :: ip_addr
  sa_port :: u16

definition socket_addr_new :: "ip_addr \<Rightarrow> u16 \<Rightarrow> socket_addr" where
  "socket_addr_new ip port = \<lparr>sa_ip = ip, sa_port = port\<rparr>"

type_synonym system_time = int
type_synonym duration = nat

text \<open>\<open>SystemTime::duration_since\<close>, an error for a time that lies ahead.\<close>

definition duration_since :: "system_time \<Rightarrow> system_time \<Rightarrow> duration option" where
  "duration_since later earlier = (if earlier \<le> later then Some (nat (later - earlier)) else None)"

definition from_secs :: "nat \<Rightarrow> duration" where
  "from_secs n = n * 1000000000"

section \<open>Peers\<close>

record discovered_peer =
  dp_node_id :: node_id
  dp_device_name :: string
  dp_device_type :: device_type
  dp_addresses :: "socket_addr list"
  dp_capabilities :: capabilities
  dp_last_seen :: system_time

definition discovered_peer_new ::
    "system_time \<Rightarrow> node_id \<Rightarrow> string \<Rightarrow> device_type \<Rightarrow> socket_addr list \<Rightarrow> capabilities \<Rightarrow> discovered_peer" where
  "discovered_peer_new now n nm dt addrs caps =
     \<lparr>dp_node_id = n, dp_device_name = nm, dp_device_type = dt, dp_addresses = addrs,
      dp_capabilities = caps, dp_last_seen = now\<rparr>"

definition is_expired :: "system_time \<Rightarrow> duration \<Rightarrow> discovered_peer \<Rightarrow> bool" where
  "is_expired now max_age p =
     (case duration_since now (dp_last_seen p) of
        Some elapsed \<Rightarrow> elapsed > max_age
      | None \<Rightarrow> False)"

definition touch :: "system_time \<Rightarrow> discovered_peer \<Rightarrow> discovered_peer" where
  "touch now p = p\<lparr>dp_last_seen := now\<rparr>"

section \<open>The directory\<close>

type_synonym peer_directory = "(node_id \<times> discovered_peer) list"

definition directory_new :: peer_directory where
  "directory_new = []"

fun add_addresses :: "socket_addr list \<Rightarrow> socket_addr list \<Rightarrow> socket_addr list" where
  "add_addresses [] known = known"
| "add_addresses (a # as) known = add_addresses as (if a \<in> set known then known else known @ [a])"

definition insert_or_update ::
    "system_time \<Rightarrow> discovered_peer \<Rightarrow> peer_directory \<Rightarrow> (discovered_peer \<times> bool) \<times> peer_directory" where
  "insert_or_update now peer d =
     (case map_of d (dp_node_id peer) of
        Some existing \<Rightarrow>
          let e = existing\<lparr>dp_device_name := dp_device_name peer, dp_device_type := dp_device_type peer,
                    dp_capabilities := dp_capabilities peer,
                    dp_addresses := add_addresses (dp_addresses peer) (dp_addresses existing),
                    dp_last_seen := now\<rparr>
          in ((e, False), AList.update (dp_node_id peer) e d)
      | None \<Rightarrow>
          let p = peer\<lparr>dp_last_seen := now\<rparr>
          in ((p, True), AList.update (dp_node_id peer) p d))"

definition directory_get :: "peer_directory \<Rightarrow> node_id \<Rightarrow> discovered_peer option" where
  "directory_get d n = map_of d n"

definition directory_remove :: "node_id \<Rightarrow> peer_directory \<Rightarrow> discovered_peer option \<times> peer_directory" where
  "directory_remove n d = (map_of d n, AList.delete n d)"

definition directory_list :: "peer_directory \<Rightarrow> discovered_peer list" where
  "directory_list d = map snd d"

definition directory_contains :: "peer_directory \<Rightarrow> node_id \<Rightarrow> bool" where
  "directory_contains d n = (map_of d n \<noteq> None)"

definition directory_len :: "peer_directory \<Rightarrow> nat" where
  "directory_len d = length d"

definition directory_is_empty :: "peer_directory \<Rightarrow> bool" where
  "directory_is_empty d = (directory_len d = 0)"

definition prune_expired ::
    "system_time \<Rightarrow> duration \<Rightarrow> peer_directory \<Rightarrow> discovered_peer list \<times> peer_directory" where
  "prune_expired now max_age d =
     (map snd (filter (\<lambda>(_, p). is_expired now max_age p) d),
      filter (\<lambda>(_, p). \<not> is_expired now max_age p) d)"

definition directory_clear :: "peer_directory \<Rightarrow> peer_directory" where
  "directory_clear d = []"

section \<open>Events\<close>

datatype discovery_event =
    PeerDiscovered discovered_peer
  | PeerUpdated discovered_peer
  | PeerLost node_id
  | PeerExpired node_id

text \<open>What a subscriber that replays the events knows.\<close>

fun replay_event :: "discovery_event \<Rightarrow> (node_id \<rightharpoonup> discovered_peer) \<Rightarrow> (node_id \<rightharpoonup> discovered_peer)" where
  "replay_event (PeerDiscovered p) m = m(dp_node_id p \<mapsto> p)"
| "replay_event (PeerUpdated p) m = m(dp_node_id p \<mapsto> p)"
| "replay_event (PeerLost n) m = m(n := None)"
| "replay_event (PeerExpired n) m = m(n := None)"

definition replay :: "discovery_event list \<Rightarrow> node_id \<rightharpoonup> discovered_peer" where
  "replay evs = fold replay_event evs Map.empty"

lemma replay_append: "replay (evs @ evs') = fold replay_event evs' (replay evs)"
  by (simp add: replay_def)

section \<open>The interface discovery relies on\<close>

text \<open>
  A registry of peers: the view is a map; an upsert returns the stored record and whether it
  is new, a removal the removed record, an expiry exactly the removed records.
\<close>

locale peer_registry =
  fixes view :: "'d \<Rightarrow> node_id \<rightharpoonup> discovered_peer"
    and invar :: "'d \<Rightarrow> bool"
    and upsert :: "system_time \<Rightarrow> discovered_peer \<Rightarrow> 'd \<Rightarrow> (discovered_peer \<times> bool) \<times> 'd"
    and discard :: "node_id \<Rightarrow> 'd \<Rightarrow> discovered_peer option \<times> 'd"
    and expire :: "system_time \<Rightarrow> duration \<Rightarrow> 'd \<Rightarrow> discovered_peer list \<times> 'd"
  assumes upsert_law: "\<lbrakk>invar d; upsert now p d = ((q, new), d')\<rbrakk> \<Longrightarrow> invar d' \<and>
      view d' = (view d)(dp_node_id p \<mapsto> q) \<and> dp_node_id q = dp_node_id p \<and>
      (new \<longleftrightarrow> view d (dp_node_id p) = None)"
    and discard_law: "\<lbrakk>invar d; discard n d = (r, d')\<rbrakk> \<Longrightarrow> invar d' \<and> r = view d n \<and>
      view d' = (view d)(n := None)"
    and expire_law: "\<lbrakk>invar d; expire now age d = (ps, d')\<rbrakk> \<Longrightarrow> invar d' \<and>
      (\<forall>p \<in> set ps. view d (dp_node_id p) = Some p) \<and>
      (\<forall>n. view d' n = (if n \<in> dp_node_id ` set ps then None else view d n))"
begin

lemma replay_upsert:
  assumes "invar d" "upsert now p d = ((q, new), d')" "replay evs = view d"
  shows "replay (evs @ [if new then PeerDiscovered q else PeerUpdated q]) = view d'"
  using upsert_law [OF assms(1,2)] assms(3) by (simp add: replay_append)

lemma replay_discard:
  assumes "invar d" "discard n d = (r, d')" "replay evs = view d"
  shows "replay (evs @ (if r = None then [] else [PeerLost n])) = view d'"
  using discard_law [OF assms(1,2)] assms(3) by (auto simp: replay_append)

lemma replay_expired_fold:
  "fold replay_event (map (\<lambda>p. PeerExpired (dp_node_id p)) ps) m =
     (\<lambda>n. if n \<in> dp_node_id ` set ps then None else m n)"
  by (induction ps arbitrary: m) auto

lemma replay_expire:
  assumes "invar d" "expire now age d = (ps, d')" "replay evs = view d"
  shows "replay (evs @ map (\<lambda>p. PeerExpired (dp_node_id p)) ps) = view d'"
  using expire_law [OF assms(1,2)] assms(3) by (auto simp: replay_append replay_expired_fold)

end

section \<open>The directory is such a registry\<close>

definition directory_inv :: "peer_directory \<Rightarrow> bool" where
  "directory_inv d \<longleftrightarrow> distinct (map fst d) \<and> list_all (\<lambda>(n, p). dp_node_id p = n) d"

lemma directory_inv_new [simp]: "directory_inv directory_new"
  by (simp add: directory_inv_def directory_new_def)

lemma directory_inv_update:
  assumes "directory_inv d" "dp_node_id p = n"
  shows "directory_inv (AList.update n p d)"
proof -
  have "set (AList.update n p d) \<subseteq> insert (n, p) (set d)"
    by (induction d) auto
  then have "list_all (\<lambda>(n, p). dp_node_id p = n) (AList.update n p d)"
    using assms by (auto simp: directory_inv_def list_all_iff)
  then show ?thesis using assms by (simp add: directory_inv_def distinct_update)
qed

lemma directory_inv_filter: "directory_inv d \<Longrightarrow> directory_inv (filter P d)"
  by (auto simp: directory_inv_def list_all_iff distinct_map inj_on_def)

lemma directory_inv_delete: "directory_inv d \<Longrightarrow> directory_inv (AList.delete n d)"
  by (simp add: AList.delete_eq directory_inv_filter)

lemma directory_mem:
  assumes "directory_inv d" "(n, p) \<in> set d"
  shows "map_of d n = Some p" "dp_node_id p = n"
  using assms by (auto simp: directory_inv_def list_all_iff)

interpretation dir: peer_registry map_of directory_inv insert_or_update directory_remove prune_expired
proof unfold_locales
  fix d now p q new d'
  assume inv: "directory_inv d" and run: "insert_or_update now p d = ((q, new), d')"
  show "directory_inv d' \<and> map_of d' = (map_of d)(dp_node_id p \<mapsto> q) \<and> dp_node_id q = dp_node_id p \<and>
      (new \<longleftrightarrow> map_of d (dp_node_id p) = None)"
  proof (cases "map_of d (dp_node_id p)")
    case None
    then show ?thesis using inv run
      by (auto simp: insert_or_update_def Let_def update_conv' directory_inv_update)
  next
    case (Some ex)
    then have "dp_node_id ex = dp_node_id p" using directory_mem(2) [OF inv] map_of_SomeD by metis
    then show ?thesis using inv run Some
      by (auto simp: insert_or_update_def Let_def update_conv' directory_inv_update)
  qed
next
  fix d n r d'
  assume "directory_inv d" "directory_remove n d = (r, d')"
  then show "directory_inv d' \<and> r = map_of d n \<and> map_of d' = (map_of d)(n := None)"
    by (auto simp: directory_remove_def directory_inv_delete delete_conv')
next
  fix d now age ps d'
  assume inv: "directory_inv d" and run: "prune_expired now age d = (ps, d')"
  have ps: "p \<in> set ps \<longleftrightarrow> (\<exists>n. (n, p) \<in> set d \<and> is_expired now age p)" for p
    using run by (force simp: prune_expired_def)
  have d': "directory_inv d'" using inv run by (auto simp: prune_expired_def directory_inv_filter)
  have "map_of d' n = (if n \<in> dp_node_id ` set ps then None else map_of d n)" for n
  proof (cases "map_of d n")
    case None
    then have "n \<notin> fst ` set d" by (simp add: map_of_eq_None_iff)
    then have "n \<notin> fst ` set d'" using run by (auto simp: prune_expired_def)
    then show ?thesis using None by (simp add: map_of_eq_None_iff [symmetric])
  next
    case (Some p)
    have mem: "(n, p) \<in> set d" using Some map_of_SomeD by metis
    show ?thesis
    proof (cases "is_expired now age p")
      case True
      then have "n \<in> dp_node_id ` set ps" using ps mem directory_mem(2) [OF inv mem] by blast
      moreover have "n \<notin> fst ` set d'"
        using run True directory_mem(1) [OF inv] Some by (auto simp: prune_expired_def)
      ultimately show ?thesis by (simp add: map_of_eq_None_iff [symmetric])
    next
      case False
      then have "(n, p) \<in> set d'" using run mem by (auto simp: prune_expired_def)
      moreover have "n \<notin> dp_node_id ` set ps"
        using False ps directory_mem [OF inv] Some by fastforce
      ultimately show ?thesis using directory_mem(1) [OF d'] Some by simp
    qed
  qed
  then show "directory_inv d' \<and> (\<forall>p \<in> set ps. map_of d (dp_node_id p) = Some p) \<and>
      (\<forall>n. map_of d' n = (if n \<in> dp_node_id ` set ps then None else map_of d n))"
    using d' ps directory_mem [OF inv] by metis
qed

end
