(* ===== verification/Utf8_Text.thy ===== *)
theory Utf8_Text
  imports Bridge_Prelude
begin

text \<open>
  What the code uses of \<open>str\<close> on UTF-8 bytes: character boundaries and the loop that walks
  back to one (in \<open>types.rs\<close> of the notifications and \<open>beacon.rs\<close> of discovery), lower
  case and substring search.
\<close>

section \<open>Character boundaries\<close>

text \<open>An index is a character boundary unless it points at a
  continuation byte.\<close>

definition continuation :: "char \<Rightarrow> bool" where
  "continuation ch \<longleftrightarrow> 128 \<le> (of_char ch :: nat) \<and> (of_char ch :: nat) < 192"

definition is_char_boundary :: "string \<Rightarrow> nat \<Rightarrow> bool" where
  "is_char_boundary s i \<longleftrightarrow>
     i = 0 \<or> i = length s \<or> (i < length s \<and> \<not> continuation (s ! i))"

fun walk_back :: "string \<Rightarrow> nat \<Rightarrow> nat" where
  "walk_back s 0 = 0"
| "walk_back s (Suc i) = (if is_char_boundary s (Suc i) then Suc i else walk_back s i)"

lemma walk_back_le: "walk_back s i \<le> i"
  by (induction i) auto

lemma walk_back_boundary: "is_char_boundary s (walk_back s i)"
  by (induction i) (auto simp: is_char_boundary_def)

lemma walk_back_last: "walk_back s i < j \<Longrightarrow> j \<le> i \<Longrightarrow> \<not> is_char_boundary s j"
  by (induction i) (auto simp: le_Suc_eq split: if_splits)

text \<open>One encoded character: a first byte and its continuation bytes.\<close>

definition utf8_char :: "string \<Rightarrow> bool" where
  "utf8_char ch \<longleftrightarrow> ch \<noteq> [] \<and> \<not> continuation (hd ch) \<and> list_all continuation (tl ch)"

lemma utf8_concat_hd:
  "list_all utf8_char cs \<Longrightarrow> concat cs \<noteq> [] \<Longrightarrow> \<not> continuation (concat cs ! 0)"
  by (cases cs) (auto simp: utf8_char_def nth_append hd_conv_nth)

lemma boundary_Cons:
  assumes "utf8_char ch" "list_all utf8_char cs"
  shows "is_char_boundary (ch @ concat cs) i \<longleftrightarrow>
    i = 0 \<or> (length ch \<le> i \<and> is_char_boundary (concat cs) (i - length ch))"
proof (cases "i < length ch")
  case True
  have "continuation (ch ! i)" if "0 < i"
    using assms(1) True that by (cases ch) (auto simp: utf8_char_def list_all_length nth_Cons')
  then show ?thesis using True by (auto simp: is_char_boundary_def nth_append)
next
  case False
  then show ?thesis using assms utf8_concat_hd [of cs]
    by (cases "i = length ch") (auto simp: is_char_boundary_def nth_append utf8_char_def)
qed

lemma boundary_iff:
  "list_all utf8_char cs \<Longrightarrow>
     is_char_boundary (concat cs) i \<longleftrightarrow> (\<exists>k \<le> length cs. i = length (concat (take k cs)))"
proof (induction cs arbitrary: i)
  case Nil
  then show ?case by (simp add: is_char_boundary_def)
next
  case (Cons ch cs)
  have "(\<exists>k \<le> length (ch # cs). i = length (concat (take k (ch # cs)))) \<longleftrightarrow>
      i = 0 \<or> (\<exists>k \<le> length cs. i = length ch + length (concat (take k cs)))" (is "?l \<longleftrightarrow> ?r")
  proof
    assume ?l
    then obtain k where "k \<le> length (ch # cs)" "i = length (concat (take k (ch # cs)))" by blast
    then show ?r by (cases k) auto
  next
    assume ?r
    then show ?l
    proof
      assume "i = 0"
      then show ?l by (intro exI [of _ 0]) simp
    next
      assume "\<exists>k \<le> length cs. i = length ch + length (concat (take k cs))"
      then obtain k where "k \<le> length cs" "i = length ch + length (concat (take k cs))" by blast
      then show ?l by (intro exI [of _ "Suc k"]) simp
    qed
  qed
  moreover have "(length ch \<le> i \<and> (\<exists>k \<le> length cs. i - length ch = length (concat (take k cs)))) \<longleftrightarrow>
      (\<exists>k \<le> length cs. i = length ch + length (concat (take k cs)))"
    by (metis add_diff_cancel_left' le_add1 le_add_diff_inverse)
  ultimately show ?case using Cons boundary_Cons [of ch cs i] by simp
qed

text \<open>Cutting at the boundary the walk finds leaves the longest prefix of whole characters.\<close>

lemma walk_back_utf8:
  assumes "list_all utf8_char cs" "n < length (concat cs)"
  shows "\<exists>k \<le> length cs. take (walk_back (concat cs) n) (concat cs) = concat (take k cs) \<and>
    (k = length cs \<or> n < length (concat (take (Suc k) cs)))"
proof -
  let ?w = "walk_back (concat cs) n"
  obtain k where k: "k \<le> length cs" "?w = length (concat (take k cs))"
    using walk_back_boundary boundary_iff [OF assms(1)] by blast
  have split: "concat cs = concat (take k cs) @ concat (drop k cs)"
    by (metis append_take_drop_id concat_append)
  have "take ?w (concat cs) = concat (take k cs)"
    unfolding k(2) by (subst split) simp
  moreover have "k = length cs \<or> n < length (concat (take (Suc k) cs))"
  proof (rule ccontr)
    assume c: "\<not> (k = length cs \<or> n < length (concat (take (Suc k) cs)))"
    then have "k < length cs" using k(1) by simp
    then have "cs ! k \<noteq> []" using assms(1) by (auto simp: list_all_length utf8_char_def)
    then have "?w < length (concat (take (Suc k) cs))"
      using k(2) \<open>k < length cs\<close> by (simp add: take_Suc_conv_app_nth)
    moreover have "is_char_boundary (concat cs) (length (concat (take (Suc k) cs)))"
      using boundary_iff [OF assms(1)] \<open>k < length cs\<close> by (metis Suc_leI)
    ultimately show False using walk_back_last c by (metis not_le)
  qed
  ultimately show ?thesis using k(1) by blast
qed

section \<open>Lower case and search\<close>

text \<open>
  \<open>str::to_lowercase\<close> as far as a search for an ASCII pattern can tell: ASCII letters, and the
  two characters outside ASCII whose lower case has an ASCII letter, the Kelvin sign
  (\<open>E2 84 AA\<close>, \<open>k\<close>) and the dotted capital I (\<open>C4 B0\<close>, \<open>i\<close> and a combining dot). Every
  other character keeps a non-empty lower case without ASCII bytes, here its own bytes.
\<close>

function to_lowercase :: "string \<Rightarrow> string" where
  "to_lowercase [] = []"
| "to_lowercase (x # xs) =
     (if x = CHR 0xE2 \<and> take 2 xs = [CHR 0x84, CHR 0xAA] then CHR ''k'' # to_lowercase (drop 2 xs)
      else if x = CHR 0xC4 \<and> take 1 xs = [CHR 0xB0] then
        [CHR ''i'', CHR 0xCC, CHR 0x87] @ to_lowercase (drop 1 xs)
      else lower_char x # to_lowercase xs)"
  by pat_completeness auto
termination by (relation "measure length") auto

text \<open>\<open>str::contains\<close>.\<close>

fun str_contains :: "string \<Rightarrow> string \<Rightarrow> bool" where
  "str_contains [] needle = (needle = [])"
| "str_contains (x # xs) needle = (take (length needle) (x # xs) = needle \<or> str_contains xs needle)"

lemma str_contains_iff: "str_contains s needle \<longleftrightarrow> (\<exists>a b. s = a @ needle @ b)"
proof (induction s)
  case Nil
  then show ?case by auto
next
  case (Cons x xs)
  have "take (length needle) (x # xs) = needle \<longleftrightarrow> (\<exists>b. x # xs = needle @ b)"
    by (metis append_eq_conv_conj append_take_drop_id)
  moreover have "(\<exists>a b. x # xs = a @ needle @ b) \<longleftrightarrow>
      (\<exists>b. x # xs = needle @ b) \<or> (\<exists>a b. xs = a @ needle @ b)"
    by (metis append_Cons append_Nil list.exhaust list.inject)
  ultimately show ?case using Cons by (simp del: take.simps)
qed

definition ascii :: "char \<Rightarrow> bool" where
  "ascii ch \<longleftrightarrow> (of_char ch :: nat) < 128"

lemma ascii_not_high [simp]:
  "ascii ch \<Longrightarrow> ch \<noteq> CHR 0xE2" "ascii ch \<Longrightarrow> ch \<noteq> CHR 0xC4" "ascii ch \<Longrightarrow> ch \<noteq> CHR 0x84"
  "ascii ch \<Longrightarrow> ch \<noteq> CHR 0xAA" "ascii ch \<Longrightarrow> ch \<noteq> CHR 0xB0"
  by (auto simp: ascii_def)

lemma ascii_lower: "ascii (lower_char ch) \<Longrightarrow> ascii ch"
  by (auto simp: ascii_def lower_char_def Let_def split: if_splits)

declare to_lowercase.simps [simp del]

lemma to_lowercase_ascii:
  "list_all ascii w \<Longrightarrow> to_lowercase (w @ b) = map lower_char w @ to_lowercase b"
  by (induction w) (auto simp: to_lowercase.simps)

lemma to_lowercase_append:
  "ascii x \<Longrightarrow> to_lowercase (a @ x # r) = to_lowercase a @ to_lowercase (x # r)"
proof (induction a rule: to_lowercase.induct)
  case 1
  then show ?case by (simp add: to_lowercase.simps(1))
next
  case (2 y ys)
  have k: "take 2 (ys @ x # r) = [CHR 0x84, CHR 0xAA] \<longleftrightarrow> take 2 ys = [CHR 0x84, CHR 0xAA]"
    using 2(4) by (cases ys; cases "tl ys") auto
  have i: "take 1 (ys @ x # r) = [CHR 0xB0] \<longleftrightarrow> take 1 ys = [CHR 0xB0]"
    using 2(4) by (cases ys) auto
  have drops: "take 2 ys = [CHR 0x84, CHR 0xAA] \<Longrightarrow> drop 2 (ys @ x # r) = drop 2 ys @ x # r"
    "take 1 ys = [CHR 0xB0] \<Longrightarrow> drop 1 (ys @ x # r) = drop 1 ys @ x # r"
    by (cases ys; cases "tl ys"; auto)+
  consider (kelvin) "y = CHR 0xE2 \<and> take 2 ys = [CHR 0x84, CHR 0xAA]"
    | (dotted) "\<not> (y = CHR 0xE2 \<and> take 2 ys = [CHR 0x84, CHR 0xAA])" "y = CHR 0xC4 \<and> take 1 ys = [CHR 0xB0]"
    | (other) "\<not> (y = CHR 0xE2 \<and> take 2 ys = [CHR 0x84, CHR 0xAA])" "\<not> (y = CHR 0xC4 \<and> take 1 ys = [CHR 0xB0])"
    by blast
  then show ?case
  proof cases
    case kelvin
    then show ?thesis
      unfolding append_Cons to_lowercase.simps(2) [of y] k using 2(1) 2(4) drops(1) by simp
  next
    case dotted
    then show ?thesis
      unfolding append_Cons to_lowercase.simps(2) [of y] k i if_not_P [OF dotted(1)] if_P [OF dotted(2)]
      using 2(2) [OF dotted] 2(4) drops(2) dotted(2) by (simp del: One_nat_def)
  next
    case other
    then show ?thesis
      unfolding append_Cons to_lowercase.simps(2) [of y] k i if_not_P [OF other(1)] if_not_P [OF other(2)]
      using 2(3) 2(4) by simp
  qed
qed

lemma to_lowercase_contains:
  assumes "list_all ascii w" "w \<noteq> []"
  shows "str_contains (to_lowercase (a @ w @ b)) (map lower_char w)"
proof -
  obtain x r where w: "w = x # r" using assms(2) by (cases w) auto
  have "to_lowercase (a @ w @ b) = to_lowercase a @ to_lowercase (w @ b)"
    using to_lowercase_append [of x a "r @ b"] assms(1) by (simp add: w)
  also have "to_lowercase (w @ b) = map lower_char w @ to_lowercase b"
    by (rule to_lowercase_ascii [OF assms(1)])
  finally show ?thesis unfolding str_contains_iff by blast
qed

lemma keyword_found:
  assumes "to_ascii_lowercase w = kw" "kw \<noteq> [] \<and> list_all ascii kw"
  shows "str_contains (to_lowercase (a @ w @ b)) kw"
proof -
  have "list_all ascii w" using assms by (auto simp: to_ascii_lowercase_def list_all_iff dest: ascii_lower)
  moreover have "w \<noteq> []" using assms by (auto simp: to_ascii_lowercase_def)
  ultimately show ?thesis using to_lowercase_contains [of w a b] assms(1) by (simp add: to_ascii_lowercase_def)
qed

end
