(* ===== verification/Beacon_Discovery.thy ===== *)
theory Beacon_Discovery
  imports Peer_Directory Utf8_Text Sample_Instances "HOL-Library.Multiset"
begin

text \<open>
  Discovery by UDP broadcast, \<open>crates/bridge-discovery/src/beacon.rs\<close> and \<open>udp.rs\<close>: the
  datagram format, the advertisement, and the worker task as a function of the input its
  \<open>select!\<close> picks. The directory and the event bus, which the mDNS worker may share, are a
  state of their own; datagrams handed to the socket are collected in a list, as sending
  errors are ignored.
\<close>

section \<open>Errors\<close>

datatype discovery_error =
    Mdns string
  | InvalidTxtRecord string
  | InvalidNodeId string
  | InvalidPacket string
  | Io string
  | DiscoveryInternal string
  | AlreadyRunning
  | NotRunning

section \<open>Beacons\<close>

definition BEACON_MAGIC :: bytes where
  "BEACON_MAGIC = str_bytes ''BRGB''"

definition BEACON_VERSION :: u8 where
  "BEACON_VERSION = 1"

definition MAX_BEACON_SIZE :: nat where
  "MAX_BEACON_SIZE = 1400"

definition MAX_DEVICE_NAME_LEN :: nat where
  "MAX_DEVICE_NAME_LEN = 64"

datatype beacon_message =
    Announcement protocol_version node_id string device_type u16 capabilities u64
  | Goodbye node_id u64
  | Query node_id u64

fun beacon_node_id :: "beacon_message \<Rightarrow> node_id" where
  "beacon_node_id (Announcement _ n _ _ _ _ _) = n"
| "beacon_node_id (Goodbye n _) = n"
| "beacon_node_id (Query n _) = n"

definition encode_beacon :: "beacon_message postcard \<Rightarrow> beacon_message \<Rightarrow> discovery_error + bytes" where
  "encode_beacon pc m =
     rbind (map_err (\<lambda>e. DiscoveryInternal (''failed to serialize beacon: '' @ e)) (to_allocvec pc m)) (\<lambda>p.
       let total_len = 4 + 1 + length p in
       if total_len > MAX_BEACON_SIZE then
         Inl (InvalidPacket (''beacon packet size '' @ show_nat total_len @
           '' exceeds maximum allowed '' @ show_nat MAX_BEACON_SIZE))
       else Inr (BEACON_MAGIC @ [BEACON_VERSION] @ p))"

text \<open>\<open>{:?}\<close> of a byte slice.\<close>

fun join_commas :: "string list \<Rightarrow> string" where
  "join_commas [] = []"
| "join_commas [s] = s"
| "join_commas (s # ss) = s @ '', '' @ join_commas ss"

definition bytes_debug :: "bytes \<Rightarrow> string" where
  "bytes_debug b = ''['' @ join_commas (map (\<lambda>x. show_nat (unat x)) b) @ '']''"

text \<open>The checks and the cut of the device name an announcement undergoes.\<close>

definition sanitize_name :: "string \<Rightarrow> string" where
  "sanitize_name nm =
     (if length nm > MAX_DEVICE_NAME_LEN then take (walk_back nm MAX_DEVICE_NAME_LEN) nm else nm)"

fun sanitize_beacon :: "beacon_message \<Rightarrow> discovery_error + beacon_message" where
  "sanitize_beacon (Announcement v n nm dt port caps seq) =
     (if port = 0 then Inl (InvalidPacket ''announcement port cannot be 0'')
      else Inr (Announcement v n (sanitize_name nm) dt port caps seq))"
| "sanitize_beacon m = Inr m"

definition decode_beacon :: "beacon_message postcard \<Rightarrow> bytes \<Rightarrow> discovery_error + beacon_message" where
  "decode_beacon pc b =
     (if length b < 5 then
        Inl (InvalidPacket (''datagram length '' @ show_nat (length b) @ '' is too short for a valid beacon''))
      else if length b > MAX_BEACON_SIZE then
        Inl (InvalidPacket (''datagram length '' @ show_nat (length b) @ '' exceeds maximum allowed '' @
          show_nat MAX_BEACON_SIZE))
      else if take 4 b \<noteq> BEACON_MAGIC then
        Inl (InvalidPacket (''invalid magic header '' @ bytes_debug (take 4 b) @ '', expected '' @
          bytes_debug BEACON_MAGIC))
      else if b ! 4 \<noteq> BEACON_VERSION then
        Inl (InvalidPacket (''unsupported beacon version '' @ show_nat (unat (b ! 4)) @ '', expected '' @
          show_nat (unat BEACON_VERSION)))
      else rbind (map_err (\<lambda>e. InvalidPacket (''failed to deserialize beacon: '' @ e))
             (postcard.from_bytes pc (drop 5 b))) sanitize_beacon)"

section \<open>The UDP daemon\<close>

definition DEFAULT_UDP_BROADCAST_PORT :: u16 where
  "DEFAULT_UDP_BROADCAST_PORT = 42424"

definition DEFAULT_BEACON_INTERVAL :: duration where
  "DEFAULT_BEACON_INTERVAL = from_secs 2"

definition DEFAULT_BEACON_TTL :: duration where
  "DEFAULT_BEACON_TTL = from_secs 6"

definition DEFAULT_BEACON_PRUNE_INTERVAL :: duration where
  "DEFAULT_BEACON_PRUNE_INTERVAL = from_secs 1"

record udp_config =
  uc_broadcast_port :: u16
  uc_bind_addr :: socket_addr
  uc_broadcast_targets :: "socket_addr list"
  uc_beacon_interval :: duration
  uc_ttl :: duration
  uc_prune_interval :: duration
  uc_query_on_start :: bool
  uc_goodbye_on_shutdown :: bool

definition default_udp_config :: udp_config where
  "default_udp_config =
     \<lparr>uc_broadcast_port = DEFAULT_UDP_BROADCAST_PORT,
      uc_bind_addr = socket_addr_new (V4 0) DEFAULT_UDP_BROADCAST_PORT,
      uc_broadcast_targets = [socket_addr_new (V4 0xFFFFFFFF) DEFAULT_UDP_BROADCAST_PORT],
      uc_beacon_interval = DEFAULT_BEACON_INTERVAL, uc_ttl = DEFAULT_BEACON_TTL,
      uc_prune_interval = DEFAULT_BEACON_PRUNE_INTERVAL,
      uc_query_on_start = True, uc_goodbye_on_shutdown = True\<rparr>"

record local_advertisement =
  la_node_id :: node_id
  la_device_name :: string
  la_device_type :: device_type
  la_port :: u16
  la_capabilities :: capabilities
  la_seq :: u64

text \<open>The directory and the event bus; \<open>ud_running\<close> is the presence of the shutdown sender.\<close>

record discovery_hub =
  hub_directory :: peer_directory
  hub_events :: "discovery_event list"

definition hub_new :: discovery_hub where
  "hub_new = \<lparr>hub_directory = directory_new, hub_events = []\<rparr>"

record udp_discovery =
  ud_config :: udp_config
  ud_local_node_id :: "node_id option"
  ud_advertising_info :: "local_advertisement option"
  ud_running :: bool
  ud_sent :: "(bytes \<times> socket_addr) list"

definition udp_new :: "udp_config \<Rightarrow> udp_discovery" where
  "udp_new config =
     \<lparr>ud_config = config, ud_local_node_id = None, ud_advertising_info = None, ud_running = False,
      ud_sent = []\<rparr>"

definition udp_advertise ::
    "node_id \<Rightarrow> string \<Rightarrow> device_type \<Rightarrow> u16 \<Rightarrow> capabilities \<Rightarrow> udp_discovery \<Rightarrow> udp_discovery" where
  "udp_advertise n nm dt port caps u =
     u\<lparr>ud_local_node_id := Some n,
       ud_advertising_info := Some \<lparr>la_node_id = n, la_device_name = nm, la_device_type = dt,
         la_port = port, la_capabilities = caps, la_seq = 1\<rparr>\<rparr>"

definition udp_stop_advertising :: "udp_discovery \<Rightarrow> udp_discovery" where
  "udp_stop_advertising u = u\<lparr>ud_advertising_info := None\<rparr>"

text \<open>
  Creating the socket. The calls of \<open>socket2\<close> and \<open>tokio\<close> may fail as the argument says;
  a failure to set \<open>SO_REUSEPORT\<close> is ignored. \<open>show_addr\<close> is the address as text.
\<close>

datatype socket_call = SocketNew | SetReuseAddress | SetBroadcast | SetNonblocking | Bind | FromStd

definition create_udp_socket ::
    "(socket_call \<Rightarrow> string option) \<Rightarrow> (socket_addr \<Rightarrow> string) \<Rightarrow> socket_addr \<Rightarrow> discovery_error + unit" where
  "create_udp_socket faults show_addr bind_addr =
     (let attempt = (\<lambda>call text. case faults call of
                       None \<Rightarrow> Inr () | Some e \<Rightarrow> Inl (DiscoveryInternal (text @ e)))
      in rbind (attempt SocketNew ''failed to create UDP socket: '') (\<lambda>_.
         rbind (attempt SetReuseAddress ''failed to set SO_REUSEADDR: '') (\<lambda>_.
         rbind (attempt SetBroadcast ''failed to enable broadcast: '') (\<lambda>_.
         rbind (attempt SetNonblocking ''failed to set nonblocking: '') (\<lambda>_.
         rbind (attempt Bind (''failed to bind UDP socket to '' @ show_addr bind_addr @ '': '')) (\<lambda>_.
         attempt FromStd ''failed to convert into Tokio UdpSocket: ''))))))"

definition udp_start_discovery ::
    "(socket_call \<Rightarrow> string option) \<Rightarrow> (socket_addr \<Rightarrow> string) \<Rightarrow> (udp_discovery, discovery_error, unit) comp" where
  "udp_start_discovery faults show_addr = (\<lambda>u.
     if ud_running u then (Inl AlreadyRunning, u)
     else case create_udp_socket faults show_addr (uc_bind_addr (ud_config u)) of
       Inl e \<Rightarrow> (Inl e, u)
     | Inr _ \<Rightarrow> (Inr (), u\<lparr>ud_running := True\<rparr>))"

definition udp_transmit :: "bytes \<Rightarrow> socket_addr list \<Rightarrow> udp_discovery \<Rightarrow> udp_discovery" where
  "udp_transmit b targets u = u\<lparr>ud_sent := ud_sent u @ map (\<lambda>t. (b, t)) targets\<rparr>"

text \<open>The task spawned at the start that sends a query when so configured.\<close>

definition udp_query_probe :: "beacon_message postcard \<Rightarrow> udp_discovery \<Rightarrow> udp_discovery" where
  "udp_query_probe pc u =
     (if uc_query_on_start (ud_config u) then
        (let sender_id = (case ud_local_node_id u of None \<Rightarrow> node_from_bytes (replicate 32 0) | Some n \<Rightarrow> n)
         in case encode_beacon pc (Query sender_id 1) of
              Inl _ \<Rightarrow> u
            | Inr b \<Rightarrow> udp_transmit b (uc_broadcast_targets (ud_config u)) u)
      else u)"

definition announcement_of :: "local_advertisement \<Rightarrow> beacon_message" where
  "announcement_of a =
     Announcement CURRENT (la_node_id a) (la_device_name a) (la_device_type a) (la_port a)
       (la_capabilities a) (la_seq a)"

definition udp_beacon_tick :: "beacon_message postcard \<Rightarrow> udp_discovery \<Rightarrow> udp_discovery" where
  "udp_beacon_tick pc u =
     (case ud_advertising_info u of
        None \<Rightarrow> u
      | Some a0 \<Rightarrow>
          let a = a0\<lparr>la_seq := la_seq a0 + 1\<rparr>;
              u1 = u\<lparr>ud_advertising_info := Some a\<rparr>
          in case encode_beacon pc (announcement_of a) of
               Inl _ \<Rightarrow> u1
             | Inr b \<Rightarrow> udp_transmit b (uc_broadcast_targets (ud_config u1)) u1)"

definition hub_emit :: "discovery_event list \<Rightarrow> discovery_hub \<Rightarrow> discovery_hub" where
  "hub_emit evs h = h\<lparr>hub_events := hub_events h @ evs\<rparr>"

text \<open>The three changes of the directory, each with the events it causes.\<close>

definition hub_insert :: "system_time \<Rightarrow> discovered_peer \<Rightarrow> discovery_hub \<Rightarrow> discovery_hub" where
  "hub_insert now p h =
     (case insert_or_update now p (hub_directory h) of
        ((q, is_new), d) \<Rightarrow>
          hub_emit [if is_new then PeerDiscovered q else PeerUpdated q] (h\<lparr>hub_directory := d\<rparr>))"

definition hub_remove :: "node_id \<Rightarrow> discovery_hub \<Rightarrow> discovery_hub" where
  "hub_remove n h =
     (case directory_remove n (hub_directory h) of
        (r, d) \<Rightarrow> hub_emit (if r = None then [] else [PeerLost n]) (h\<lparr>hub_directory := d\<rparr>))"

definition hub_prune :: "system_time \<Rightarrow> duration \<Rightarrow> discovery_hub \<Rightarrow> discovery_hub" where
  "hub_prune now ttl h =
     (case prune_expired now ttl (hub_directory h) of
        (expired, d) \<Rightarrow>
          hub_emit (map (\<lambda>p. PeerExpired (dp_node_id p)) expired) (h\<lparr>hub_directory := d\<rparr>))"

definition udp_on_beacon ::
    "beacon_message postcard \<Rightarrow> system_time \<Rightarrow> socket_addr \<Rightarrow> beacon_message \<Rightarrow>
     udp_discovery \<times> discovery_hub \<Rightarrow> udp_discovery \<times> discovery_hub" where
  "udp_on_beacon pc now src beacon = (\<lambda>(u, h).
     if ud_local_node_id u = Some (beacon_node_id beacon) then (u, h)
     else case beacon of
       Announcement _ n nm dt port caps _ \<Rightarrow>
         (u, hub_insert now (discovered_peer_new now n nm dt [socket_addr_new (sa_ip src) port] caps) h)
     | Goodbye n _ \<Rightarrow> (u, hub_remove n h)
     | Query _ _ \<Rightarrow>
         (case ud_advertising_info u of
            None \<Rightarrow> (u, h)
          | Some a \<Rightarrow>
              (case encode_beacon pc (announcement_of a) of
                 Inl _ \<Rightarrow> (u, h)
               | Inr b \<Rightarrow> (udp_transmit b [src] u, h))))"

text \<open>
  One turn of the worker: a change of the shutdown flag, a tick of one of the timers, a
  datagram (cut to the buffer of 2048 bytes) or a failed receive. The first component says
  whether the loop goes on.
\<close>

datatype udp_input =
    UdpShutdown bool
  | UdpPrune system_time
  | UdpBeacon
  | UdpDatagram system_time bytes socket_addr
  | UdpRecvError string

fun udp_step ::
    "beacon_message postcard \<Rightarrow> udp_input \<Rightarrow> udp_discovery \<times> discovery_hub \<Rightarrow>
     bool \<times> udp_discovery \<times> discovery_hub" where
  "udp_step pc (UdpShutdown down) (u, h) = (\<not> down, u, h)"
| "udp_step pc (UdpPrune now) (u, h) = (True, u, hub_prune now (uc_ttl (ud_config u)) h)"
| "udp_step pc UdpBeacon (u, h) = (True, udp_beacon_tick pc u, h)"
| "udp_step pc (UdpDatagram now b src) (u, h) =
     (True, case decode_beacon pc (take 2048 b) of
              Inl _ \<Rightarrow> (u, h)
            | Inr beacon \<Rightarrow> udp_on_beacon pc now src beacon (u, h))"
| "udp_step pc (UdpRecvError _) (u, h) = (False, u, h)"

fun udp_worker ::
    "beacon_message postcard \<Rightarrow> udp_input list \<Rightarrow> udp_discovery \<times> discovery_hub \<Rightarrow> udp_discovery \<times> discovery_hub" where
  "udp_worker pc [] st = st"
| "udp_worker pc (i # is) st =
     (case udp_step pc i st of (go, st') \<Rightarrow> if go then udp_worker pc is st' else st')"

text \<open>Shutdown; \<open>bound\<close> says whether the ephemeral socket for the goodbye could be bound.\<close>

definition udp_shutdown :: "beacon_message postcard \<Rightarrow> bool \<Rightarrow> udp_discovery \<Rightarrow> udp_discovery" where
  "udp_shutdown pc bound u =
     (let u1 = (if uc_goodbye_on_shutdown (ud_config u) then
                  (case ud_advertising_info u of
                     None \<Rightarrow> u
                   | Some a \<Rightarrow>
                       (case encode_beacon pc (Goodbye (la_node_id a) (la_seq a + 1)) of
                          Inl _ \<Rightarrow> u
                        | Inr b \<Rightarrow> if bound then udp_transmit b (uc_broadcast_targets (ud_config u)) u else u))
                else u)
      in (udp_stop_advertising u1)\<lparr>ud_running := False\<rparr>)"

section \<open>Datagrams\<close>

lemma beacon_header [simp]: "length BEACON_MAGIC = 4"
  by (simp add: BEACON_MAGIC_def str_bytes_def)

lemma encode_beacon_Inr_iff:
  "encode_beacon pc m = Inr b \<longleftrightarrow>
     (\<exists>p. to_allocvec pc m = Inr p \<and> 5 + length p \<le> MAX_BEACON_SIZE \<and>
        b = BEACON_MAGIC @ [BEACON_VERSION] @ p)"
  by (auto simp: encode_beacon_def rbind_Inr_iff Let_def not_less)

lemma decode_beacon_Inr_iff:
  "decode_beacon pc b = Inr m \<longleftrightarrow>
     5 \<le> length b \<and> length b \<le> MAX_BEACON_SIZE \<and> take 4 b = BEACON_MAGIC \<and> b ! 4 = BEACON_VERSION \<and>
     (\<exists>m0. postcard.from_bytes pc (drop 5 b) = Inr m0 \<and> sanitize_beacon m0 = Inr m)"
  by (auto simp: decode_beacon_def rbind_Inr_iff)

lemma sanitize_name_length: "length (sanitize_name nm) \<le> MAX_DEVICE_NAME_LEN"
  using walk_back_le [of nm MAX_DEVICE_NAME_LEN] by (simp add: sanitize_name_def min_le_iff_disj)

lemma sanitize_announcement:
  assumes "sanitize_beacon m0 = Inr (Announcement v n nm dt port caps seq)"
  shows "port \<noteq> 0" "length nm \<le> MAX_DEVICE_NAME_LEN"
  using assms sanitize_name_length by (cases m0; auto split: if_splits)+

lemma decode_encoded:
  assumes "postcard_roundtrip pc" "encode_beacon pc m = Inr b"
  shows "decode_beacon pc b = sanitize_beacon m"
proof -
  obtain p where p: "to_allocvec pc m = Inr p" "5 + length p \<le> MAX_BEACON_SIZE"
      "b = BEACON_MAGIC @ [BEACON_VERSION] @ p"
    using assms(2) by (auto simp: encode_beacon_Inr_iff)
  then have "length b = 5 + length p" "take 4 b = BEACON_MAGIC" "b ! 4 = BEACON_VERSION" "drop 5 b = p"
    by (simp_all add: nth_append)
  then show ?thesis using p(1,2) postcard_roundtripD [OF assms(1) p(1)] by (simp add: decode_beacon_def)
qed

lemma encoded_size: "encode_beacon pc m = Inr b \<Longrightarrow> length b \<le> MAX_BEACON_SIZE"
  by (auto simp: encode_beacon_Inr_iff)

lemma received_whole: "encode_beacon pc m = Inr b \<Longrightarrow> take 2048 b = b"
  using encoded_size [of pc m b] by (simp add: MAX_BEACON_SIZE_def)

section \<open>The worker\<close>

text \<open>What every turn keeps: the bus tells the directory, and the node itself is not in it.\<close>

definition hub_inv :: "node_id option \<Rightarrow> discovery_hub \<Rightarrow> bool" where
  "hub_inv own h \<longleftrightarrow>
     directory_inv (hub_directory h) \<and> replay (hub_events h) = map_of (hub_directory h) \<and>
     (case own of None \<Rightarrow> True | Some n \<Rightarrow> map_of (hub_directory h) n = None)"

lemma hub_inv_new [simp]: "hub_inv own hub_new"
  by (simp add: hub_inv_def hub_new_def directory_new_def directory_inv_def replay_def split: option.split)

lemma hub_insert_inv:
  assumes "hub_inv own h" "own \<noteq> Some (dp_node_id p)"
  shows "hub_inv own (hub_insert now p h)"
proof -
  obtain q new d where run: "insert_or_update now p (hub_directory h) = ((q, new), d)"
    by (metis surj_pair)
  have "directory_inv (hub_directory h)" "replay (hub_events h) = map_of (hub_directory h)"
    using assms(1) by (simp_all add: hub_inv_def)
  from dir.upsert_law [OF this(1) run] dir.replay_upsert [OF this(1) run this(2)]
  show ?thesis using assms run
    by (auto simp: hub_inv_def hub_insert_def hub_emit_def split: option.splits)
qed

lemma hub_remove_inv:
  assumes "hub_inv own h"
  shows "hub_inv own (hub_remove n h)"
proof -
  obtain r d where run: "directory_remove n (hub_directory h) = (r, d)" by (metis surj_pair)
  have "directory_inv (hub_directory h)" "replay (hub_events h) = map_of (hub_directory h)"
    using assms(1) by (simp_all add: hub_inv_def)
  from dir.discard_law [OF this(1) run] dir.replay_discard [OF this(1) run this(2)]
  show ?thesis using assms run
    by (auto simp: hub_inv_def hub_remove_def hub_emit_def split: option.splits)
qed

lemma hub_prune_inv:
  assumes "hub_inv own h"
  shows "hub_inv own (hub_prune now ttl h)"
proof -
  obtain ps d where run: "prune_expired now ttl (hub_directory h) = (ps, d)" by (metis surj_pair)
  have "directory_inv (hub_directory h)" "replay (hub_events h) = map_of (hub_directory h)"
    using assms(1) by (simp_all add: hub_inv_def)
  from dir.expire_law [OF this(1) run] dir.replay_expire [OF this(1) run this(2)]
  show ?thesis using assms run
    by (auto simp: hub_inv_def hub_prune_def hub_emit_def split: option.splits)
qed

lemma udp_fixed [simp]:
  "ud_local_node_id (udp_transmit b ts u) = ud_local_node_id u"
  "ud_local_node_id (udp_beacon_tick pc u) = ud_local_node_id u"
  by (simp_all add: udp_transmit_def udp_beacon_tick_def Let_def split: option.split sum.split)

lemma udp_on_beacon_inv:
  assumes "hub_inv (ud_local_node_id u) h" "udp_on_beacon pc now src m (u, h) = (u', h')"
  shows "ud_local_node_id u' = ud_local_node_id u \<and> hub_inv (ud_local_node_id u) h'"
  using assms hub_insert_inv hub_remove_inv
  by (cases m) (auto simp: udp_on_beacon_def discovered_peer_new_def split: if_splits option.splits sum.splits)

lemma udp_step_inv:
  assumes "hub_inv (ud_local_node_id u) h" "udp_step pc i (u, h) = (go, u', h')"
  shows "ud_local_node_id u' = ud_local_node_id u \<and> hub_inv (ud_local_node_id u) h'"
proof (cases i)
  case (UdpDatagram now b src)
  then show ?thesis using assms udp_on_beacon_inv [OF assms(1)] by (auto split: sum.splits)
qed (use assms hub_prune_inv in auto)

lemma udp_worker_inv:
  assumes "hub_inv (ud_local_node_id u) h" "udp_worker pc is (u, h) = (u', h')"
  shows "ud_local_node_id u' = ud_local_node_id u \<and> hub_inv (ud_local_node_id u) h'"
  using assms
proof (induction "is" arbitrary: u h)
  case (Cons i "is")
  obtain go u1 h1 where step: "udp_step pc i (u, h) = (go, u1, h1)" by (metis surj_pair)
  note udp_step_inv [OF Cons.prems(1) step]
  then show ?case using Cons.IH [of u1 h1] Cons.prems(2) step by (auto split: if_splits)
qed simp

section \<open>Properties\<close>

text \<open>C33: beacons round-trip within a datagram. An encoded beacon fits in 1400 bytes and decodes
  to the message it was made from, where an announcement is rejected if its port is zero and
  its device name is cut to at most 64 bytes at a character boundary.\<close>

theorem beacon_roundtrip:
  assumes "postcard_roundtrip pc" "encode_beacon pc m = Inr b"
  shows "length b \<le> 1400 \<and> decode_beacon pc b =
    (case m of
       Announcement v n nm dt port caps seq \<Rightarrow>
         if port = 0 then Inl (InvalidPacket ''announcement port cannot be 0'')
         else Inr (Announcement v n (sanitize_name nm) dt port caps seq)
     | _ \<Rightarrow> Inr m) \<and>
    (\<forall>nm. length (sanitize_name nm) \<le> 64 \<and> (length nm \<le> 64 \<longrightarrow> sanitize_name nm = nm) \<and>
       (\<exists>k. is_char_boundary nm k \<and> sanitize_name nm = take k nm))"
proof -
  have "\<exists>k. is_char_boundary nm k \<and> sanitize_name nm = take k nm" for nm
  proof (cases "length nm > MAX_DEVICE_NAME_LEN")
    case True
    then show ?thesis using walk_back_boundary by (auto simp: sanitize_name_def)
  next
    case False
    then show ?thesis by (intro exI [of _ "length nm"]) (simp add: sanitize_name_def is_char_boundary_def)
  qed
  moreover have "length (sanitize_name nm) \<le> 64" "length nm \<le> 64 \<Longrightarrow> sanitize_name nm = nm" for nm
    using sanitize_name_length [of nm] by (simp_all add: sanitize_name_def MAX_DEVICE_NAME_LEN_def)
  moreover have "decode_beacon pc b = (case m of
       Announcement v n nm dt port caps seq \<Rightarrow>
         if port = 0 then Inl (InvalidPacket ''announcement port cannot be 0'')
         else Inr (Announcement v n (sanitize_name nm) dt port caps seq)
     | _ \<Rightarrow> Inr m)"
    unfolding decode_encoded [OF assms] by (cases m) simp_all
  moreover have "length b \<le> 1400" using encoded_size [OF assms(2)] by (simp add: MAX_BEACON_SIZE_def)
  ultimately show ?thesis by blast
qed

text \<open>What a subscriber hears is what the directory holds. After any sequence of ticks and
  datagrams, valid or not, replaying the emitted events gives exactly the peers in the
  directory; no peer is listed twice and the node never lists itself.\<close>

theorem udp_events_faithful:
  "let (u', h') = udp_worker pc is (u, hub_new) in
   replay (hub_events h') = directory_get (hub_directory h') \<and>
   distinct (map dp_node_id (directory_list (hub_directory h'))) \<and>
   (case ud_local_node_id u of None \<Rightarrow> True | Some n \<Rightarrow> \<not> directory_contains (hub_directory h') n)"
proof -
  obtain u' h' where run: "udp_worker pc is (u, hub_new) = (u', h')" by (metis surj_pair)
  have inv: "hub_inv (ud_local_node_id u) h'" using udp_worker_inv [OF hub_inv_new run] by blast
  then have d: "directory_inv (hub_directory h')" by (simp add: hub_inv_def)
  have "map dp_node_id (directory_list (hub_directory h')) = map fst (hub_directory h')"
    using d by (auto simp: directory_inv_def directory_list_def list_all_iff)
  then show ?thesis using run inv d
    by (auto simp: hub_inv_def directory_inv_def directory_get_def directory_contains_def split: option.splits)
qed

text \<open>Pruning is exact. It splits the directory into the peers that have been silent for
  longer than the limit, which it returns, and the others, which it keeps; a peer whose last
  sighting lies in the future is kept.\<close>

theorem prune_exact:
  "let (expired, d') = prune_expired now max_age d in
   mset expired + mset (directory_list d') = mset (directory_list d) \<and>
   list_all (\<lambda>p. now - dp_last_seen p > int max_age) expired \<and>
   list_all (\<lambda>p. now - dp_last_seen p \<le> int max_age) (directory_list d')"
proof -
  have ex: "is_expired now max_age p \<longleftrightarrow> now - dp_last_seen p > int max_age" for p
    by (auto simp: is_expired_def duration_since_def)
  have "mset (map snd (filter P d)) + mset (map snd (filter (\<lambda>x. \<not> P x) d)) = mset (map snd d)" for P
    by (metis mset_map image_mset_union mset_filter multiset_partition)
  from this [of "\<lambda>(_, p). is_expired now max_age p"] show ?thesis
    by (auto simp: prune_expired_def directory_list_def list_all_iff ex not_less case_prod_unfold)
qed

text \<open>C34: a beacon makes the sender known. What a node broadcasts at a tick, received by another
  node, leaves an entry with the sender's identifier, name and capabilities, the address made
  of the source of the datagram and the advertised port, and the time of receipt.\<close>

theorem beacon_reaches_peer:
  assumes "postcard_roundtrip pc" "ud_advertising_info ua = Some a" "la_port a \<noteq> 0"
    and "encode_beacon pc (announcement_of (a\<lparr>la_seq := la_seq a + 1\<rparr>)) = Inr b"
    and "t \<in> set (uc_broadcast_targets (ud_config ua))"
    and "directory_inv (hub_directory hb)" "ud_local_node_id ub \<noteq> Some (la_node_id a)"
  shows "(b, t) \<in> set (ud_sent (udp_beacon_tick pc ua)) \<and>
    (\<exists>p u' h'. udp_step pc (UdpDatagram now b src) (ub, hb) = (True, u', h') \<and>
       directory_get (hub_directory h') (la_node_id a) = Some p \<and>
       dp_device_name p = sanitize_name (la_device_name a) \<and> dp_device_type p = la_device_type a \<and>
       dp_capabilities p = la_capabilities a \<and> dp_last_seen p = now \<and>
       socket_addr_new (sa_ip src) (la_port a) \<in> set (dp_addresses p))"
proof -
  let ?addr = "socket_addr_new (sa_ip src) (la_port a)"
  let ?p = "discovered_peer_new now (la_node_id a) (sanitize_name (la_device_name a)) (la_device_type a)
      [?addr] (la_capabilities a)"
  obtain q new d where ins: "insert_or_update now ?p (hub_directory hb) = ((q, new), d)" by (metis surj_pair)
  have q: "dp_device_name q = sanitize_name (la_device_name a)" "dp_device_type q = la_device_type a"
      "dp_capabilities q = la_capabilities a" "dp_last_seen q = now" "?addr \<in> set (dp_addresses q)"
    using ins by (auto simp: insert_or_update_def discovered_peer_new_def Let_def split: option.splits)
  have "map_of d (la_node_id a) = Some q"
    using dir.upsert_law [OF assms(6) ins] by (simp add: discovered_peer_new_def)
  moreover have "decode_beacon pc (take 2048 b) = Inr (Announcement CURRENT (la_node_id a)
      (sanitize_name (la_device_name a)) (la_device_type a) (la_port a) (la_capabilities a) (la_seq a + 1))"
    using decode_encoded [OF assms(1,4)] received_whole [OF assms(4)] assms(3)
    by (simp add: announcement_of_def)
  then have "udp_step pc (UdpDatagram now b src) (ub, hb) = (True, ub, hub_insert now ?p hb)"
    using assms(7) by (simp add: udp_on_beacon_def)
  moreover have "(b, t) \<in> set (ud_sent (udp_beacon_tick pc ua))"
    using assms(2,4,5) by (simp add: udp_beacon_tick_def udp_transmit_def Let_def)
  ultimately show ?thesis using ins q
    by (simp add: hub_insert_def hub_emit_def directory_get_def)
qed

section \<open>Witnesses\<close>

definition sample_advert :: local_advertisement where
  "sample_advert = \<lparr>la_node_id = NodeId [7], la_device_name = ''pc'', la_device_type = Linux,
     la_port = 9000, la_capabilities = caps_all, la_seq = 1\<rparr>"

definition sample_beacons :: "beacon_message postcard" where
  "sample_beacons = table_codec [(announcement_of (sample_advert\<lparr>la_seq := 2\<rparr>), [1]), (Query (NodeId [8]) 1, [2])]"

definition sample_sender :: udp_discovery where
  "sample_sender = (udp_new default_udp_config)\<lparr>ud_advertising_info := Some sample_advert\<rparr>"

lemma sample_beacons_roundtrip: "postcard_roundtrip sample_beacons"
  by (simp add: sample_beacons_def table_codec_roundtrip)

lemma sample_beacon_encoded:
  "encode_beacon sample_beacons (announcement_of (sample_advert\<lparr>la_seq := 2\<rparr>)) =
     Inr (BEACON_MAGIC @ [BEACON_VERSION] @ [1])"
  by (simp add: encode_beacon_Inr_iff sample_beacons_def table_codec_def MAX_BEACON_SIZE_def)

theorem beacon_roundtrip_witness:
  "decode_beacon sample_beacons (BEACON_MAGIC @ [BEACON_VERSION] @ [1]) =
     Inr (Announcement CURRENT (NodeId [7]) (sanitize_name ''pc'') Linux 9000 caps_all 2)"
  using beacon_roundtrip [OF sample_beacons_roundtrip sample_beacon_encoded]
  by (simp add: announcement_of_def sample_advert_def)

theorem beacon_reaches_peer_witness:
  "\<exists>p u' h'. udp_step sample_beacons (UdpDatagram 50 (BEACON_MAGIC @ [BEACON_VERSION] @ [1])
       (socket_addr_new (V4 5) 42424)) (udp_new default_udp_config, hub_new) = (True, u', h') \<and>
     directory_get (hub_directory h') (NodeId [7]) = Some p \<and> dp_last_seen p = 50"
proof -
  have "encode_beacon sample_beacons (announcement_of (sample_advert\<lparr>la_seq := la_seq sample_advert + 1\<rparr>)) =
      Inr (BEACON_MAGIC @ [BEACON_VERSION] @ [1])"
    using sample_beacon_encoded by (simp add: sample_advert_def)
  from beacon_reaches_peer [where ua = sample_sender and a = sample_advert and ub = "udp_new default_udp_config"
      and hb = hub_new and now = 50 and src = "socket_addr_new (V4 5) 42424", OF sample_beacons_roundtrip _ _ this,
      of "socket_addr_new (V4 0xFFFFFFFF) DEFAULT_UDP_BROADCAST_PORT"]
  show ?thesis
    by (auto simp: sample_sender_def sample_advert_def udp_new_def default_udp_config_def hub_new_def)
qed

end
