(* ===== verification/Mdns_Discovery.thy ===== *)
theory Mdns_Discovery
  imports Beacon_Discovery
begin

text \<open>
  Discovery by mDNS, \<open>crates/bridge-discovery/src/service.rs\<close>, and the combination of both
  channels, \<open>unified.rs\<close>. The crate \<open>mdns_sd\<close> is a parameter: a record of the results its
  daemon gives, and a record of what its accessors return for a service. The TXT record, the
  worker task and the life cycle are modelled.
\<close>

section \<open>TXT records\<close>

definition BRIDGEOS_SERVICE_TYPE :: string where
  "BRIDGEOS_SERVICE_TYPE = ''_bridgeos._tcp.local.''"

definition DEFAULT_TTL :: duration where
  "DEFAULT_TTL = from_secs 5"

definition DEFAULT_PRUNE_INTERVAL :: duration where
  "DEFAULT_PRUNE_INTERVAL = from_secs 1"

record discovery_config =
  dc_service_type :: string
  dc_ttl :: duration
  dc_prune_interval :: duration

definition default_discovery_config :: discovery_config where
  "default_discovery_config =
     \<lparr>dc_service_type = BRIDGEOS_SERVICE_TYPE, dc_ttl = DEFAULT_TTL,
      dc_prune_interval = DEFAULT_PRUNE_INTERVAL\<rparr>"

text \<open>\<open>{:x}\<close> and \<open>u32::from_str_radix(_, 16)\<close>: digits in either case, an optional plus sign, an
  error for an empty, malformed or too large number.\<close>

definition hex_digit :: "nat \<Rightarrow> char" where
  "hex_digit n = (if n < 10 then char_of (48 + n) else char_of (87 + n))"

fun show_hex :: "nat \<Rightarrow> string" where
  "show_hex n = (if n < 16 then [hex_digit n] else show_hex (n div 16) @ [hex_digit (n mod 16)])"

declare show_hex.simps [simp del]

definition digit_value :: "char \<Rightarrow> nat option" where
  "digit_value ch =
     (let n = of_char ch :: nat in
      if 48 \<le> n \<and> n \<le> 57 then Some (n - 48)
      else if 97 \<le> n \<and> n \<le> 102 then Some (n - 87)
      else if 65 \<le> n \<and> n \<le> 70 then Some (n - 55) else None)"

fun read_digits :: "string \<Rightarrow> nat \<Rightarrow> nat option" where
  "read_digits [] acc = Some acc"
| "read_digits (ch # s) acc =
     (case digit_value ch of
        None \<Rightarrow> None
      | Some d \<Rightarrow> if acc * 16 + d < 2 ^ 32 then read_digits s (acc * 16 + d) else None)"

definition from_str_radix_16 :: "string \<Rightarrow> u32 option" where
  "from_str_radix_16 s =
     (let digits = (case s of [] \<Rightarrow> [] | ch # r \<Rightarrow> if ch = CHR ''+'' then r else s) in
      if digits = [] then None else map_option of_nat (read_digits digits 0))"

definition peer_to_txt_properties ::
    "'x crates_scheme \<Rightarrow> node_id \<Rightarrow> string \<Rightarrow> device_type \<Rightarrow> capabilities \<Rightarrow> (string \<times> string) list" where
  "peer_to_txt_properties c n nm dt caps =
     [(''node_id'', to_hex c n), (''name'', nm), (''type'', device_type_display dt),
      (''caps'', show_hex (unat (flags caps))), (''ver'', version_display CURRENT)]"

definition parse_discovered_peer ::
    "'x crates_scheme \<Rightarrow> system_time \<Rightarrow> string option \<Rightarrow> string option \<Rightarrow> string option \<Rightarrow> string option \<Rightarrow>
     socket_addr list \<Rightarrow> string \<Rightarrow> discovery_error + discovered_peer" where
  "parse_discovered_peer c now node_id_hex device_name device_type_str capabilities_str addresses fallback_name =
     rbind (ok_or (InvalidTxtRecord ''missing 'node_id' in TXT'') node_id_hex) (\<lambda>hex.
     rbind (map_err (\<lambda>e. InvalidNodeId (''invalid hex in 'node_id': '' @ e)) (from_hex c hex)) (\<lambda>n.
     let nm = (case device_name of None \<Rightarrow> fallback_name | Some s \<Rightarrow> s);
         dt = (case device_type_str of None \<Rightarrow> Unknown | Some s \<Rightarrow> device_type_from_str s);
         caps = (case capabilities_str of
                   Some s \<Rightarrow> (case from_str_radix_16 s of Some f \<Rightarrow> from_bits f | None \<Rightarrow> \<lparr>flags = 0\<rparr>)
                 | None \<Rightarrow> \<lparr>flags = 0\<rparr>)
     in Inr (discovered_peer_new now n nm dt addresses caps)))"

text \<open>What the accessors of a \<open>ServiceInfo\<close> or a \<open>ResolvedService\<close> return.\<close>

record service_info =
  si_port :: u16
  si_addresses :: "ip_addr list"
  si_property :: "string \<Rightarrow> string option"
  si_fullname :: string

definition parse_service_info :: "'x crates_scheme \<Rightarrow> system_time \<Rightarrow> service_info \<Rightarrow> discovery_error + discovered_peer" where
  "parse_service_info c now info =
     parse_discovered_peer c now (si_property info ''node_id'') (si_property info ''name'')
       (si_property info ''type'') (si_property info ''caps'')
       (map (\<lambda>ip. socket_addr_new ip (si_port info)) (si_addresses info)) (si_fullname info)"

definition parse_resolved_service :: "'x crates_scheme \<Rightarrow> system_time \<Rightarrow> service_info \<Rightarrow> discovery_error + discovered_peer" where
  "parse_resolved_service c now info =
     parse_discovered_peer c now (si_property info ''node_id'') (si_property info ''name'')
       (si_property info ''type'') (si_property info ''caps'')
       (map (\<lambda>ip. socket_addr_new ip (si_port info)) (si_addresses info)) (si_fullname info)"

section \<open>The mDNS daemon\<close>

datatype service_ips = IpSlices "string list" | IpText string

text \<open>The results of the crate's calls; an error is its text.\<close>

record mdns_results =
  mr_daemon_new :: "string + unit"
  mr_service_info :: "string \<Rightarrow> string \<Rightarrow> string \<Rightarrow> service_ips \<Rightarrow> u16 \<Rightarrow> (string \<times> string) list \<Rightarrow> string + service_info"
  mr_register :: "service_info \<Rightarrow> string + unit"
  mr_unregister :: "string \<Rightarrow> string + unit"
  mr_browse :: "string \<Rightarrow> string + unit"
  mr_show_ip :: "ip_addr \<Rightarrow> string"

record mdns_discovery =
  mi_config :: discovery_config
  mi_fullname_to_node :: "string \<rightharpoonup> node_id"
  mi_local_node_id :: "node_id option"
  mi_registered_fullname :: "string option"
  mi_running :: bool

definition mdns_new :: "mdns_results \<Rightarrow> discovery_config \<Rightarrow> discovery_error + mdns_discovery" where
  "mdns_new mr config =
     rbind (map_err (\<lambda>e. Mdns (''failed to create ServiceDaemon: '' @ e)) (mr_daemon_new mr)) (\<lambda>_.
     Inr \<lparr>mi_config = config, mi_fullname_to_node = Map.empty, mi_local_node_id = None,
          mi_registered_fullname = None, mi_running = False\<rparr>)"

definition instance_name :: "'x crates_scheme \<Rightarrow> node_id \<Rightarrow> string \<Rightarrow> string" where
  "instance_name c n nm =
     map (\<lambda>ch. if ch = CHR ''.'' \<or> ch = CHR '' '' then CHR ''-'' else ch) nm @ ''-'' @ take 8 (to_hex c n)"

definition mdns_advertise ::
    "'x crates_scheme \<Rightarrow> mdns_results \<Rightarrow> node_id \<Rightarrow> string \<Rightarrow> device_type \<Rightarrow> u16 \<Rightarrow> capabilities \<Rightarrow>
     ip_addr list option \<Rightarrow> (mdns_discovery, discovery_error, unit) comp" where
  "mdns_advertise c mr n nm dt port caps ips = (\<lambda>m.
     if mi_registered_fullname m \<noteq> None then (Inl AlreadyRunning, m)
     else
       let m1 = m\<lparr>mi_local_node_id := Some n\<rparr>;
           addrs = (case ips of Some custom \<Rightarrow> IpSlices (map (mr_show_ip mr) custom) | None \<Rightarrow> IpText '''');
           made = mr_service_info mr (dc_service_type (mi_config m1)) (instance_name c n nm)
                    (take 12 (to_hex c n) @ ''.local.'') addrs port (peer_to_txt_properties c n nm dt caps)
       in case made of
            Inl e \<Rightarrow> (Inl (Mdns (''failed to construct ServiceInfo: '' @ e)), m1)
          | Inr info \<Rightarrow>
              (case mr_register mr info of
                 Inl e \<Rightarrow> (Inl (Mdns (''failed to register mDNS service: '' @ e)), m1)
               | Inr _ \<Rightarrow> (Inr (), m1\<lparr>mi_registered_fullname := Some (si_fullname info)\<rparr>)))"

definition mdns_stop_advertising :: "mdns_results \<Rightarrow> (mdns_discovery, discovery_error, unit) comp" where
  "mdns_stop_advertising mr = (\<lambda>m.
     case mi_registered_fullname m of
       None \<Rightarrow> (Inr (), m)
     | Some fullname \<Rightarrow>
         let m1 = m\<lparr>mi_registered_fullname := None\<rparr> in
         (case mr_unregister mr fullname of
            Inl e \<Rightarrow> (Inl (Mdns (''failed to unregister '' @ fullname @ '': '' @ e)), m1)
          | Inr _ \<Rightarrow> (Inr (), m1)))"

definition mdns_start_discovery :: "mdns_results \<Rightarrow> (mdns_discovery, discovery_error, unit) comp" where
  "mdns_start_discovery mr = (\<lambda>m.
     if mi_running m then (Inl AlreadyRunning, m)
     else case mr_browse mr (dc_service_type (mi_config m)) of
       Inl e \<Rightarrow> (Inl (Mdns (''failed to start browsing: '' @ e)), m)
     | Inr _ \<Rightarrow> (Inr (), m\<lparr>mi_running := True\<rparr>))"

definition mdns_shutdown :: "mdns_results \<Rightarrow> mdns_discovery \<Rightarrow> mdns_discovery" where
  "mdns_shutdown mr m = (snd (mdns_stop_advertising mr m))\<lparr>mi_running := False\<rparr>"

text \<open>One turn of the worker, as for UDP.\<close>

datatype mdns_input =
    MdnsShutdown bool
  | MdnsPrune system_time
  | MdnsResolved system_time service_info
  | MdnsRemoved string string
  | MdnsOther
  | MdnsClosed string

fun mdns_step ::
    "'x crates_scheme \<Rightarrow> mdns_input \<Rightarrow> mdns_discovery \<times> discovery_hub \<Rightarrow> bool \<times> mdns_discovery \<times> discovery_hub" where
  "mdns_step c (MdnsShutdown down) (m, h) = (\<not> down, m, h)"
| "mdns_step c (MdnsPrune now) (m, h) = (True, m, hub_prune now (dc_ttl (mi_config m)) h)"
| "mdns_step c (MdnsResolved now info) (m, h) =
     (True, case parse_resolved_service c now info of
              Inl _ \<Rightarrow> (m, h)
            | Inr peer \<Rightarrow>
                if mi_local_node_id m = Some (dp_node_id peer) then (m, h)
                else (m\<lparr>mi_fullname_to_node := (mi_fullname_to_node m)(si_fullname info \<mapsto> dp_node_id peer)\<rparr>,
                      hub_insert now peer h))"
| "mdns_step c (MdnsRemoved _ fullname) (m, h) =
     (True, case mi_fullname_to_node m fullname of
              None \<Rightarrow> (m, h)
            | Some n \<Rightarrow>
                (m\<lparr>mi_fullname_to_node := (mi_fullname_to_node m)(fullname := None)\<rparr>, hub_remove n h))"
| "mdns_step c MdnsOther (m, h) = (True, m, h)"
| "mdns_step c (MdnsClosed _) (m, h) = (False, m, h)"

section \<open>Both channels\<close>

datatype unified_discovery_mode = Both | MdnsOnly | UdpOnly

record unified_discovery_config =
  uf_mode :: unified_discovery_mode
  uf_mdns :: discovery_config
  uf_udp :: udp_config

definition default_unified_config :: unified_discovery_config where
  "default_unified_config =
     \<lparr>uf_mode = Both, uf_mdns = default_discovery_config, uf_udp = default_udp_config\<rparr>"

record unified_discovery =
  un_config :: unified_discovery_config
  un_hub :: discovery_hub
  un_mdns :: "mdns_discovery option"
  un_udp :: "udp_discovery option"
  un_is_running :: bool

definition unified_new :: "mdns_results \<Rightarrow> unified_discovery_config \<Rightarrow> discovery_error + unified_discovery" where
  "unified_new mr config =
     rbind (if uf_mode config = UdpOnly then Inr None
            else rbind (mdns_new mr (uf_mdns config)) (\<lambda>m. Inr (Some m))) (\<lambda>mdns.
     Inr \<lparr>un_config = config, un_hub = hub_new, un_mdns = mdns,
          un_udp = (if uf_mode config = MdnsOnly then None else Some (udp_new (uf_udp config))),
          un_is_running = False\<rparr>)"

text \<open>Running an operation of a channel that may be absent.\<close>

definition on_mdns :: "(mdns_discovery, discovery_error, unit) comp \<Rightarrow> (unified_discovery, discovery_error, unit) comp" where
  "on_mdns op = (\<lambda>un.
     case un_mdns un of
       None \<Rightarrow> (Inr (), un)
     | Some m \<Rightarrow> (case op m of (r, m') \<Rightarrow> (r, un\<lparr>un_mdns := Some m'\<rparr>)))"

definition on_udp :: "(udp_discovery, discovery_error, unit) comp \<Rightarrow> (unified_discovery, discovery_error, unit) comp" where
  "on_udp op = (\<lambda>un.
     case un_udp un of
       None \<Rightarrow> (Inr (), un)
     | Some u \<Rightarrow> (case op u of (r, u') \<Rightarrow> (r, un\<lparr>un_udp := Some u'\<rparr>)))"

definition unified_advertise ::
    "'x crates_scheme \<Rightarrow> mdns_results \<Rightarrow> node_id \<Rightarrow> string \<Rightarrow> device_type \<Rightarrow> u16 \<Rightarrow> capabilities \<Rightarrow>
     ip_addr list option \<Rightarrow> (unified_discovery, discovery_error, unit) comp" where
  "unified_advertise c mr n nm dt port caps ips =
     sbind (on_mdns (mdns_advertise c mr n nm dt port caps ips)) (\<lambda>_.
     on_udp (smodify (udp_advertise n nm dt port caps)))"

definition unified_stop_advertising :: "mdns_results \<Rightarrow> (unified_discovery, discovery_error, unit) comp" where
  "unified_stop_advertising mr =
     sbind (signore (on_mdns (mdns_stop_advertising mr))) (\<lambda>_.
     signore (on_udp (smodify udp_stop_advertising)))"

definition unified_start_discovery ::
    "mdns_results \<Rightarrow> (socket_call \<Rightarrow> string option) \<Rightarrow> (socket_addr \<Rightarrow> string) \<Rightarrow>
     (unified_discovery, discovery_error, unit) comp" where
  "unified_start_discovery mr faults show_addr = (\<lambda>un.
     if un_is_running un then (Inl AlreadyRunning, un)
     else
       sbind (on_mdns (mdns_start_discovery mr)) (\<lambda>_.
       sbind (on_udp (udp_start_discovery faults show_addr)) (\<lambda>_.
       smodify (\<lambda>un. un\<lparr>un_is_running := True\<rparr>))) un)"

definition unified_shutdown ::
    "mdns_results \<Rightarrow> beacon_message postcard \<Rightarrow> bool \<Rightarrow> (unified_discovery, discovery_error, unit) comp" where
  "unified_shutdown mr pc bound =
     sbind (signore (on_mdns (smodify (mdns_shutdown mr)))) (\<lambda>_.
     sbind (signore (on_udp (smodify (udp_shutdown pc bound)))) (\<lambda>_.
     smodify (\<lambda>un. un\<lparr>un_is_running := False\<rparr>)))"

section \<open>Numbers in TXT records\<close>

lemma digit_value_hex: "d < 16 \<Longrightarrow> digit_value (hex_digit d) = Some d"
  by (simp add: digit_value_def hex_digit_def Let_def)

lemma read_digits_snoc:
  "read_digits (s @ [ch]) acc =
     (case read_digits s acc of
        None \<Rightarrow> None
      | Some a \<Rightarrow> (case digit_value ch of
          None \<Rightarrow> None | Some d \<Rightarrow> if a * 16 + d < 2 ^ 32 then Some (a * 16 + d) else None))"
  by (induction s arbitrary: acc) (simp_all split: option.split)

lemma read_show_hex: "n < 2 ^ 32 \<Longrightarrow> read_digits (show_hex n) 0 = Some n"
proof (induction n rule: show_hex.induct)
  case (1 n)
  show ?case
  proof (cases "n < 16")
    case True
    then show ?thesis using 1(2) by (simp add: show_hex.simps [of n] digit_value_hex)
  next
    case False
    have "n div 16 < 2 ^ 32" using 1(2) by (rule order.strict_trans1 [OF div_le_dividend])
    then have "read_digits (show_hex (n div 16)) 0 = Some (n div 16)" using 1(1) False by simp
    then show ?thesis using False 1(2)
      by (simp add: show_hex.simps [of n] read_digits_snoc digit_value_hex)
  qed
qed

lemma show_hex_digits: "ch \<in> set (show_hex n) \<Longrightarrow> \<exists>d < 16. ch = hex_digit d"
proof (induction n rule: show_hex.induct)
  case (1 n)
  have last: "\<exists>d < 16. hex_digit (n mod 16) = hex_digit d" by (intro exI [of _ "n mod 16"]) simp
  show ?case
  proof (cases "n < 16")
    case True
    then show ?thesis using 1(2) by (auto simp: show_hex.simps [of n])
  next
    case False
    then have "ch \<in> set (show_hex (n div 16)) \<or> ch = hex_digit (n mod 16)"
      using 1(2) by (auto simp: show_hex.simps [of n])
    then show ?thesis using 1(1) False last by blast
  qed
qed

lemma hex_digit_not_plus: "d < 16 \<Longrightarrow> hex_digit d \<noteq> CHR ''+''"
proof
  assume "d < 16" "hex_digit d = CHR ''+''"
  then have "digit_value CHR ''+'' = Some d" using digit_value_hex by metis
  then show False by (simp add: digit_value_def Let_def)
qed

lemma from_str_radix_show: "from_str_radix_16 (show_hex (unat (f :: u32))) = Some f"
proof -
  have "show_hex (unat f) \<noteq> []" by (simp add: show_hex.simps [of "unat f"])
  then obtain ch r where s: "show_hex (unat f) = ch # r" by (cases "show_hex (unat f)") auto
  then have "ch \<noteq> CHR ''+''" using show_hex_digits [of ch "unat f"] hex_digit_not_plus by auto
  moreover have "unat f < 2 ^ 32" using unsigned_less [of f] by simp
  ultimately show ?thesis using read_show_hex [of "unat f"] s by (simp add: from_str_radix_16_def)
qed

section \<open>Both workers on one directory\<close>

datatype discovery_input = UdpInput udp_input | MdnsInput mdns_input

text \<open>A turn of either worker, unless it has ended; the flags say which are alive.\<close>

fun discovery_turn ::
    "'x crates_scheme \<Rightarrow> beacon_message postcard \<Rightarrow> discovery_input \<Rightarrow>
     (udp_discovery \<times> bool) \<times> (mdns_discovery \<times> bool) \<times> discovery_hub \<Rightarrow>
     (udp_discovery \<times> bool) \<times> (mdns_discovery \<times> bool) \<times> discovery_hub" where
  "discovery_turn c pc (UdpInput i) ((u, ua), ms, h) =
     (if ua then (case udp_step pc i (u, h) of (go, u', h') \<Rightarrow> ((u', go), ms, h')) else ((u, ua), ms, h))"
| "discovery_turn c pc (MdnsInput i) (us, (m, ma), h) =
     (if ma then (case mdns_step c i (m, h) of (go, m', h') \<Rightarrow> (us, (m', go), h')) else (us, (m, ma), h))"

lemma mdns_step_inv:
  assumes "hub_inv (mi_local_node_id m) h" "mdns_step c i (m, h) = (go, m', h')"
  shows "mi_local_node_id m' = mi_local_node_id m \<and> hub_inv (mi_local_node_id m) h'"
  using assms hub_insert_inv hub_remove_inv hub_prune_inv
  by (cases i) (auto split: sum.splits option.splits if_splits)

definition both_inv ::
    "node_id option \<Rightarrow> (udp_discovery \<times> bool) \<times> (mdns_discovery \<times> bool) \<times> discovery_hub \<Rightarrow> bool" where
  "both_inv own = (\<lambda>((u, _), (m, _), h).
     ud_local_node_id u = own \<and> mi_local_node_id m = own \<and> hub_inv own h)"

lemma discovery_turn_inv:
  assumes "both_inv own st"
  shows "both_inv own (discovery_turn c pc i st)"
proof -
  obtain us ms h where "st = (us, ms, h)" by (cases st)
  moreover obtain u ua where "us = (u, ua)" by (cases us)
  moreover obtain m ma where "ms = (m, ma)" by (cases ms)
  ultimately have st: "st = ((u, ua), (m, ma), h)" by simp
  then have own: "ud_local_node_id u = own" "mi_local_node_id m = own" "hub_inv own h"
    using assms by (simp_all add: both_inv_def)
  show ?thesis
  proof (cases i)
    case (UdpInput j)
    obtain go u' h' where step: "udp_step pc j (u, h) = (go, u', h')" by (metis surj_pair)
    then show ?thesis using udp_step_inv [OF _ step] own UdpInput st by (simp add: both_inv_def)
  next
    case (MdnsInput j)
    obtain go m' h' where step: "mdns_step c j (m, h) = (go, m', h')" by (metis surj_pair)
    then show ?thesis using mdns_step_inv [OF _ step] own MdnsInput st by (simp add: both_inv_def)
  qed
qed

lemma fold_turn_inv: "both_inv own st \<Longrightarrow> both_inv own (fold (discovery_turn c pc) is st)"
  by (induction "is" arbitrary: st) (simp_all add: discovery_turn_inv)

section \<open>Properties\<close>

text \<open>C35: TXT records round-trip. A service advertised with the properties built for a device
  is parsed, by both entry points, into a peer with the device's identifier, name, type and
  capabilities, whatever the 32 capability bits are.\<close>

theorem txt_record_roundtrip:
  assumes "hex_roundtrip c" "node_id_wf n"
    and "si_property info = map_of (peer_to_txt_properties c n nm dt caps)"
  shows "parse_service_info c now info = Inr (discovered_peer_new now n nm dt
      (map (\<lambda>ip. socket_addr_new ip (si_port info)) (si_addresses info)) caps) \<and>
    parse_resolved_service c now info = parse_service_info c now info"
proof -
  have "si_property info ''node_id'' = Some (to_hex c n)" "si_property info ''name'' = Some nm"
    "si_property info ''type'' = Some (device_type_display dt)"
    "si_property info ''caps'' = Some (show_hex (unat (flags caps)))"
    using assms(3) by (simp_all add: peer_to_txt_properties_def)
  then show ?thesis using assms(1,2)
    by (cases caps) (simp add: parse_service_info_def parse_resolved_service_def parse_discovered_peer_def
        from_str_radix_show from_bits_def)
qed


text \<open>A failed start cannot be retried. If the UDP socket cannot be created after mDNS
  browsing has started, the combined start fails and leaves the mDNS worker running; every
  later start then fails because that worker is already running, even when the socket could
  be created.\<close>

theorem unified_start_not_retryable:
  assumes "\<not> un_is_running un" "un_mdns un = Some m" "un_udp un = Some u"
    and "\<not> mi_running m" "\<not> ud_running u"
    and "mr_browse mr (dc_service_type (mi_config m)) = Inr ()"
    and "create_udp_socket faults show_addr (uc_bind_addr (ud_config u)) = Inl e"
  shows "\<exists>un'. unified_start_discovery mr faults show_addr un = (Inl e, un') \<and> \<not> un_is_running un' \<and>
    (\<forall>faults'. fst (unified_start_discovery mr faults' show_addr un') = Inl AlreadyRunning)"
  using assms
  by (simp add: unified_start_discovery_def sbind_def on_mdns_def on_udp_def mdns_start_discovery_def
      udp_start_discovery_def)

section \<open>Witnesses\<close>

definition sample_service :: service_info where
  "sample_service = \<lparr>si_port = 9000, si_addresses = [V4 1],
     si_property = map_of (peer_to_txt_properties sample_crates (NodeId (replicate 32 7)) ''pc'' Windows \<lparr>flags = 3\<rparr>),
     si_fullname = ''pc''\<rparr>"

theorem txt_record_roundtrip_witness:
  "parse_service_info sample_crates 5 sample_service =
     Inr (discovered_peer_new 5 (NodeId (replicate 32 7)) ''pc'' Windows [socket_addr_new (V4 1) 9000] \<lparr>flags = 3\<rparr>)"
  using txt_record_roundtrip [of sample_crates "NodeId (replicate 32 7)" sample_service "''pc''" Windows "\<lparr>flags = 3\<rparr>" 5]
  by (simp add: node_id_wf_def sample_service_def)

definition sample_mdns :: mdns_results where
  "sample_mdns = \<lparr>mr_daemon_new = Inr (), mr_service_info = (\<lambda>_ _ _ _ _ _. Inr sample_service),
     mr_register = (\<lambda>_. Inr ()), mr_unregister = (\<lambda>_. Inr ()), mr_browse = (\<lambda>_. Inr ()), mr_show_ip = (\<lambda>_. ''::'')\<rparr>"

theorem unified_start_not_retryable_witness:
  "\<exists>un un'. unified_new sample_mdns default_unified_config = Inr un \<and>
    unified_start_discovery sample_mdns (\<lambda>_. Some ''denied'') (\<lambda>_. ''addr'') un =
      (Inl (DiscoveryInternal ''failed to create UDP socket: denied''), un') \<and>
    fst (unified_start_discovery sample_mdns (\<lambda>_. None) (\<lambda>_. ''addr'') un') = Inl AlreadyRunning"
proof -
  obtain un m u where new: "unified_new sample_mdns default_unified_config = Inr un"
      and parts: "\<not> un_is_running un" "un_mdns un = Some m" "un_udp un = Some u" "\<not> mi_running m" "\<not> ud_running u"
    by (simp add: unified_new_def mdns_new_def default_unified_config_def sample_mdns_def udp_new_def)
  have "mr_browse sample_mdns (dc_service_type (mi_config m)) = Inr ()" by (simp add: sample_mdns_def)
  moreover have "create_udp_socket (\<lambda>_. Some ''denied'') (\<lambda>_. ''addr'') (uc_bind_addr (ud_config u)) =
      Inl (DiscoveryInternal ''failed to create UDP socket: denied'')"
    by (simp add: create_udp_socket_def)
  ultimately show ?thesis using unified_start_not_retryable [OF parts] new by blast
qed

end
