(* ===== verification/Command_Transfer.thy ===== *)
theory Command_Transfer
  imports Session_Liveness Mdns_Discovery
begin

text \<open>
  Sending a file from the command line: \<open>connect_and_handshake\<close> and \<open>run_send_file\<close> of
  \<open>tools/bridge-cli/src/client.rs\<close>, and the node's side of the same conversation,
  \<open>handle_file_transfer\<close> of \<open>tools/bridge-cli/src/node.rs\<close>. Output to the terminal is not
  modelled; what a command computes for it is its result.
\<close>

section \<open>Errors and endpoints\<close>

text \<open>
  An \<open>anyhow::Error\<close>: the typed error it was made from, or the text of \<open>bail!\<close>, below the
  contexts added to it. \<open>EFuel\<close> is not an error of the program: it stands for a loop that ran
  longer than its fuel.
\<close>

datatype cli_error =
    ESession session_error
  | ECore bridge_error
  | ETransfer transfer_error
  | EIdentity identity_error
  | EDiscovery discovery_error
  | EIo string
  | EBail string
  | EContext string cli_error
  | EFuel

definition with_context :: "string \<Rightarrow> ('s, cli_error, 'a) comp \<Rightarrow> ('s, cli_error, 'a) comp" where
  "with_context msg m = smap_err (EContext msg) m"

lemma with_context_Inr_iff [simp]: "with_context msg m s = (Inr x, t) \<longleftrightarrow> m s = (Inr x, t)"
  by (simp add: with_context_def smap_err_Inr_iff)

text \<open>The text that \<open>{:?}\<close> derives for a transfer message is one more parameter.\<close>

record ('s, 'b) cli_env = "('s, 'b) session_env" +
  cli_debug_transfer :: "transfer_message \<Rightarrow> string"

text \<open>A framed stream and the file system of the process that owns it.\<close>

record 's endpoint =
  ep_stream :: 's
  ep_fs :: fs

definition ep_send ::
    "('s, 'b, 'x) session_env_scheme \<Rightarrow> frame \<Rightarrow> ('s endpoint, cli_error, unit) comp" where
  "ep_send v f = (\<lambda>w.
     case send_frame (env_io v) (env_frames v) f (ep_stream w) of
       (r, st) \<Rightarrow> (map_err ECore r, w\<lparr>ep_stream := st\<rparr>))"

definition ep_recv :: "('s, 'b, 'x) session_env_scheme \<Rightarrow> ('s endpoint, cli_error, frame option) comp" where
  "ep_recv v = (\<lambda>w.
     case recv_frame (env_io v) (env_frames v) (ep_stream w) of
       (r, st) \<Rightarrow> (map_err ECore r, w\<lparr>ep_stream := st\<rparr>))"

text \<open>\<open>recv_frame().await.context(failed)?.context(closed)?\<close>.\<close>

definition ep_expect ::
    "('s, 'b, 'x) session_env_scheme \<Rightarrow> string \<Rightarrow> string \<Rightarrow> ('s endpoint, cli_error, frame) comp" where
  "ep_expect v failed closed =
     sbind (with_context failed (ep_recv v)) (\<lambda>frame_opt. slift (ok_or (EBail closed) frame_opt))"

definition ep_send_msg ::
    "('s, 'b, 'x) session_env_scheme \<Rightarrow> transfer_message \<Rightarrow> string \<Rightarrow> ('s endpoint, cli_error, unit) comp" where
  "ep_send_msg v msg failed =
     sbind (slift (map_err ETransfer (transfer_to_data_frame (env_transfer v) msg))) (\<lambda>df.
     with_context failed (ep_send v (Data df)))"

definition ep_expect_msg ::
    "('s, 'b, 'x) session_env_scheme \<Rightarrow> string \<Rightarrow> string \<Rightarrow> string \<Rightarrow>
     ('s endpoint, cli_error, transfer_message) comp" where
  "ep_expect_msg v failed closed unexpected =
     sbind (ep_expect v failed closed) (\<lambda>fr.
     case fr of
       Data df \<Rightarrow> slift (map_err ETransfer (transfer_from_data_frame (env_transfer v) df))
     | other \<Rightarrow> sfail (EBail (unexpected @ env_debug_frame v other)))"

text \<open>A call that works on the file system, and one on a receiver that is a local variable.\<close>

definition ep_files :: "(fs, 'e, 'a) comp \<Rightarrow> ('s endpoint, 'e, 'a) comp" where
  "ep_files m = (\<lambda>w. case m (ep_fs w) of (r, f) \<Rightarrow> (r, w\<lparr>ep_fs := f\<rparr>))"

definition ep_local :: "('r \<times> fs, 'e, 'a) comp \<Rightarrow> 'r \<Rightarrow> ('s endpoint, 'e, 'a \<times> 'r) comp" where
  "ep_local m r = (\<lambda>w.
     case m (r, ep_fs w) of (x, (r', f)) \<Rightarrow> (rbind x (\<lambda>a. Inr (a, r')), w\<lparr>ep_fs := f\<rparr>))"

section \<open>The client: connecting\<close>

text \<open>\<open>TcpStream::connect\<close>; \<open>refused\<close> is the error it reports, if any.\<close>

definition tcp_connect :: "string \<Rightarrow> string option \<Rightarrow> ('s endpoint, cli_error, unit) comp" where
  "tcp_connect text refused =
     slift (case refused of None \<Rightarrow> Inr () | Some e \<Rightarrow> Inl (EContext text (EIo e)))"

definition connect_and_handshake ::
    "('s, 'b, 'x) session_env_scheme \<Rightarrow> string \<Rightarrow> string option \<Rightarrow> bytes \<Rightarrow> identity_key \<Rightarrow> string \<Rightarrow>
     ('s endpoint, cli_error, server_hello) comp" where
  "connect_and_handshake v peer_addr refused client_nonce client_key device_name =
     sbind (tcp_connect (''Failed to connect to peer at '' @ peer_addr) refused) (\<lambda>_.
     sbind (with_context ''Failed to send ClientHello''
              (ep_send v (Handshake (ClientHello (client_hello_of v client_nonce client_key device_name))))) (\<lambda>_.
     sbind (ep_expect v ''Failed to receive ServerHello frame''
              ''Connection closed unexpectedly while awaiting ServerHello'') (\<lambda>fr.
     case fr of
       Handshake (ServerHello hello) \<Rightarrow>
         sbind (with_context ''Failed to send AuthResponse''
                  (ep_send v (Handshake (AuthResponse
                     \<lparr>signature = sign_handshake_challenge v client_key client_nonce (sh_server_nonce hello)\<rparr>)))) (\<lambda>_.
         sbind (ep_expect v ''Failed to receive AuthResult''
                  ''Connection closed unexpectedly while awaiting AuthResult'') (\<lambda>auth_frame.
         case auth_frame of
           Handshake (AuthResult res) \<Rightarrow>
             if success res then sreturn hello
             else sfail (EBail (''Peer rejected authentication: '' @
               (case reason res of Some r \<Rightarrow> r | None \<Rightarrow> ''unspecified error'')))
         | other \<Rightarrow> sfail (EBail (''Expected AuthResult frame, received: '' @ env_debug_frame v other))))
     | other \<Rightarrow> sfail (EBail (''Expected ServerHello from peer, received: '' @ env_debug_frame v other)))))"

section \<open>The client: sending a file\<close>

text \<open>One turn of the loop: a chunk and its acknowledgement.\<close>

definition send_chunk ::
    "('s, 'b, 'x) cli_env_scheme \<Rightarrow> file_manifest \<Rightarrow> file_chunk \<Rightarrow> ('s endpoint, cli_error, unit) comp" where
  "send_chunk v m ch =
     sbind (ep_send_msg v (TransferData ch) ''Failed to send file chunk'') (\<lambda>_.
     sbind (ep_expect_msg v ''Failed to receive Chunk Ack'' ''Peer disconnected mid-transfer''
              ''Expected Data frame, got: '') (\<lambda>msg.
     case msg of
       Ack ack_fid ack_idx \<Rightarrow>
         if ack_fid \<noteq> fm_file_id m \<or> ack_idx \<noteq> fc_chunk_index ch then
           sfail (EBail (''Ack mismatch: expected chunk '' @ show_nat (unat (fc_chunk_index ch)) @
             '', got '' @ show_nat (unat ack_idx)))
         else sreturn ()
     | Cancel _ r \<Rightarrow> sfail (EBail (''Transfer cancelled by peer: '' @ r))
     | other \<Rightarrow> sfail (EBail (''Expected Ack frame, got: '' @ cli_debug_transfer v other))))"

lemma next_chunk_advances:
  assumes "next_chunk c fl (sd, s) = (Inr (Some ch), (sd', s'))"
  shows "fsnd_manifest sd' = fsnd_manifest sd \<and> fsnd_current_chunk sd < fm_total_chunks (fsnd_manifest sd) \<and>
    fsnd_current_chunk sd' = fsnd_current_chunk sd + 1"
  using assms by (auto simp: next_chunk_def Let_def split: if_splits sum.splits prod.splits)

text \<open>The loop ends because every turn moves the sender one chunk on.\<close>

function stream_chunks ::
    "('s, 'b, 'x) cli_env_scheme \<Rightarrow> file_manifest \<Rightarrow> file_sender \<Rightarrow> u64 \<Rightarrow> 's endpoint \<Rightarrow>
     (cli_error + u64) \<times> 's endpoint" where
  "stream_chunks v m sd transferred_bytes w =
     (case next_chunk v (env_fs_faults v) (sd, ep_fs w) of
        (Inl e, (_, f)) \<Rightarrow>
          (Inl (EContext ''Failed to read next file chunk'' (ETransfer e)), w\<lparr>ep_fs := f\<rparr>)
      | (Inr None, (_, f)) \<Rightarrow> (Inr transferred_bytes, w\<lparr>ep_fs := f\<rparr>)
      | (Inr (Some ch), (sd', f)) \<Rightarrow>
          (case send_chunk v m ch (w\<lparr>ep_fs := f\<rparr>) of
             (Inl e, w') \<Rightarrow> (Inl e, w')
           | (Inr _, w') \<Rightarrow>
               stream_chunks v m sd' (transferred_bytes + of_nat (length (fc_data ch))) w'))"
  by pat_completeness auto
termination
proof (relation "measure (\<lambda>(v, m, sd, tb, w).
    unat (fm_total_chunks (fsnd_manifest sd)) - unat (fsnd_current_chunk sd))", goal_cases)
  case 1
  then show ?case by simp
next
  case (2 v m sd tb w x y b ch sd' f)
  then have "next_chunk v (env_fs_faults v) (sd, ep_fs w) = (Inr (Some ch), (sd', f))" by metis
  from next_chunk_advances [OF this]
  have "fsnd_manifest sd' = fsnd_manifest sd" "fsnd_current_chunk sd < fm_total_chunks (fsnd_manifest sd)"
    "fsnd_current_chunk sd' = fsnd_current_chunk sd + 1" by simp_all
  moreover from this(2) have "unat (fsnd_current_chunk sd) < unat (fm_total_chunks (fsnd_manifest sd))"
    by (simp add: word_less_nat_alt)
  moreover have "unat (fm_total_chunks (fsnd_manifest sd)) < 2 ^ 32"
    using unsigned_less [of "fm_total_chunks (fsnd_manifest sd)"] by simp
  ultimately show ?case by (simp add: unat_word_ariths)
qed

declare stream_chunks.simps [simp del]

definition await_accept ::
    "('s, 'b, 'x) cli_env_scheme \<Rightarrow> file_manifest \<Rightarrow> ('s endpoint, cli_error, u32) comp" where
  "await_accept v m =
     sbind (ep_expect_msg v ''Failed to receive Accept frame'' ''Peer closed connection while awaiting Accept''
              ''Expected Data frame, received: '') (\<lambda>msg.
     case msg of
       Accept file_id start_chunk \<Rightarrow>
         if file_id \<noteq> fm_file_id m then
           sfail (EBail (''File ID mismatch in Accept message: expected '' @ fm_file_id m @ '', got '' @ file_id))
         else sreturn start_chunk
     | Cancel _ r \<Rightarrow> sfail (EBail (''Peer rejected file transfer: '' @ r))
     | other \<Rightarrow> sfail (EBail (''Expected Accept frame from peer, received: '' @ cli_debug_transfer v other)))"

definition await_complete ::
    "('s, 'b, 'x) cli_env_scheme \<Rightarrow> file_manifest \<Rightarrow> ('s endpoint, cli_error, unit) comp" where
  "await_complete v m =
     sbind (ep_expect_msg v ''Failed to receive Complete frame''
              ''Peer closed connection while awaiting Complete confirmation'' ''Expected Data frame, got: '') (\<lambda>msg.
     case msg of
       Complete file_id \<Rightarrow>
         if file_id \<noteq> fm_file_id m then
           sfail (EBail (''Complete file ID mismatch: expected '' @ fm_file_id m @ '', got '' @ file_id))
         else sreturn ()
     | Cancel _ r \<Rightarrow> sfail (EBail (''Peer rejected file hash verification: '' @ r))
     | other \<Rightarrow> sfail (EBail (''Expected Complete confirmation, got: '' @ cli_debug_transfer v other)))"

text \<open>The conversation after the handshake; the result is the number of bytes transferred.\<close>

definition send_manifest ::
    "('s, 'b, 'x) cli_env_scheme \<Rightarrow> string \<Rightarrow> file_manifest \<Rightarrow> ('s endpoint, cli_error, u64) comp" where
  "send_manifest v file_path m =
     sbind (ep_send_msg v (Offer m) ''Failed to send TransferMessage::Offer'') (\<lambda>_.
     sbind (await_accept v m) (\<lambda>start_chunk.
     sbind (with_context ''Failed to initialize FileSender''
              (smap_err ETransfer (ep_files (sender_from_file (env_fs_faults v) file_path m start_chunk)))) (\<lambda>sender.
     sbind (stream_chunks v m sender 0) (\<lambda>transferred_bytes.
     sbind (ep_send_msg v (Finished (fm_file_id m) (fm_root_hash m)) ''Failed to send Finished signal'') (\<lambda>_.
     sbind (await_complete v m) (\<lambda>_.
     sbind (signore (ep_send v (Control (Disconnect Graceful)))) (\<lambda>_.
     sreturn transferred_bytes)))))))"

text \<open>\<open>entropy\<close> is the key material drawn when no key is given.\<close>

definition run_send_file ::
    "('s, 'b, 'x) cli_env_scheme \<Rightarrow> string \<Rightarrow> string option \<Rightarrow> bytes \<Rightarrow> bytes \<Rightarrow> string \<Rightarrow> string \<Rightarrow>
     identity_key option \<Rightarrow> ('s endpoint, cli_error, u64) comp" where
  "run_send_file v peer_addr refused entropy client_nonce file_path device_name client_key =
     sbind (sget (\<lambda>w. fs_exists (ep_fs w) file_path)) (\<lambda>found.
     if \<not> found then sfail (EBail (''File not found: '' @ file_path))
     else
       sbind (with_context (''Failed to create file manifest for '' @ file_path)
                (smap_err ETransfer (ep_files (create_manifest_from_file v (env_fs_faults v) file_path)))) (\<lambda>m.
       sbind (connect_and_handshake v peer_addr refused client_nonce
                (case client_key of Some k \<Rightarrow> k | None \<Rightarrow> generate entropy) device_name) (\<lambda>_.
       send_manifest v file_path m)))"

section \<open>The node: receiving a file\<close>

definition finish_transfer ::
    "('s, 'b, 'x) cli_env_scheme \<Rightarrow> file_manifest \<Rightarrow> string \<Rightarrow> bytes \<Rightarrow> file_receiver \<Rightarrow>
     ('s endpoint, cli_error, string) comp" where
  "finish_transfer v m fin_id root receiver =
     (if fin_id \<noteq> fm_file_id m then sfail (EBail ''Finished file ID mismatch'')
      else if root \<noteq> fm_root_hash m then
        sfail (EBail ''Finished message root hash mismatch with initial offer manifest'')
      else
        sbind (with_context ''Blake3 root hash verification failed for received file''
                 (smap_err ETransfer (ep_local (finalize_file v (env_fs_faults v)) receiver))) (\<lambda>(final_path, _).
        sbind (ep_send_msg v (Complete (fm_file_id m)) ''Failed to send TransferMessage::Complete'') (\<lambda>_.
        sreturn final_path)))"

definition chunk_message ::
    "('s, 'b, 'x) cli_env_scheme \<Rightarrow> frame \<Rightarrow> cli_error + transfer_message" where
  "chunk_message v fr =
     (case fr of
        Data df \<Rightarrow> map_err ETransfer (transfer_from_data_frame (env_transfer v) df)
      | Control (Disconnect _) \<Rightarrow> Inl (EBail ''Sender aborted transfer with Disconnect signal'')
      | other \<Rightarrow> Inl (EBail (''Expected Data frame for file transfer, received '' @ env_debug_frame v other)))"

fun receive_chunks ::
    "('s, 'b, 'x) cli_env_scheme \<Rightarrow> nat \<Rightarrow> file_manifest \<Rightarrow> file_receiver \<Rightarrow> ('s endpoint, cli_error, string) comp" where
  "receive_chunks v 0 m receiver = sfail EFuel"
| "receive_chunks v (Suc n) m receiver =
     sbind (ep_expect v ''Failed to receive chunk frame'' ''Sender disconnected during file transfer'') (\<lambda>fr.
     sbind (slift (chunk_message v fr)) (\<lambda>msg.
     case msg of
       TransferData ch \<Rightarrow>
         sbind (with_context ''Failed to write received file chunk''
                  (smap_err ETransfer (ep_local (receive_chunk v (env_fs_faults v) ch) receiver))) (\<lambda>(_, receiver').
         sbind (ep_send_msg v (Ack (fm_file_id m) (fc_chunk_index ch)) ''Failed to send chunk Ack'') (\<lambda>_.
         receive_chunks v n m receiver'))
     | Finished fin_id root \<Rightarrow> finish_transfer v m fin_id root receiver
     | Cancel _ r \<Rightarrow> sfail (EBail (''Transfer cancelled by sender: '' @ r))
     | other \<Rightarrow> sfail (EBail (''Unexpected message during chunk streaming: '' @ cli_debug_transfer v other))))"

text \<open>The result is the path of a received file, \<open>None\<close> for a message that starts no transfer.\<close>

definition handle_file_transfer ::
    "('s, 'b, 'x) cli_env_scheme \<Rightarrow> nat \<Rightarrow> bytes \<Rightarrow> string \<Rightarrow> ('s endpoint, cli_error, string option) comp" where
  "handle_file_transfer v fuel pl receive_dir =
     sbind (with_context ''Failed to deserialize TransferMessage payload''
              (slift (map_err ETransfer (transfer_from_bytes (env_transfer v) pl)))) (\<lambda>msg.
     case msg of
       Offer m \<Rightarrow>
         sbind (with_context ''Failed to initialize file receiver''
                  (smap_err ETransfer (ep_files (to_dir (env_fs_faults v) receive_dir m)))) (\<lambda>receiver.
         sbind (ep_send_msg v (Accept (fm_file_id m) (next_expected_chunk receiver))
                  ''Failed to send Accept frame'') (\<lambda>_.
         sbind (receive_chunks v fuel m receiver) (\<lambda>final_path.
         sreturn (Some final_path))))
     | _ \<Rightarrow> sreturn None)"

section \<open>The conversation on a pipe\<close>

definition on_transfer :: "('s, 'b, 'x) session_env_scheme \<Rightarrow> transfer_message \<Rightarrow> bytes \<Rightarrow> bool" where
  "on_transfer v m b \<longleftrightarrow>
     (\<exists>df. transfer_to_data_frame (env_transfer v) m = Inr df \<and> encode_frame (env_frames v) (Data df) = Inr b)"

definition put_out :: "bytes \<Rightarrow> pipe endpoint \<Rightarrow> pipe endpoint" where
  "put_out b w = w\<lparr>ep_stream := push_out b (ep_stream w)\<rparr>"

definition take_in :: "bytes \<Rightarrow> pipe endpoint \<Rightarrow> pipe endpoint" where
  "take_in rest w = w\<lparr>ep_stream := (ep_stream w)\<lparr>inbox := rest\<rparr>\<rparr>"

lemma endpoint_sel [simp]:
  "inbox (ep_stream (put_out b w)) = inbox (ep_stream w)" "inbox (ep_stream (take_in rest w)) = rest"
  "outbox (ep_stream (put_out b w)) = outbox (ep_stream w) @ b"
  "outbox (ep_stream (take_in rest w)) = outbox (ep_stream w)"
  "ep_fs (put_out b w) = ep_fs w" "ep_fs (take_in rest w) = ep_fs w"
  by (simp_all add: put_out_def take_in_def)

lemma endpoint_comm [simp]:
  "put_out b (put_out a w) = put_out (a @ b) w" "take_in r (take_in q w) = take_in r w"
  "take_in r (put_out b w) = put_out b (take_in r w)"
  "(put_out b w)\<lparr>ep_fs := f\<rparr> = put_out b (w\<lparr>ep_fs := f\<rparr>)"
  "(take_in r w)\<lparr>ep_fs := f\<rparr> = take_in r (w\<lparr>ep_fs := f\<rparr>)"
  "take_in (inbox (ep_stream w)) w = w" "put_out [] w = w"
  by (simp_all add: put_out_def take_in_def push_out_def)

lemma ep_send_pipe:
  "\<lbrakk>piped v; encode_frame (env_frames v) f = Inr b\<rbrakk> \<Longrightarrow> ep_send v f w = (Inr (), put_out b w)"
  by (simp add: ep_send_def piped_def send_frame_pipe put_out_def push_out_def)

lemma ep_expect_pipe:
  "\<lbrakk>piped v; encode_frame (env_frames v) f = Inr b; inbox (ep_stream w) = b @ rest\<rbrakk> \<Longrightarrow>
     ep_expect v failed closed w = (Inr f, take_in rest w)"
  using recv_frame_pipe_encoded [of "env_frames v" f b "ep_stream w" rest]
  by (simp add: ep_expect_def ep_recv_def piped_def take_in_def sbind_def with_context_def smap_err_def)

lemma ep_send_msg_pipe:
  "\<lbrakk>piped v; on_transfer v m b\<rbrakk> \<Longrightarrow> ep_send_msg v m failed w = (Inr (), put_out b w)"
  by (auto simp: on_transfer_def ep_send_msg_def sbind_def with_context_def smap_err_def ep_send_pipe)

lemma on_transfer_decode:
  assumes "postcard_roundtrip (env_transfer v)" "on_transfer v m b"
  obtains df where "encode_frame (env_frames v) (Data df) = Inr b"
    "transfer_from_data_frame (env_transfer v) df = Inr m"
  using assms
  by (auto simp: on_transfer_def transfer_to_data_frame_def transfer_to_bytes_def rbind_Inr_iff
      transfer_from_data_frame_def transfer_from_bytes_def postcard_roundtripD)

lemma ep_expect_msg_pipe:
  assumes "piped v" "postcard_roundtrip (env_transfer v)" "on_transfer v m b" "inbox (ep_stream w) = b @ rest"
  shows "ep_expect_msg v failed closed unexpected w = (Inr m, take_in rest w)"
proof -
  obtain df where "encode_frame (env_frames v) (Data df) = Inr b" "transfer_from_data_frame (env_transfer v) df = Inr m"
    using on_transfer_decode [OF assms(2,3)] .
  with ep_expect_pipe [OF assms(1) this(1) assms(4)] show ?thesis by (simp add: ep_expect_msg_def sbind_def)
qed

text \<open>Both loops, against the bytes the other side writes. \<open>enc\<close> gives the bytes of a message.\<close>

abbreviation ack_bytes :: "(transfer_message \<Rightarrow> bytes) \<Rightarrow> string \<Rightarrow> nat list \<Rightarrow> bytes" where
  "ack_bytes enc fid ks \<equiv> concat (map (\<lambda>k. enc (Ack fid (of_nat k))) ks)"

abbreviation chunk_bytes ::
    "'x crates_scheme \<Rightarrow> (transfer_message \<Rightarrow> bytes) \<Rightarrow> string \<Rightarrow> bytes \<Rightarrow> nat list \<Rightarrow> bytes" where
  "chunk_bytes c enc fid d ks \<equiv> concat (map (\<lambda>k. enc (TransferData (honest_chunk c fid d k))) ks)"

lemma honest_chunk_sel [simp]:
  "fc_chunk_index (honest_chunk c fid d k) = of_nat k" "fc_data (honest_chunk c fid d k) = chunk_slice d k"
  by (simp_all add: honest_chunk_def chunk_new_def)

lemma send_chunk_pipe:
  assumes "piped v" "postcard_roundtrip (env_transfer v)" "fm_file_id m = fid"
    and "on_transfer v (TransferData ch) bc" "on_transfer v (Ack fid (fc_chunk_index ch)) ba"
    and "inbox (ep_stream w) = ba @ rest"
  shows "send_chunk v m ch w = (Inr (), put_out bc (take_in rest w))"
proof -
  have "inbox (ep_stream (put_out bc w)) = ba @ rest" using assms(6) by simp
  from ep_expect_msg_pipe [OF assms(1,2,5) this] show ?thesis
    by (simp add: send_chunk_def sbind_def ep_send_msg_pipe [OF assms(1,4)] assms(3))
qed

lemma stream_chunks_pipe:
  assumes "piped v" "postcard_roundtrip (env_transfer v)" "fm_file_id m = fid"
    and wire: "\<And>k. k < nchunks (length d) \<Longrightarrow> on_transfer v (TransferData (honest_chunk v fid d k)) (enc (TransferData (honest_chunk v fid d k)))"
      "\<And>k. k < nchunks (length d) \<Longrightarrow> on_transfer v (Ack fid (of_nat k)) (enc (Ack fid (of_nat k)))"
    and "sender_at v (env_fs_faults v) fid d k (sd, ep_fs w)" "k \<le> nchunks (length d)"
    and "inbox (ep_stream w) = ack_bytes enc fid [k..<nchunks (length d)] @ rest"
  shows "stream_chunks v m sd tb w =
    (Inr (tb + of_nat (length (concat (map (chunk_slice d) [k..<nchunks (length d)])))),
     put_out (chunk_bytes v enc fid d [k..<nchunks (length d)]) (take_in rest w))"
  using assms(6-8)
proof (induction "nchunks (length d) - k" arbitrary: k sd tb w)
  case 0
  then have "k = nchunks (length d)" by simp
  then show ?case using 0(2,4) next_chunk_done [OF 0(2)]
    by (simp add: stream_chunks.simps [of v m sd tb w])
next
  case (Suc n)
  then have k: "k < nchunks (length d)" by simp
  then have upt: "[k..<nchunks (length d)] = k # [Suc k..<nchunks (length d)]" by (rule upt_conv_Cons)
  obtain sd' where nx: "next_chunk v (env_fs_faults v) (sd, ep_fs w) = (Inr (Some (honest_chunk v fid d k)), (sd', ep_fs w))"
      and at: "sender_at v (env_fs_faults v) fid d (Suc k) (sd', ep_fs w)"
    using next_chunk_honest [OF Suc(3) k] by blast
  let ?bc = "enc (TransferData (honest_chunk v fid d k))"
    and ?rest = "ack_bytes enc fid [Suc k..<nchunks (length d)] @ rest"
  let ?w = "put_out ?bc (take_in ?rest w)"
  have sent: "send_chunk v m (honest_chunk v fid d k) w = (Inr (), ?w)"
    using Suc(5) wire k by (intro send_chunk_pipe [OF assms(1-3)]) (simp_all add: upt)
  have at': "sender_at v (env_fs_faults v) fid d (Suc k) (sd', ep_fs ?w)" using at by simp
  have "n = nchunks (length d) - Suc k" "Suc k \<le> nchunks (length d)" using Suc(2) k by simp_all
  from Suc(1) [OF this(1) at' this(2)] show ?case
    using nx sent by (simp add: stream_chunks.simps [of v m sd tb w] upt add.assoc)
qed

lemma receive_chunks_pipe:
  assumes "piped v" "postcard_roundtrip (env_transfer v)" "fm_file_id m = fid" "fm_root_hash m = root"
    and wire: "\<And>k. k \<in> set ks \<Longrightarrow> on_transfer v (TransferData (honest_chunk v fid d k)) (enc (TransferData (honest_chunk v fid d k)))"
      "\<And>k. k \<in> set ks \<Longrightarrow> on_transfer v (Ack fid (of_nat k)) (enc (Ack fid (of_nat k)))"
      "on_transfer v (Finished fid root) (enc (Finished fid root))" "on_transfer v (Complete fid) (enc (Complete fid))"
    and "put_all (receive_chunk v (env_fs_faults v)) (map (honest_chunk v fid d) ks) (r, ep_fs w) = (Inr (), (r', f'))"
    and "finalize_file v (env_fs_faults v) (r', f') = (Inr path, (r'', f''))"
    and "inbox (ep_stream w) = chunk_bytes v enc fid d ks @ enc (Finished fid root) @ rest" "length ks < fuel"
  shows "receive_chunks v fuel m r w =
    (Inr path, put_out (ack_bytes enc fid ks @ enc (Complete fid)) (take_in rest (w\<lparr>ep_fs := f''\<rparr>)))"
  using wire assms(9-12)
proof (induction ks arbitrary: r w fuel)
  case Nil
  obtain n where fuel: "fuel = Suc n" using Nil.prems(8) by (cases fuel) simp_all
  obtain df where "encode_frame (env_frames v) (Data df) = Inr (enc (Finished fid root))"
      "transfer_from_data_frame (env_transfer v) df = Inr (Finished fid root)"
    using on_transfer_decode [OF assms(2) Nil.prems(3)] .
  with ep_expect_pipe [OF assms(1) this(1), of w rest] Nil.prems show ?case
    by (simp add: fuel sbind_def chunk_message_def finish_transfer_def assms(3,4) with_context_def smap_err_def
        ep_local_def ep_send_msg_pipe [OF assms(1) Nil.prems(4)])
next
  case (Cons k ks)
  obtain n where fuel: "fuel = Suc n" "length ks < n" using Cons.prems(8) by (cases fuel) simp_all
  let ?ch = "honest_chunk v fid d k"
  let ?rest = "chunk_bytes v enc fid d ks @ enc (Finished fid root) @ rest"
  obtain r1 f1 where one: "receive_chunk v (env_fs_faults v) ?ch (r, ep_fs w) = (Inr (), (r1, f1))"
      and more: "put_all (receive_chunk v (env_fs_faults v)) (map (honest_chunk v fid d) ks) (r1, f1) = (Inr (), (r', f'))"
    using Cons.prems(5) by (auto simp: sbind_Inr_iff)
  obtain df where "encode_frame (env_frames v) (Data df) = Inr (enc (TransferData ?ch))"
      and df: "transfer_from_data_frame (env_transfer v) df = Inr (TransferData ?ch)"
    using on_transfer_decode [OF assms(2) Cons.prems(1) [of k]] by auto
  with ep_expect_pipe [OF assms(1) this(1), of w ?rest] Cons.prems(7)
  have recv: "ep_expect v failed closed w = (Inr (Data df), take_in ?rest w)" for failed closed by simp
  let ?w = "put_out (enc (Ack fid (of_nat k))) (take_in ?rest (w\<lparr>ep_fs := f1\<rparr>))"
  have step: "receive_chunks v fuel m r w = receive_chunks v n m r1 ?w"
    using recv df one ep_send_msg_pipe [OF assms(1) Cons.prems(2) [of k]]
    by (simp add: fuel(1) sbind_def chunk_message_def with_context_def smap_err_def ep_local_def assms(3))
  have "receive_chunks v n m r1 ?w =
      (Inr path, put_out (ack_bytes enc fid ks @ enc (Complete fid)) (take_in rest (?w\<lparr>ep_fs := f''\<rparr>)))"
    by (rule Cons.IH) (use Cons.prems more fuel in simp_all)
  then show ?case using step by simp
qed

section \<open>The whole conversation\<close>

lemma concat_slices:
  "k \<le> nchunks (length d) \<Longrightarrow>
     concat (map (chunk_slice d) [k..<nchunks (length d)]) = drop (k * CHUNK_SIZE) d"
proof (induction "nchunks (length d) - k" arbitrary: k)
  case 0
  then have "\<not> k * CHUNK_SIZE < length d" using less_nchunks_iff [of k "length d"] by simp
  with 0 show ?case by simp
next
  case (Suc n)
  then have "k < nchunks (length d)" "n = nchunks (length d) - Suc k" by simp_all
  then show ?case
    using Suc(1) [of "Suc k"]
    by (simp add: upt_conv_Cons chunk_slice_def add.commute flip: drop_drop)
qed

text \<open>The messages of a transfer that starts at chunk \<open>k\<close>.\<close>

definition conversation :: "'x crates_scheme \<Rightarrow> file_manifest \<Rightarrow> bytes \<Rightarrow> nat \<Rightarrow> transfer_message list" where
  "conversation c m d k =
     [Offer m, Accept (fm_file_id m) (of_nat k), Finished (fm_file_id m) (fm_root_hash m), Complete (fm_file_id m)] @
     concat (map (\<lambda>i. [TransferData (honest_chunk c (fm_file_id m) d i), Ack (fm_file_id m) (of_nat i)])
       [0..<nchunks (length d)])"

definition speaks :: "('s, 'b, 'x) session_env_scheme \<Rightarrow> (transfer_message \<Rightarrow> bytes) \<Rightarrow> transfer_message list \<Rightarrow> bool" where
  "speaks v enc msgs \<longleftrightarrow> list_all (\<lambda>msg. on_transfer v msg (enc msg)) msgs"

lemma speaksD:
  assumes "speaks v enc (conversation c m d k)" "fm_file_id m = fid"
  shows "on_transfer v (Offer m) (enc (Offer m))"
    "on_transfer v (Accept fid (of_nat k)) (enc (Accept fid (of_nat k)))"
    "on_transfer v (Finished fid (fm_root_hash m)) (enc (Finished fid (fm_root_hash m)))"
    "on_transfer v (Complete fid) (enc (Complete fid))"
    "i < nchunks (length d) \<Longrightarrow> on_transfer v (TransferData (honest_chunk c fid d i)) (enc (TransferData (honest_chunk c fid d i)))"
    "i < nchunks (length d) \<Longrightarrow> on_transfer v (Ack fid (of_nat i)) (enc (Ack fid (of_nat i)))"
  using assms by (auto simp: speaks_def conversation_def list_all_iff)

text \<open>What the two sides write after the handshake, the client's offer and farewell apart.\<close>

definition sender_bytes :: "'x crates_scheme \<Rightarrow> (transfer_message \<Rightarrow> bytes) \<Rightarrow> file_manifest \<Rightarrow> bytes \<Rightarrow> nat \<Rightarrow> bytes" where
  "sender_bytes c enc m d k =
     chunk_bytes c enc (fm_file_id m) d [k..<nchunks (length d)] @ enc (Finished (fm_file_id m) (fm_root_hash m))"

definition receiver_bytes :: "(transfer_message \<Rightarrow> bytes) \<Rightarrow> file_manifest \<Rightarrow> bytes \<Rightarrow> nat \<Rightarrow> bytes" where
  "receiver_bytes enc m d k =
     enc (Accept (fm_file_id m) (of_nat k)) @ ack_bytes enc (fm_file_id m) [k..<nchunks (length d)] @
     enc (Complete (fm_file_id m))"

lemma send_manifest_pipe:
  assumes v: "piped v" "postcard_roundtrip (env_transfer v)" "env_fs_faults v = no_faults"
    and m: "manifest_for v (fm_file_id m) d m" "files (ep_fs w) src = Some d" "k \<le> nchunks (length d)"
    and wire: "speaks v enc (conversation v m d k)"
      "encode_frame (env_frames v) (Control (Disconnect Graceful)) = Inr bye"
    and inb: "inbox (ep_stream w) = receiver_bytes enc m d k @ rest"
  shows "send_manifest v src m w =
    (Inr (of_nat (length d - k * CHUNK_SIZE)),
     put_out (enc (Offer m) @ sender_bytes v enc m d k @ bye) (take_in rest w))"
proof -
  let ?fid = "fm_file_id m"
  note on = speaksD [OF wire(1) refl]
  let ?acks = "ack_bytes enc ?fid [k..<nchunks (length d)]"
  define w1 where "w1 = put_out (enc (Offer m)) w"
  define w2 where "w2 = take_in (?acks @ enc (Complete ?fid) @ rest) w1"
  define w3 where "w3 = put_out (chunk_bytes v enc ?fid d [k..<nchunks (length d)]) (take_in (enc (Complete ?fid) @ rest) w2)"
  define w4 where "w4 = put_out (enc (Finished ?fid (fm_root_hash m))) w3"
  note w_defs = w1_def w2_def w3_def w4_def
  have acc: "await_accept v m w1 = (Inr (of_nat k), w2)"
    using ep_expect_msg_pipe [OF v(1,2) on(2), of w1 "?acks @ enc (Complete ?fid) @ rest"] inb
    by (simp add: await_accept_def sbind_def w_defs receiver_bytes_def)
  obtain sd where sd: "sender_from_file no_faults src m (of_nat k) (ep_fs w2) = (Inr sd, ep_fs w2)"
      "sender_at v no_faults ?fid d k (sd, ep_fs w2)"
    using sender_from_file_at [OF m(1) _ m(3), of "ep_fs w2" src] m(2) by (auto simp: w_defs)
  have str: "stream_chunks v m sd 0 w2 = (Inr (of_nat (length d - k * CHUNK_SIZE)), w3)"
    using stream_chunks_pipe [OF v(1,2) refl on(5,6), of k sd w2 "enc (Complete ?fid) @ rest" 0] sd(2) m(3)
    by (simp add: v(3) w3_def w2_def concat_slices)
  have com: "await_complete v m w4 = (Inr (), take_in rest w4)"
    using ep_expect_msg_pipe [OF v(1,2) on(4), of w4 rest] by (simp add: await_complete_def sbind_def w_defs)
  have "send_manifest v src m w = (Inr (of_nat (length d - k * CHUNK_SIZE)), put_out bye (take_in rest w4))"
    using acc sd(1) str com ep_send_msg_pipe [OF v(1) on(1), of _ w] ep_send_msg_pipe [OF v(1) on(3), of _ w3]
      ep_send_pipe [OF v(1) wire(2), of "take_in rest w4"]
    by (simp add: send_manifest_def sbind_def w1_def [symmetric] w4_def [symmetric] with_context_def smap_err_def
        ep_files_def v(3))
  then show ?thesis by (simp add: w_defs sender_bytes_def)
qed

lemma handle_file_transfer_pipe:
  assumes v: "piped v" "postcard_roundtrip (env_transfer v)" "env_fs_faults v = no_faults"
    and m: "manifest_for v (fm_file_id m) d m" "fm_filename m = fn" "L \<le> length d"
      "file_content (ep_fs w) (path_join dir (fn @ ''.part'')) = take L d" "k = L div CHUNK_SIZE"
    and pl: "transfer_from_bytes (env_transfer v) pl = Inr (Offer m)"
    and wire: "speaks v enc (conversation v m d k)"
    and inb: "inbox (ep_stream w) = sender_bytes v enc m d k @ rest" "nchunks (length d) < fuel"
  shows "\<exists>f. handle_file_transfer v fuel pl dir w =
      (Inr (Some (path_join dir fn)), put_out (receiver_bytes enc m d k) (take_in rest (w\<lparr>ep_fs := f\<rparr>))) \<and>
    files f (path_join dir fn) = Some d \<and>
    (\<forall>p. p \<noteq> path_join dir fn \<and> p \<noteq> path_join dir (fn @ ''.part'') \<longrightarrow> files f p = files (ep_fs w) p)"
proof -
  let ?fid = "fm_file_id m" and ?ks = "[k..<nchunks (length d)]"
  note on = speaksD [OF wire refl]
  obtain r t r' t' r'' t'' where rc: "to_dir no_faults dir m (ep_fs w) = (Inr r, t)" "next_expected_chunk r = of_nat k"
      "put_all (receive_chunk v no_faults) (map (honest_chunk v ?fid d) ?ks) (r, t) = (Inr (), (r', t'))"
      "finalize_file v no_faults (r', t') = (Inr (path_join dir fn), (r'', t''))"
    and post: "files t'' (path_join dir fn) = Some d"
      "\<forall>p. p \<noteq> path_join dir fn \<and> p \<noteq> path_join dir (fn @ ''.part'') \<longrightarrow> files t'' p = files (ep_fs w) p"
    using resumed_receiver [OF m(1,3,2,4,5)] by blast
  define w1 where "w1 = put_out (enc (Accept ?fid (of_nat k))) (w\<lparr>ep_fs := t\<rparr>)"
  have loop: "receive_chunks v fuel m r w1 = (Inr (path_join dir fn),
      put_out (ack_bytes enc ?fid ?ks @ enc (Complete ?fid)) (take_in rest (w1\<lparr>ep_fs := t''\<rparr>)))"
    by (rule receive_chunks_pipe [OF v(1,2) refl refl on(5,6,3,4)])
      (use rc inb v(3) in \<open>simp_all add: w1_def sender_bytes_def\<close>)
  have "handle_file_transfer v fuel pl dir w = (Inr (Some (path_join dir fn)),
      put_out (ack_bytes enc ?fid ?ks @ enc (Complete ?fid)) (take_in rest (w1\<lparr>ep_fs := t''\<rparr>)))"
    using rc(1,2) loop pl ep_send_msg_pipe [OF v(1) on(2), of _ "w\<lparr>ep_fs := t\<rparr>"]
    by (simp add: handle_file_transfer_def sbind_def with_context_def smap_err_def ep_files_def v(3) w1_def [symmetric])
  then show ?thesis using post by (intro exI [of _ t'']) (simp add: w1_def receiver_bytes_def)
qed

lemma connect_pipe:
  assumes v: "piped v"
    and enc: "map (encode_frame (env_frames v)) (handshake_frames v kc nmc cn ks nms sn) = map Inr [ba, bb, bc, bd]"
    and inb: "inbox (ep_stream w) = bb @ bd @ rest"
  shows "connect_and_handshake v addr None cn kc nmc w =
    (Inr (server_hello_of v sn ks nms (client_hello_of v cn kc nmc)), put_out (ba @ bc) (take_in rest w))"
proof -
  have e: "encode_frame (env_frames v) (Handshake (ClientHello (client_hello_of v cn kc nmc))) = Inr ba"
      "encode_frame (env_frames v) (Handshake (ServerHello (server_hello_of v sn ks nms (client_hello_of v cn kc nmc)))) = Inr bb"
      "encode_frame (env_frames v) (Handshake (AuthResponse \<lparr>signature = sign_handshake_challenge v kc cn sn\<rparr>)) = Inr bc"
      "encode_frame (env_frames v) (Handshake (AuthResult auth_ok)) = Inr bd"
    using enc by (simp_all add: handshake_frames_def)
  have ins: "inbox (ep_stream (put_out ba w)) = bb @ bd @ rest"
    "inbox (ep_stream (put_out bc (take_in (bd @ rest) (put_out ba w)))) = bd @ rest"
    using inb by simp_all
  show ?thesis
    using ep_send_pipe [OF v e(1), of w] ep_expect_pipe [OF v e(2) ins(1)]
      ep_send_pipe [OF v e(3), of "take_in (bd @ rest) (put_out ba w)"] ep_expect_pipe [OF v e(4) ins(2)]
    by (simp add: connect_and_handshake_def tcp_connect_def sbind_def with_context_def smap_err_def auth_ok_def)
qed

end
