(* ===== verification/Peer_Node.thy ===== *)
theory Peer_Node
  imports Command_Transfer
begin

text \<open>
  The long-running node of \<open>tools/bridge-cli/src/node.rs\<close>: starting it, serving a connection,
  and broadcasting clipboard updates to the peers that are connected and trusted.
\<close>

section \<open>The world of a command\<close>

text \<open>\<open>cw_db\<close> is the database in the file \<open>trust.db\<close>, \<open>None\<close> while there is no such file.\<close>

record 's cli_world =
  cw_stream :: 's
  cw_fs :: fs
  cw_db :: "trust_db option"

definition on_endpoint :: "('s endpoint, 'e, 'a) comp \<Rightarrow> ('s cli_world, 'e, 'a) comp" where
  "on_endpoint m = (\<lambda>w.
     case m \<lparr>ep_stream = cw_stream w, ep_fs = cw_fs w\<rparr> of
       (r, e) \<Rightarrow> (r, w\<lparr>cw_stream := ep_stream e, cw_fs := ep_fs e\<rparr>))"

definition on_fs :: "(fs, 'e, 'a) comp \<Rightarrow> ('s cli_world, 'e, 'a) comp" where
  "on_fs m = (\<lambda>w. case m (cw_fs w) of (r, f) \<Rightarrow> (r, w\<lparr>cw_fs := f\<rparr>))"

definition key_path :: "string \<Rightarrow> string" where
  "key_path data_dir = path_join (path_join data_dir ''identity'') ''secret.key''"

definition trust_path :: "string \<Rightarrow> string" where
  "trust_path data_dir = path_join data_dir ''trust.db''"

text \<open>\<open>TrustStore::open\<close>: a new file starts empty, and exists once SQLite has opened it.\<close>

definition open_trust ::
    "('s, 'b, 'x) session_env_scheme \<Rightarrow> string \<Rightarrow> ('s cli_world, cli_error, trust_db) comp" where
  "open_trust v data_dir = (\<lambda>w.
     let stored = (case cw_db w of None \<Rightarrow> empty_db | Some db \<Rightarrow> db) in
     case open_store (env_fs_faults v) (env_db_faults v) (trust_path data_dir) stored (cw_fs w) of
       (Inr store, f) \<Rightarrow> (Inr store, w\<lparr>cw_fs := f, cw_db := Some store\<rparr>)
     | (Inl e, f) \<Rightarrow>
         (Inl (EIdentity e),
          w\<lparr>cw_fs := f,
            cw_db := (case e of
                Database _ \<Rightarrow> if env_db_faults v SqlOpen = None then Some stored else cw_db w
              | _ \<Rightarrow> cw_db w)\<rparr>))"

section \<open>Starting a node\<close>

record node_config =
  nc_name :: string
  nc_port :: u16
  nc_device_type :: device_type
  nc_receive_dir :: string
  nc_data_dir :: string
  nc_broadcast_port :: u16
  nc_enable_mdns :: bool
  nc_enable_udp :: bool
  nc_memory_clipboard :: bool

text \<open>
  The clipboard backend and its label. \<open>native\<close> is \<open>None\<close> on platforms other than Windows and
  otherwise the outcome of opening the native backend.
\<close>

definition choose_backend :: "bool \<Rightarrow> (clipboard_error + 'b) option \<Rightarrow> 'b \<Rightarrow> 'b \<times> string" where
  "choose_backend use_memory native memory =
     (if use_memory then (memory, ''In-Memory'')
      else case native of
        None \<Rightarrow> (memory, ''In-Memory (Non-Windows Platform Fallback)'')
      | Some (Inr b) \<Rightarrow> (b, ''Native OS (Windows Win32 Event-Driven)'')
      | Some (Inl _) \<Rightarrow> (memory, ''In-Memory (Windows Init Fallback)''))"

definition discovery_mode :: "bool \<Rightarrow> bool \<Rightarrow> cli_error + unified_discovery_mode" where
  "discovery_mode enable_mdns enable_udp =
     (if enable_mdns \<and> enable_udp then Inr Both
      else if enable_mdns then Inr MdnsOnly
      else if enable_udp then Inr UdpOnly
      else Inl (EBail ''At least one discovery mechanism (mDNS or UDP) must be enabled''))"

definition broadcast_config :: "unified_discovery_mode \<Rightarrow> u16 \<Rightarrow> unified_discovery_config" where
  "broadcast_config mode port =
     \<lparr>uf_mode = mode, uf_mdns = default_discovery_config,
      uf_udp = default_udp_config\<lparr>uc_broadcast_port := port, uc_bind_addr := socket_addr_new (V4 0) port,
        uc_broadcast_targets := [socket_addr_new (V4 0xFFFFFFFF) port]\<rparr>\<rparr>"

text \<open>What the operating system answers while a node starts.\<close>

record 'b start_results =
  sr_entropy :: bytes
  sr_native :: "(clipboard_error + 'b) option"
  sr_memory :: 'b
  sr_bound :: "string + unit"
  sr_local_port :: "string + u16"
  sr_mdns :: mdns_results
  sr_sockets :: "socket_call \<Rightarrow> string option"
  sr_show_addr :: "socket_addr \<Rightarrow> string"

record 'b node =
  nd_identity :: identity_key
  nd_store :: trust_db
  nd_engine :: "'b clipboard_engine"
  nd_backend_name :: string
  nd_port :: u16
  nd_discovery :: unified_discovery

definition create_dir_all :: "faults \<Rightarrow> string \<Rightarrow> string \<Rightarrow> ('s cli_world, cli_error, unit) comp" where
  "create_dir_all fl text path =
     with_context (text @ path) (on_fs (smap_err EIo (fs_try fl FsCreateDir path)))"

text \<open>A call of the discovery service, its error put under a context.\<close>

definition discovery_call ::
    "string \<Rightarrow> (unified_discovery, discovery_error, unit) comp \<Rightarrow> unified_discovery \<Rightarrow>
     cli_error + unified_discovery" where
  "discovery_call text m un =
     (case m un of
        (Inl e, _) \<Rightarrow> Inl (EContext text (EDiscovery e))
      | (Inr _, un') \<Rightarrow> Inr un')"

text \<open>From the clipboard engine to the running discovery, once identity and store are open.\<close>

definition start_services ::
    "('s, 'b, 'x) session_env_scheme \<Rightarrow> 'b start_results \<Rightarrow> node_config \<Rightarrow> identity_key \<Rightarrow> trust_db \<Rightarrow>
     cli_error + 'b node" where
  "start_services v sr config identity store =
     (case choose_backend (nc_memory_clipboard config) (sr_native sr) (sr_memory sr) of (backend, backend_name) \<Rightarrow>
     let engine = engine_new (identity_node_id v identity) backend default_clipboard_policy in
     rbind (map_err (\<lambda>e. EContext (''Failed to bind TCP listener on '' @
              sr_show_addr sr (socket_addr_new (V4 0) (nc_port config))) (EIo e)) (sr_bound sr)) (\<lambda>_.
     rbind (map_err EIo (sr_local_port sr)) (\<lambda>actual_port.
     rbind (discovery_mode (nc_enable_mdns config) (nc_enable_udp config)) (\<lambda>mode.
     rbind (map_err (\<lambda>e. EContext ''Failed to initialize UnifiedDiscovery'' (EDiscovery e))
              (unified_new (sr_mdns sr) (broadcast_config mode (nc_broadcast_port config)))) (\<lambda>un.
     rbind (discovery_call ''Failed to advertise node service''
              (unified_advertise v (sr_mdns sr) (identity_node_id v identity) (nc_name config)
                 (nc_device_type config) actual_port caps_all None) un) (\<lambda>un1.
     rbind (discovery_call ''Failed to start LAN peer discovery''
              (unified_start_discovery (sr_mdns sr) (sr_sockets sr) (sr_show_addr sr)) un1) (\<lambda>un2.
     Inr \<lparr>nd_identity = identity, nd_store = store, nd_engine = engine, nd_backend_name = backend_name,
          nd_port = actual_port, nd_discovery = un2\<rparr>)))))))"

definition start_node ::
    "('s, 'b, 'x) session_env_scheme \<Rightarrow> 'b start_results \<Rightarrow> node_config \<Rightarrow>
     ('s cli_world, cli_error, 'b node) comp" where
  "start_node v sr config =
     sbind (create_dir_all (env_fs_faults v) ''Failed to create receive directory: '' (nc_receive_dir config)) (\<lambda>_.
     sbind (create_dir_all (env_fs_faults v) ''Failed to create data directory: '' (nc_data_dir config)) (\<lambda>_.
     sbind (with_context ''Failed to initialize node identity''
              (on_fs (smap_err EIdentity
                 (load_or_generate v (env_fs_faults v) (sr_entropy sr) (key_path (nc_data_dir config)))))) (\<lambda>identity.
     sbind (with_context ''Failed to open persistent trust store'' (open_trust v (nc_data_dir config))) (\<lambda>store.
     slift (start_services v sr config identity store)))))"

definition stop_node ::
    "mdns_results \<Rightarrow> beacon_message postcard \<Rightarrow> bool \<Rightarrow> 'b node \<Rightarrow> (cli_error + unit) \<times> 'b node" where
  "stop_node mr pc bound nd =
     (case unified_shutdown mr pc bound (nd_discovery nd) of
        (r, un) \<Rightarrow> (map_err (\<lambda>e. EContext ''Failed to shut down discovery'' (EDiscovery e)) r,
                    nd\<lparr>nd_discovery := un\<rparr>))"

section \<open>The registry of trusted connections\<close>

text \<open>
  \<open>HashMap<NodeId, mpsc::Sender<DataFrame>>\<close>: the sender of a connection is the number of
  the connection.
\<close>

type_synonym session_registry = "(node_id \<times> nat) list"

text \<open>The broadcaster: which frame goes to which connection for a list of engine events.\<close>

fun broadcast_clip :: "session_registry \<Rightarrow> clipboard_sync_event list \<Rightarrow> (nat \<times> data_frame) list" where
  "broadcast_clip reg [] = []"
| "broadcast_clip reg (OutgoingBroadcastReady _ fr # evs) = map (\<lambda>(_, cid). (cid, fr)) reg @ broadcast_clip reg evs"
| "broadcast_clip reg (_ # evs) = broadcast_clip reg evs"

section \<open>Serving a connection\<close>

record ('s, 'b) connection =
  cn_session :: "('s, 'b) active_session"
  cn_registry :: session_registry

definition in_session ::
    "('s endpoint, 'e, 'a) comp \<Rightarrow> (('s, 'b) connection, 'e, 'a) comp" where
  "in_session m = (\<lambda>c.
     let s = cn_session c in
     case m \<lparr>ep_stream = as_framed s, ep_fs = as_fs s\<rparr> of
       (r, w) \<Rightarrow> (r, c\<lparr>cn_session := s\<lparr>as_framed := ep_stream w, as_fs := ep_fs w\<rparr>\<rparr>))"

definition register :: "nat \<Rightarrow> ('s, 'b) connection \<Rightarrow> ('s, 'b) connection" where
  "register cid c = c\<lparr>cn_registry := AList.update (as_remote_node_id (cn_session c)) cid (cn_registry c)\<rparr>"

text \<open>What a pairing ceremony needs from outside: random bytes, the time, the user's answer.\<close>

record pairing_inputs =
  pi_nonce :: bytes
  pi_now :: u64
  pi_answer :: "string option"

definition node_pairing ::
    "('s, 'b, 'x) session_env_scheme \<Rightarrow> nat \<Rightarrow> nat \<Rightarrow> pairing_inputs \<Rightarrow> (('s, 'b) connection, cli_error, unit) comp" where
  "node_pairing v fuel cid inp = (\<lambda>c.
     case execute_pairing v fuel (pi_nonce inp) (pi_now inp) (pi_now inp) False
            (interactive_cli_confirm (pi_answer inp)) (cn_session c) of
       (Inl _, s) \<Rightarrow> (Inr (), c\<lparr>cn_session := s\<rparr>)
     | (Inr _, s) \<Rightarrow> (Inr (), register cid (c\<lparr>cn_session := s\<rparr>)))"

text \<open>The engine of the session is the engine of the node; its errors are only logged.\<close>

definition node_clipboard ::
    "('s, 'b, 'x) session_env_scheme \<Rightarrow> data_frame \<Rightarrow> (('s, 'b) connection, cli_error, unit) comp" where
  "node_clipboard v df =
     smodify (\<lambda>c. c\<lparr>cn_session := snd (apply_clipboard v df (cn_session c))\<rparr>)"

definition node_data ::
    "('s, 'b, 'x) cli_env_scheme \<Rightarrow> string \<Rightarrow> nat \<Rightarrow> nat \<Rightarrow> pairing_inputs \<Rightarrow> data_frame \<Rightarrow>
     (('s, 'b) connection, cli_error, unit) comp" where
  "node_data v receive_dir fuel cid inp df =
     sbind (sget (\<lambda>c. state_is_trusted (as_state (cn_session c)))) (\<lambda>trusted.
     if channel df = CHANNEL_PAIRING then node_pairing v fuel cid inp
     else if channel df = CHANNEL_CLIPBOARD then
       (if \<not> trusted then sreturn () else node_clipboard v df)
     else if channel df = CHANNEL_FILE_TRANSFER then
       (if trusted then
          sbind (in_session (handle_file_transfer v fuel (payload df) receive_dir)) (\<lambda>_. sreturn ())
        else sreturn ())
     else sreturn ())"

text \<open>The result says whether the loop goes on.\<close>

definition node_frame ::
    "('s, 'b, 'x) cli_env_scheme \<Rightarrow> string \<Rightarrow> nat \<Rightarrow> nat \<Rightarrow> pairing_inputs \<Rightarrow> frame \<Rightarrow>
     (('s, 'b) connection, cli_error, bool) comp" where
  "node_frame v receive_dir fuel cid inp fr =
     (case fr of
        Control (Ping nonce) \<Rightarrow>
          sbind (in_session (ep_send v (Control (Pong nonce)))) (\<lambda>_. sreturn True)
      | Control (Pong _) \<Rightarrow> sreturn True
      | Control (Disconnect _) \<Rightarrow> sreturn False
      | Data df \<Rightarrow> sbind (node_data v receive_dir fuel cid inp df) (\<lambda>_. sreturn True)
      | Handshake _ \<Rightarrow> sreturn True)"

text \<open>
  One turn of the \<open>select!\<close>: receiving a frame came to an end, or a frame to send is waiting.
  In the second case the receive in progress is dropped, and with it the bytes it had read
  already: \<open>read_exact\<close> is not cancellation safe. The event carries their number.
\<close>

datatype conn_event = Inbound pairing_inputs | Outbound nat data_frame

definition drop_receive ::
    "('s, 'b, 'x) session_env_scheme \<Rightarrow> nat \<Rightarrow> ('s endpoint, cli_error, unit) comp" where
  "drop_receive v n =
     smodify (\<lambda>w. if n = 0 then w else w\<lparr>ep_stream := snd (read_exact (env_io v) n (ep_stream w))\<rparr>)"

fun conn_step ::
    "('s, 'b, 'x) cli_env_scheme \<Rightarrow> string \<Rightarrow> nat \<Rightarrow> nat \<Rightarrow> conn_event \<Rightarrow>
     (('s, 'b) connection, cli_error, bool) comp" where
  "conn_step v receive_dir fuel cid (Inbound inp) =
     sbind (with_context ''Failed to read frame'' (in_session (ep_recv v))) (\<lambda>frame_opt.
     case frame_opt of
       None \<Rightarrow> sreturn False
     | Some fr \<Rightarrow> node_frame v receive_dir fuel cid inp fr)"
| "conn_step v receive_dir fuel cid (Outbound n df) =
     sbind (in_session (drop_receive v n)) (\<lambda>_.
     sbind (sget (\<lambda>c. state_is_trusted (as_state (cn_session c)))) (\<lambda>trusted.
     sbind (if trusted then signore (in_session (ep_send v (Data df))) else sreturn ()) (\<lambda>_.
     sreturn True)))"

text \<open>The loop, as far as the events go: \<open>True\<close> when it is still running.\<close>

fun serve ::
    "('s, 'b, 'x) cli_env_scheme \<Rightarrow> string \<Rightarrow> nat \<Rightarrow> nat \<Rightarrow> conn_event list \<Rightarrow>
     (('s, 'b) connection, cli_error, bool) comp" where
  "serve v receive_dir fuel cid [] = sreturn True"
| "serve v receive_dir fuel cid (ev # evs) =
     sbind (conn_step v receive_dir fuel cid ev) (\<lambda>go.
     if go then serve v receive_dir fuel cid evs else sreturn False)"

definition handle_connection ::
    "('s, 'b, 'x) cli_env_scheme \<Rightarrow> bytes \<Rightarrow> u64 \<Rightarrow> identity_key \<Rightarrow> string \<Rightarrow> string \<Rightarrow> 'b clipboard_engine \<Rightarrow>
     fs \<Rightarrow> nat \<Rightarrow> nat \<Rightarrow> conn_event list \<Rightarrow> session_registry \<Rightarrow> 's link \<Rightarrow>
     (cli_error + bool) \<times> session_registry \<times> ('s, 'b) active_session option" where
  "handle_connection v server_nonce now identity server_name receive_dir engine files0 fuel cid evs reg l =
     (case server_handshake v server_nonce now identity server_name Windows (Some engine)
             (Some receive_dir) files0 l of
        (Inl e, _) \<Rightarrow> (Inl (EContext ''Handshake failed'' (ESession e)), reg, None)
      | (Inr s, _) \<Rightarrow>
          let c0 = \<lparr>cn_session = s, cn_registry = reg\<rparr>;
              c1 = (if state_is_trusted (as_state s) then register cid c0 else c0)
          in (case serve v receive_dir fuel cid evs c1 of
                (Inl e, c2) \<Rightarrow> (Inl e, cn_registry c2, Some (cn_session c2))
              | (Inr True, c2) \<Rightarrow> (Inr True, cn_registry c2, Some (cn_session c2))
              | (Inr False, c2) \<Rightarrow>
                  (Inr False, AList.delete (as_remote_node_id (cn_session c2)) (cn_registry c2),
                   Some (cn_session c2))))"

section \<open>What a ceremony leaves alone\<close>

definition same_surroundings :: "('s, 'b) active_session \<Rightarrow> ('s, 'b) active_session \<Rightarrow> bool" where
  "same_surroundings s t \<longleftrightarrow>
     as_fs t = as_fs s \<and> as_clipboard_engine t = as_clipboard_engine s \<and>
     as_remote_node_id t = as_remote_node_id s \<and> as_remote_pubkey t = as_remote_pubkey s"

lemma surroundings_stream:
  assumes "stream_only m"
  shows "keeps (same_surroundings s) m"
  unfolding keeps_def
proof (intro allI impI)
  fix a assume a: "same_surroundings s a"
  obtain st where "snd (m a) = a\<lparr>as_framed := st\<rparr>"
    using assms stream_onlyD by (metis prod.collapse)
  then show "same_surroundings s (snd (m a))" using a by (simp add: same_surroundings_def)
qed

lemma surroundings_steps [simp]:
  "keeps (same_surroundings s) (set_state st)" "keeps (same_surroundings s) (store_save v p)"
  "keeps (same_surroundings s) (session_send v f)"
  "keeps (same_surroundings s) (send_pairing v m)" "keeps (same_surroundings s) (recv_pairing v fuel)"
  by (simp_all add: surroundings_stream)
    (auto simp: keeps_def set_state_def store_save_def same_surroundings_def split: prod.splits)

lemma surroundings_finish: "keeps (same_surroundings s) (finish_pairing v fuel confirmer ps sas)"
  unfolding finish_pairing_def reject_pairing_def conclude_pairing_def
  by (auto intro!: keeps_bind keeps_ignore split: pairing_message.split)

lemma keeps_read: "(\<And>x. keeps P (f x)) \<Longrightarrow> keeps P (\<lambda>s. f (g s) s)"
  by (simp add: keeps_def)

lemma surroundings_responder: "keeps (same_surroundings s) (pair_responder v fuel nonce now confirmer)"
proof -
  have "keeps (same_surroundings s) (\<lambda>a. case r a of Inl e \<Rightarrow> (Inl (SIdentity e), a)
      | Inr (ps, resp, sas) \<Rightarrow>
          sbind (send_pairing v (Response resp)) (\<lambda>_. finish_pairing v fuel confirmer ps sas) a)"
    for r :: "('a, 'b) active_session \<Rightarrow> identity_error + pairing_session \<times> pairing_response \<times> sas_verification"
  proof -
    have "keeps (same_surroundings s) (sbind (send_pairing v (Response resp)) (\<lambda>_. finish_pairing v fuel confirmer ps sas))"
      for resp ps sas
      by (intro keeps_bind surroundings_finish) simp
    then show ?thesis unfolding keeps_def by (auto split: sum.split prod.split)
  qed
  then show ?thesis
    unfolding pair_responder_def by (auto intro!: keeps_bind split: pairing_message.split)
qed

lemma pairing_surroundings:
  assumes "execute_pairing v fuel nonce now1 now2 False confirmer s = (r, t)"
  shows "same_surroundings s t"
  using keepsD [OF surroundings_responder [of s v fuel nonce now1 confirmer], of "s\<lparr>as_state := Pairing\<rparr>" r t] assms
  by (simp add: execute_pairing_eq same_surroundings_def)

lemma pairing_refused:
  assumes "execute_pairing v fuel nonce now1 now2 False confirmer s = (r, t)" "\<And>sas nm. \<not> confirmer sas nm"
  shows "(\<exists>e. r = Inl e) \<and> untouched s t"
proof (cases r)
  case (Inl e)
  then have "unsealed (s\<lparr>as_state := Pairing\<rparr>) t"
    using assms(1) fails_clean_responder [of v fuel nonce now1 confirmer]
    unfolding execute_pairing_eq fails_clean_def by simp
  then show ?thesis using Inl pairing_surroundings [OF assms(1)]
    by (simp add: unsealed_def untouched_def same_surroundings_def)
next
  case (Inr sas)
  then have "sealed v nonce confirmer (s\<lparr>as_state := Pairing\<rparr>) sas t"
    using assms(1) unfolding execute_pairing_eq by (auto intro: pair_responder_sealed)
  then show ?thesis using assms(2) by (simp add: sealed_def)
qed

section \<open>A connection without consent\<close>

definition quiet :: "('s, 'b) connection \<Rightarrow> ('s, 'b) connection \<Rightarrow> bool" where
  "quiet c c' \<longleftrightarrow> untouched (cn_session c) (cn_session c') \<and> cn_registry c' = cn_registry c"

lemma quiet_in_session:
  assumes "\<And>w. ep_fs (snd (m w)) = ep_fs w"
  shows "keeps (quiet c) (in_session m)"
  unfolding keeps_def
proof (intro allI impI)
  fix a assume a: "quiet c a"
  let ?w = "\<lparr>ep_stream = as_framed (cn_session a), ep_fs = as_fs (cn_session a)\<rparr>"
  obtain r w where m: "m ?w = (r, w)" by (cases "m ?w")
  then have "ep_fs w = as_fs (cn_session a)" using assms [of ?w] by simp
  then show "quiet c (snd (in_session m a))"
    using a m by (simp add: in_session_def quiet_def untouched_def)
qed

lemma quiet_stream:
  "keeps (quiet c) (in_session (ep_send v f))" "keeps (quiet c) (in_session (ep_recv v))"
  "keeps (quiet c) (in_session (drop_receive v n))"
  by (rule quiet_in_session, simp add: ep_send_def ep_recv_def drop_receive_def split: prod.split)+

lemma keeps_context: "keeps P m \<Longrightarrow> keeps P (with_context t m)"
  unfolding with_context_def by (rule keeps_map_err)

definition user_accepts :: "conn_event \<Rightarrow> bool" where
  "user_accepts ev \<longleftrightarrow>
     (case ev of
        Inbound inp \<Rightarrow> (\<exists>sas nm. interactive_cli_confirm (pi_answer inp) sas nm)
      | Outbound _ _ \<Rightarrow> False)"

lemma quiet_pairing:
  assumes "\<not> user_accepts (Inbound inp)"
  shows "keeps (quiet c) (node_pairing v fuel cid inp)"
  unfolding keeps_def
proof (intro allI impI)
  fix a assume a: "quiet c a"
  let ?m = "execute_pairing v fuel (pi_nonce inp) (pi_now inp) (pi_now inp) False (interactive_cli_confirm (pi_answer inp))"
  obtain r t where run: "?m (cn_session a) = (r, t)" by (cases "?m (cn_session a)")
  moreover have "(\<exists>e. r = Inl e) \<and> untouched (cn_session a) t"
    using pairing_refused [OF run] assms by (auto simp: user_accepts_def)
  ultimately show "quiet c (snd (node_pairing v fuel cid inp a))"
    using a by (auto simp: node_pairing_def quiet_def untouched_def)
qed

lemma quiet_data:
  assumes "\<not> user_accepts (Inbound inp)"
  shows "keeps (quiet c) (node_data v rdir fuel cid inp df)"
  unfolding keeps_def
proof (intro allI impI)
  fix a assume a: "quiet c a"
  then have "\<not> state_is_trusted (as_state (cn_session a))" by (simp add: quiet_def untouched_def)
  moreover have "quiet c (snd (node_pairing v fuel cid inp a))"
    using quiet_pairing [OF assms, of c v fuel cid] a by (simp add: keeps_def)
  ultimately show "quiet c (snd (node_data v rdir fuel cid inp df a))"
    using a by (simp add: node_data_def sbind_def)
qed

lemma quiet_step:
  assumes "\<not> user_accepts ev"
  shows "keeps (quiet c) (conn_step v rdir fuel cid ev)"
proof (cases ev)
  case (Inbound inp)
  then have "keeps (quiet c) (node_frame v rdir fuel cid inp fr)" for fr
    using assms unfolding node_frame_def
    by (auto intro!: keeps_bind quiet_stream quiet_data split: frame.split control_frame.split)
  then show ?thesis unfolding Inbound conn_step.simps
    by (auto intro!: keeps_bind keeps_context quiet_stream split: option.split)
next
  case (Outbound n df)
  then show ?thesis unfolding Outbound conn_step.simps
    by (auto intro!: keeps_bind keeps_ignore quiet_stream)
qed

lemma quiet_serve:
  "list_all (\<lambda>ev. \<not> user_accepts ev) evs \<Longrightarrow> keeps (quiet c) (serve v rdir fuel cid evs)"
  by (induction evs) (auto intro!: keeps_bind quiet_step)

text \<open>A node gives an unknown peer nothing without its user's consent. Whatever frames a peer
  that is not trusted sends, in whatever order they are interleaved with outgoing updates, as
  long as the user of the node does not answer a pairing question with yes: the peer does not
  become trusted, the clipboard, the files and the trust store of the node stay as they were,
  and the peer is not registered for clipboard broadcasts.\<close>

theorem node_needs_consent:
  assumes "\<not> state_is_trusted (as_state (cn_session c))"
    and "list_all (\<lambda>ev. \<not> user_accepts ev) evs"
    and "serve v rdir fuel cid evs c = (r, c')"
  shows "untouched (cn_session c) (cn_session c') \<and> cn_registry c' = cn_registry c"
proof -
  have "quiet c c" using assms(1) by (simp add: quiet_def untouched_def)
  from keepsD [OF quiet_serve [OF assms(2)] this assms(3)] show ?thesis by (simp add: quiet_def)
qed

section \<open>The registry entry of a connection\<close>

text \<open>Serving changes the registry only at the peer, and never removes its entry.\<close>

definition entry_kept :: "nat \<Rightarrow> ('s, 'b) connection \<Rightarrow> ('s, 'b) connection \<Rightarrow> bool" where
  "entry_kept cid c c' \<longleftrightarrow>
     as_remote_node_id (cn_session c') = as_remote_node_id (cn_session c) \<and>
     (\<forall>n. n \<noteq> as_remote_node_id (cn_session c) \<longrightarrow> map_of (cn_registry c') n = map_of (cn_registry c) n) \<and>
     (map_of (cn_registry c) (as_remote_node_id (cn_session c)) = Some cid \<longrightarrow>
      map_of (cn_registry c') (as_remote_node_id (cn_session c)) = Some cid)"

lemma entry_in_session: "keeps (entry_kept cid c) (in_session m)"
  by (simp add: keeps_def in_session_def entry_kept_def Let_def split: prod.split)

lemma entry_session:
  assumes "same_surroundings (cn_session a) s"
  shows "entry_kept cid c a \<Longrightarrow> entry_kept cid c (a\<lparr>cn_session := s\<rparr>)"
    "entry_kept cid c a \<Longrightarrow> entry_kept cid c (register cid (a\<lparr>cn_session := s\<rparr>))"
  using assms by (simp_all add: entry_kept_def same_surroundings_def register_def update_conv')

lemma entry_pairing: "keeps (entry_kept cid c) (node_pairing v fuel cid inp)"
  unfolding keeps_def
proof (intro allI impI)
  fix a assume a: "entry_kept cid c a"
  let ?m = "execute_pairing v fuel (pi_nonce inp) (pi_now inp) (pi_now inp) False (interactive_cli_confirm (pi_answer inp))"
  obtain r t where run: "?m (cn_session a) = (r, t)" by (cases "?m (cn_session a)")
  from entry_session [OF pairing_surroundings [OF run]] a run
  show "entry_kept cid c (snd (node_pairing v fuel cid inp a))"
    by (simp add: node_pairing_def split: sum.split)
qed

lemma entry_clipboard: "keeps (entry_kept cid c) (node_clipboard v df)"
  unfolding node_clipboard_def
  by (rule keeps_modify) (simp add: entry_kept_def apply_clipboard_def split: option.split)

lemma entry_step: "keeps (entry_kept cid c) (conn_step v rdir fuel cid ev)"
proof -
  have "keeps (entry_kept cid c) (node_frame v rdir fuel cid inp fr)" for inp fr
    unfolding node_frame_def node_data_def
    by (auto intro!: keeps_bind entry_in_session entry_pairing entry_clipboard split: frame.split control_frame.split)
  then show ?thesis
    by (cases ev) (auto intro!: keeps_bind keeps_context keeps_ignore entry_in_session split: option.split)
qed

lemma entry_serve: "keeps (entry_kept cid c) (serve v rdir fuel cid evs)"
proof (induction evs)
  case Nil
  show ?case unfolding serve.simps by (rule keeps_basic)
next
  case (Cons ev evs)
  then show ?case unfolding serve.simps by (auto intro!: keeps_bind entry_step)
qed

text \<open>How long a trusted peer stays registered for broadcasts. When the handshake yields a
  trusted session, the entry of the peer names this connection from then on; it is removed
  when the connection ends in the regular way, but stays behind when serving ends with an
  error. Entries of other peers are never touched.\<close>

theorem registry_entry_lifetime:
  assumes "server_handshake v server_nonce now identity nm Windows (Some engine) (Some rdir) files0 l = (Inr s, l')"
    and "state_is_trusted (as_state s)"
    and "handle_connection v server_nonce now identity nm rdir engine files0 fuel cid evs reg l = (r, reg', t)"
  shows "map_of reg' (as_remote_node_id s) = (if r = Inr False then None else Some cid) \<and>
    (\<forall>n. n \<noteq> as_remote_node_id s \<longrightarrow> map_of reg' n = map_of reg n)"
proof -
  let ?c = "register cid \<lparr>cn_session = s, cn_registry = reg\<rparr>"
  obtain x c2 where run: "serve v rdir fuel cid evs ?c = (x, c2)" by (cases "serve v rdir fuel cid evs ?c")
  have "entry_kept cid ?c ?c" by (simp add: entry_kept_def)
  from keepsD [OF entry_serve this run] have "entry_kept cid ?c c2" .
  then have "as_remote_node_id (cn_session c2) = as_remote_node_id s"
      "\<forall>n. n \<noteq> as_remote_node_id s \<longrightarrow> map_of (cn_registry c2) n = map_of reg n"
      "map_of (cn_registry c2) (as_remote_node_id s) = Some cid"
    by (simp_all add: entry_kept_def register_def update_conv')
  then show ?thesis using assms run
    by (auto simp: handle_connection_def Let_def delete_conv' split: sum.splits bool.splits)
qed

section \<open>A pairing request is lost\<close>

lemma session_recv_empty:
  assumes "piped v" "inbox (as_framed s) = []"
  shows "session_recv v s = (Inr None, s)"
  using recv_frame_pipe_short [of "as_framed s" "env_frames v"] assms
  by (simp add: session_recv_def piped_def)

lemma recv_pairing_empty:
  assumes "piped v" "inbox (as_framed s) = []"
  shows "recv_pairing v (Suc n) s = (Inl (Closed ''Peer disconnected while awaiting data frame''), s)"
  using session_recv_empty [OF assms] by (simp add: recv_pairing_def sbind_def)

lemma in_session_recv_pipe:
  assumes "piped v" "encode_frame (env_frames v) f = Inr b" "inbox (as_framed (cn_session c)) = b @ rest"
  shows "in_session (ep_recv v) c = (Inr (Some f), c\<lparr>cn_session := got rest (cn_session c)\<rparr>)"
  using recv_frame_pipe_encoded [OF _ assms(2,3)] assms(1)
  by (simp add: in_session_def ep_recv_def Let_def piped_def got_def)

text \<open>C38: pairing with a node does not get past the request. The node takes the request off the
  stream to find that it is a pairing message, and then waits for another one: having
  received the request it writes nothing, and the initiator, which hears nothing, has
  written nothing but the request. Both wait for the other; when the stream ends both
  ceremonies have failed, and nobody is trusted.\<close>

theorem node_pairing_stalls:
  assumes "piped v" "on_wire v (Request (request_of v ni t0 (as_local_identity si) (as_local_name si)
      (as_local_device_type si))) b"
    and "inbox (as_framed (cn_session c)) = b" "inbox (as_framed si) = []" "outbox (as_framed si) = []"
  shows "\<exists>c' si' e. conn_step v rdir (Suc n) cid (Inbound inp) c = (Inr True, c') \<and>
    outbox (as_framed (cn_session c')) = outbox (as_framed (cn_session c)) \<and>
    inbox (as_framed (cn_session c')) = [] \<and> cn_registry c' = cn_registry c \<and>
    \<not> state_is_trusted (as_state (cn_session c')) \<and>
    as_trust_store (cn_session c') = as_trust_store (cn_session c) \<and>
    execute_pairing v (Suc n) ni t0 t2 True cf si = (Inl e, si') \<and>
    outbox (as_framed si') = b \<and> \<not> state_is_trusted (as_state si') \<and> as_trust_store si' = as_trust_store si"
proof -
  obtain df where df: "pairing_to_data_frame (env_pairing v) (Request (request_of v ni t0 (as_local_identity si)
      (as_local_name si) (as_local_device_type si))) = Inr df" "encode_frame (env_frames v) (Data df) = Inr b"
    using assms(2) by (auto simp: on_wire_def)
  then have ch: "channel df = CHANNEL_PAIRING" by (auto simp: pairing_to_data_frame_def rbind_Inr_iff)
  let ?s = "got [] (cn_session c)"
  have recv: "in_session (ep_recv v) c = (Inr (Some (Data df)), c\<lparr>cn_session := ?s\<rparr>)"
    using in_session_recv_pipe [OF assms(1) df(2), of c "[]"] assms(3) by simp
  have "inbox (as_framed (?s\<lparr>as_state := Pairing\<rparr>)) = []" by simp
  note lost = recv_pairing_empty [OF assms(1) this, of n]
  let ?c = "c\<lparr>cn_session := ?s\<lparr>as_state := Pairing\<rparr>\<rparr>"
  have node: "conn_step v rdir (Suc n) cid (Inbound inp) c = (Inr True, ?c)"
    using recv lost ch
    by (simp add: sbind_def with_context_def smap_err_def node_frame_def node_data_def node_pairing_def
        execute_pairing_eq pair_responder_def)
  let ?si = "sent b (si\<lparr>as_state := Pairing\<rparr>)"
  have "inbox (as_framed ?si) = []" using assms(4) by simp
  from recv_pairing_empty [OF assms(1) this, of n] send_pairing_pipe [OF assms(1,2), of "si\<lparr>as_state := Pairing\<rparr>"]
  have "execute_pairing v (Suc n) ni t0 t2 True cf si =
      (Inl (Closed ''Peer disconnected while awaiting data frame''), ?si)"
    by (simp add: execute_pairing_eq pair_initiator_def sbind_def new_initiator_parts)
  with node assms(5) show ?thesis
    by (intro exI [of _ ?c] exI [of _ ?si]) (simp add: sent_def)
qed

section \<open>A cancelled receive\<close>

lemma MAGIC_bytes: "MAGIC = [0x42, 0x52, 0x47, 0x31]"
  by code_simp

lemma shifted_header:
  assumes "len \<le> MAX_FRAME_LENGTH" "0 < n" "n \<le> 4"
  shows "take 4 (drop n (MAGIC @ be_bytes 4 len @ q)) \<noteq> MAGIC"
proof
  assume eq: "take 4 (drop n (MAGIC @ be_bytes 4 len @ q)) = MAGIC"
  have "(MAGIC @ be_bytes 4 len @ q) ! n = take 4 (drop n (MAGIC @ be_bytes 4 len @ q)) ! 0"
    using assms(3) by (simp del: take_append drop_append)
  also have "\<dots> = 0x42" unfolding eq by (simp add: MAGIC_bytes)
  finally have hd: "(MAGIC @ be_bytes 4 len @ q) ! n = 0x42" .
  have "be_bytes 4 len ! 0 = of_nat (len div 256 ^ 3)" by (simp add: be_bytes_def upt_rec)
  moreover have "len div 256 ^ 3 = 0 \<or> len div 256 ^ 3 = 1"
    using assms(1) by (simp add: MAX_FRAME_LENGTH_def) linarith
  ultimately have "be_bytes 4 len ! 0 = 0 \<or> be_bytes 4 len ! 0 = 1" by auto
  moreover have "(MAGIC @ be_bytes 4 len @ q) ! 4 = be_bytes 4 len ! 0" by (simp add: nth_append)
  ultimately have "n \<noteq> 4" using hd by auto
  then consider "n = 1" | "n = 2" | "n = 3" using assms(2,3) by linarith
  then show False using hd by cases (simp_all add: MAGIC_bytes)
qed

text \<open>C39: an outgoing update can break the incoming stream. When a broadcast becomes ready while
  the first bytes of a frame header have been read, the receive is dropped with them, and the
  next one starts in the middle of the header: the connection ends with an invalid magic,
  although both sides followed the protocol.\<close>

theorem cancelled_read_breaks_stream:
  assumes "piped v" "encode_frame (env_frames v) f = Inr b" "inbox (as_framed (cn_session c)) = b @ rest"
    and "0 < n" "n \<le> 4" "8 + n \<le> length (b @ rest)"
  shows "\<exists>c'. serve v rdir fuel cid [Outbound n df, Inbound inp] c =
    (Inl (EContext ''Failed to read frame'' (ECore InvalidMagic)), c')"
proof -
  obtain p where p: "b = MAGIC @ be_bytes 4 (length p) @ p" "length p \<le> MAX_FRAME_LENGTH"
    using assms(2) by (auto simp: encode_frame_Inr_iff)
  define c1 where "c1 = snd (in_session (drop_receive v n) c)"
  have drop: "in_session (drop_receive v n) c = (Inr (), c1)"
      "inbox (as_framed (cn_session c1)) = drop n (b @ rest)"
    using assms by (simp_all add: c1_def in_session_def drop_receive_def Let_def piped_def)
  define c2 where "c2 = snd ((if state_is_trusted (as_state (cn_session c1))
    then signore (in_session (ep_send v (Data df))) else sreturn ()) c1)"
  have c2: "inbox (as_framed (cn_session c2)) = drop n (b @ rest)"
    using drop(2) assms(1)
    by (simp add: c2_def in_session_def ep_send_def piped_def Let_def send_frame_pipe split: sum.split prod.split)
  have out: "conn_step v rdir fuel cid (Outbound n df) c = (Inr True, c2)"
    using drop(1) by (simp add: sbind_def c2_def)
  have "8 \<le> length (drop n (b @ rest))" using assms(6) by simp
  moreover have "take 4 (take 8 (drop n (b @ rest))) \<noteq> MAGIC"
    using shifted_header [OF p(2) assms(4,5), of "p @ rest"] p(1) by (simp del: take_append drop_append)
  ultimately have "\<exists>st. recv_frame pipe_ops (env_frames v) (as_framed (cn_session c2)) = (Inl InvalidMagic, st)"
    using c2 by (simp add: recv_frame_def del: take_append drop_append)
  then obtain st where "recv_frame pipe_ops (env_frames v) (as_framed (cn_session c2)) = (Inl InvalidMagic, st)" ..
  then have "\<exists>c3. conn_step v rdir fuel cid (Inbound inp) c2 =
      (Inl (EContext ''Failed to read frame'' (ECore InvalidMagic)), c3)"
    using assms(1) by (simp add: sbind_def with_context_def smap_err_def in_session_def ep_recv_def piped_def Let_def)
  then show ?thesis using out by (auto simp: sbind_def)
qed

end
