(* ===== verification/Command_Client.thy ===== *)
theory Command_Client
  imports Peer_Node
begin

text \<open>
  The other commands of \<open>tools/bridge-cli/src/client.rs\<close> (ping, pair, trust, peers) and the
  command line itself, \<open>tools/bridge-cli/src/lib.rs\<close>. A command is a computation on the
  world of the process; its result is what it prints.
\<close>

section \<open>Ping\<close>

text \<open>One probe per nonce; the result counts the answers that carry the nonce of the probe.\<close>

fun ping_loop ::
    "('s, 'b, 'x) session_env_scheme \<Rightarrow> u64 list \<Rightarrow> nat \<Rightarrow> ('s endpoint, cli_error, nat) comp" where
  "ping_loop v [] successful = sreturn successful"
| "ping_loop v (nonce # nonces) successful =
     sbind (with_context ''Failed to send Ping frame'' (ep_send v (Control (Ping nonce)))) (\<lambda>_.
     sbind (ep_expect v ''Failed to receive Pong frame'' ''Peer closed connection while awaiting Pong'') (\<lambda>reply.
     ping_loop v nonces
       (case reply of
          Control (Pong reply_nonce) \<Rightarrow> if reply_nonce = nonce then successful + 1 else successful
        | _ \<Rightarrow> successful)))"

definition run_ping ::
    "('s, 'b, 'x) session_env_scheme \<Rightarrow> string \<Rightarrow> string option \<Rightarrow> bytes \<Rightarrow> bytes \<Rightarrow> u64 list \<Rightarrow> string \<Rightarrow>
     ('s endpoint, cli_error, nat) comp" where
  "run_ping v peer_addr refused entropy client_nonce nonces device_name =
     sbind (connect_and_handshake v peer_addr refused client_nonce (generate entropy) device_name) (\<lambda>_.
     sbind (ping_loop v nonces 0) (\<lambda>successful.
     sbind (signore (ep_send v (Control (Disconnect Graceful)))) (\<lambda>_.
     sreturn successful)))"

section \<open>Pairing\<close>

record pair_inputs =
  pr_entropy :: bytes
  pr_refused :: "string option"
  pr_client_nonce :: bytes
  pr_now :: u64
  pr_pairing_nonce :: bytes
  pr_request_time :: u64
  pr_response_time :: u64
  pr_answer :: "string option"

definition put_session :: "('s, 'b) active_session \<Rightarrow> 's cli_world \<Rightarrow> 's cli_world" where
  "put_session s w = w\<lparr>cw_stream := as_framed s, cw_fs := as_fs s, cw_db := Some (as_trust_store s)\<rparr>"

text \<open>The handshake and the ceremony, once identity and store are open and the socket is connected.\<close>

definition pair_session ::
    "('s, 'b, 'x) session_env_scheme \<Rightarrow> nat \<Rightarrow> pair_inputs \<Rightarrow> identity_key \<Rightarrow> string \<Rightarrow> trust_db \<Rightarrow>
     ('s cli_world, cli_error, sas_verification) comp" where
  "pair_session v fuel inp key device_name store = (\<lambda>w.
     case client_handshake v (pr_client_nonce inp) (pr_now inp) key device_name Windows None None (cw_fs w)
            \<lparr>lk_stream = cw_stream w, lk_store = store\<rparr> of
       (Inl e, l) \<Rightarrow>
         (Inl (EContext ''Cryptographic authentication handshake failed'' (ESession e)),
          w\<lparr>cw_stream := lk_stream l, cw_db := Some (lk_store l)\<rparr>)
     | (Inr s, _) \<Rightarrow>
         (case execute_pairing v fuel (pr_pairing_nonce inp) (pr_request_time inp) (pr_response_time inp) True
                 (interactive_cli_confirm (pr_answer inp)) s of
            (Inl e, s') \<Rightarrow>
              (Inl (EContext ''Pairing ceremony failed or was rejected'' (ESession e)), put_session s' w)
          | (Inr sas, s') \<Rightarrow> (Inr sas, put_session s' w)))"

definition run_pair ::
    "('s, 'b, 'x) session_env_scheme \<Rightarrow> nat \<Rightarrow> pair_inputs \<Rightarrow> string \<Rightarrow> string \<Rightarrow> string \<Rightarrow>
     ('s cli_world, cli_error, sas_verification) comp" where
  "run_pair v fuel inp peer_addr device_name data_dir =
     sbind (on_fs (smap_err EIo (fs_try (env_fs_faults v) FsCreateDir data_dir))) (\<lambda>_.
     sbind (on_fs (smap_err EIdentity
              (load_or_generate v (env_fs_faults v) (pr_entropy inp) (key_path data_dir)))) (\<lambda>key.
     sbind (open_trust v data_dir) (\<lambda>store.
     sbind (on_endpoint (tcp_connect (''Failed to connect to '' @ peer_addr) (pr_refused inp))) (\<lambda>_.
     pair_session v fuel inp key device_name store))))"

section \<open>The trust store\<close>

definition run_trust_list ::
    "('s, 'b, 'x) session_env_scheme \<Rightarrow> string \<Rightarrow> ('s cli_world, cli_error, trusted_peer list option) comp" where
  "run_trust_list v data_dir =
     sbind (sget cw_db) (\<lambda>db.
     if db = None then sreturn None
     else
       sbind (open_trust v data_dir) (\<lambda>store.
       sbind (slift (map_err EIdentity (list_peers v (env_db_faults v) store))) (\<lambda>peers.
       sreturn (Some peers))))"

definition run_trust_revoke ::
    "('s, 'b, 'x) session_env_scheme \<Rightarrow> string \<Rightarrow> string \<Rightarrow> ('s cli_world, cli_error, node_id) comp" where
  "run_trust_revoke v data_dir node_id_hex =
     sbind (open_trust v data_dir) (\<lambda>store.
     sbind (slift (map_err (\<lambda>e. EContext (''Invalid hexadecimal NodeId '' @ [CHR 0x27] @ node_id_hex @ [CHR 0x27]) (EBail e))
              (from_hex v node_id_hex))) (\<lambda>n w.
     case revoke_peer v (env_db_faults v) n store of
       (Inl e, store') \<Rightarrow> (Inl (EIdentity e), w\<lparr>cw_db := Some store'\<rparr>)
     | (Inr _, store') \<Rightarrow> (Inr n, w\<lparr>cw_db := Some store'\<rparr>)))"

section \<open>Discovery\<close>

text \<open>
  \<open>run_discover\<close> and the scan of \<open>run_peers\<close>: start both channels, wait, list the directory and
  shut down. The arguments are the answers of daemon and sockets and what arrives while
  waiting. In the mode \<open>Both\<close> both channels exist.
\<close>

record scan_inputs =
  sc_mdns :: mdns_results
  sc_sockets :: "socket_call \<Rightarrow> string option"
  sc_show_addr :: "socket_addr \<Rightarrow> string"
  sc_arrivals :: "discovery_input list"
  sc_bound :: bool

definition run_discover ::
    "'x crates_scheme \<Rightarrow> beacon_message postcard \<Rightarrow> scan_inputs \<Rightarrow> u16 \<Rightarrow>
     cli_error + discovered_peer list \<times> unified_discovery" where
  "run_discover c pc sc broadcast_port =
     rbind (map_err EDiscovery (unified_new (sc_mdns sc) (broadcast_config Both broadcast_port))) (\<lambda>un.
     case unified_start_discovery (sc_mdns sc) (sc_sockets sc) (sc_show_addr sc) un of
       (Inl e, _) \<Rightarrow> Inl (EDiscovery e)
     | (Inr _, un1) \<Rightarrow>
         let un2 = (case (un_udp un1, un_mdns un1) of
                      (Some u, Some m) \<Rightarrow>
                        (case fold (discovery_turn c pc) (sc_arrivals sc)
                                ((udp_query_probe pc u, True), (m, True), un_hub un1) of
                           ((u', _), (m', _), h) \<Rightarrow>
                             un1\<lparr>un_udp := Some u', un_mdns := Some m', un_hub := h\<rparr>)
                    | _ \<Rightarrow> un1);
             peers = directory_list (hub_directory (un_hub un2))
         in (case unified_shutdown (sc_mdns sc) pc (sc_bound sc) un2 of
               (Inl e, _) \<Rightarrow> Inl (EDiscovery e)
             | (Inr _, un3) \<Rightarrow> Inr (peers, un3)))"

fun trust_state_debug :: "trust_state \<Rightarrow> string" where
  "trust_state_debug Trusted = ''Trusted''"
| "trust_state_debug Pending = ''Pending''"
| "trust_state_debug Revoked = ''Revoked''"

definition trust_status ::
    "'x crates_scheme \<Rightarrow> db_faults \<Rightarrow> trust_db option \<Rightarrow> node_id \<Rightarrow> string" where
  "trust_status c df store n =
     (case store of
        None \<Rightarrow> ''[UNTRUSTED / NO TRUST DB]''
      | Some ts \<Rightarrow>
          (case get_peer c df n ts of
             Inr (Some p) \<Rightarrow> ''['' @ trust_state_debug (tp_trust_state p) @ '']''
           | Inr None \<Rightarrow> ''[UNTRUSTED / UNPAIRED]''
           | Inl _ \<Rightarrow> ''[UNKNOWN]''))"

definition run_peers ::
    "('s, 'b, 'x) session_env_scheme \<Rightarrow> beacon_message postcard \<Rightarrow> scan_inputs \<Rightarrow> u16 \<Rightarrow> string \<Rightarrow>
     ('s cli_world, cli_error, (discovered_peer \<times> string) list) comp" where
  "run_peers v pc sc broadcast_port data_dir =
     sbind (sget cw_db) (\<lambda>db.
     sbind (if db = None then sreturn None
            else sbind (open_trust v data_dir) (\<lambda>store. sreturn (Some store))) (\<lambda>trust_store.
     sbind (slift (run_discover v pc sc broadcast_port)) (\<lambda>(peers, _).
     sreturn (map (\<lambda>p. (p, trust_status v (env_db_faults v) trust_store (dp_node_id p))) peers))))"

section \<open>The command line\<close>

definition run_identity :: "bool \<Rightarrow> bytes \<Rightarrow> identity_key" where
  "run_identity fresh entropy = (if fresh then generate entropy else generate entropy)"

datatype trust_action = TrustList | TrustRevoke string

datatype commands =
    Node string u16 string string string u16 bool bool bool
  | Discover nat u16
  | Peers nat u16 string
  | PingPeer string nat string
  | SendFile string string string string
  | Pair string string string
  | Trust trust_action string
  | IdentityCommand bool

text \<open>What the outside world contributes to one invocation.\<close>

record 'b cli_inputs =
  in_fuel :: nat
  in_beacons :: "beacon_message postcard"
  in_start :: "'b start_results"
  in_scan :: scan_inputs
  in_pair :: pair_inputs
  in_refused :: "string option"
  in_entropy :: bytes
  in_client_nonce :: bytes
  in_ping_nonces :: "nat \<Rightarrow> u64"

datatype 'b cli_output =
    NodeRunning "'b node"
  | Discovered "discovered_peer list"
  | PeerList "(discovered_peer \<times> string) list"
  | PingReport nat nat
  | FileSent u64
  | PairedWith sas_verification
  | TrustListed "trusted_peer list option"
  | TrustRevoked node_id
  | IdentityShown identity_key

definition node_config_of ::
    "string \<Rightarrow> u16 \<Rightarrow> string \<Rightarrow> string \<Rightarrow> string \<Rightarrow> u16 \<Rightarrow> bool \<Rightarrow> bool \<Rightarrow> bool \<Rightarrow> node_config" where
  "node_config_of name port dtype receive_dir data_dir broadcast_port no_mdns no_udp use_memory =
     \<lparr>nc_name = name, nc_port = port, nc_device_type = device_type_from_str dtype,
      nc_receive_dir = receive_dir, nc_data_dir = data_dir, nc_broadcast_port = broadcast_port,
      nc_enable_mdns = (\<not> no_mdns), nc_enable_udp = (\<not> no_udp), nc_memory_clipboard = use_memory\<rparr>"

text \<open>For the node this is its start; connections are served by \<open>handle_connection\<close>.\<close>

fun execute_cli ::
    "('s, 'b, 'x) cli_env_scheme \<Rightarrow> 'b cli_inputs \<Rightarrow> commands \<Rightarrow> ('s cli_world, cli_error, 'b cli_output) comp" where
  "execute_cli v inp (Node name port dtype receive_dir data_dir broadcast_port no_mdns no_udp use_memory) =
     sbind (start_node v (in_start inp) (node_config_of name port dtype receive_dir data_dir broadcast_port
              no_mdns no_udp use_memory)) (\<lambda>nd. sreturn (NodeRunning nd))"
| "execute_cli v inp (Discover duration broadcast_port) =
     sbind (slift (run_discover v (in_beacons inp) (in_scan inp) broadcast_port)) (\<lambda>(ps, _). sreturn (Discovered ps))"
| "execute_cli v inp (Peers duration broadcast_port data_dir) =
     sbind (run_peers v (in_beacons inp) (in_scan inp) broadcast_port data_dir) (\<lambda>ps. sreturn (PeerList ps))"
| "execute_cli v inp (PingPeer peer probes name) =
     sbind (on_endpoint (run_ping v peer (in_refused inp) (in_entropy inp) (in_client_nonce inp)
              (map (in_ping_nonces inp) [1..<Suc probes]) name)) (\<lambda>n. sreturn (PingReport probes n))"
| "execute_cli v inp (SendFile peer file name data_dir) =
     (\<lambda>w. case on_fs (load_or_generate v (env_fs_faults v) (in_entropy inp) (key_path data_dir)) w of
        (key, w') \<Rightarrow>
          sbind (on_endpoint (run_send_file v peer (in_refused inp) (in_entropy inp) (in_client_nonce inp)
                   file name (case key of Inl _ \<Rightarrow> None | Inr k \<Rightarrow> Some k))) (\<lambda>n. sreturn (FileSent n)) w')"
| "execute_cli v inp (Pair peer name data_dir) =
     sbind (run_pair v (in_fuel inp) (in_pair inp) peer name data_dir) (\<lambda>sas. sreturn (PairedWith sas))"
| "execute_cli v inp (Trust TrustList data_dir) =
     sbind (run_trust_list v data_dir) (\<lambda>ps. sreturn (TrustListed ps))"
| "execute_cli v inp (Trust (TrustRevoke n) data_dir) =
     sbind (run_trust_revoke v data_dir n) (\<lambda>n. sreturn (TrustRevoked n))"
| "execute_cli v inp (IdentityCommand fresh) =
     sreturn (IdentityShown (run_identity fresh (in_entropy inp)))"

end
