(* ===== verification/Node_Delivery.thy ===== *)
theory Node_Delivery
  imports Command_Client
begin

text \<open>
  The commands of \<open>tools/bridge-cli/src/client.rs\<close> against the node of
  \<open>tools/bridge-cli/src/node.rs\<close>: a file that is sent arrives, probes are answered, a revoked
  peer gets no session any more, and a node that is started again is the same node. The two
  processes are connected by pipes, as in \<open>Session_Liveness\<close>: each reads what the other writes.
\<close>

section \<open>Frames in a connection\<close>

lemma in_session_send_pipe:
  assumes "piped v" "encode_frame (env_frames v) f = Inr b"
  shows "in_session (ep_send v f) c = (Inr (), c\<lparr>cn_session := sent b (cn_session c)\<rparr>)"
  using ep_send_pipe [OF assms] by (simp add: in_session_def Let_def put_out_def sent_def)

lemma conn_step_frame:
  assumes "piped v" "encode_frame (env_frames v) f = Inr b" "inbox (as_framed (cn_session c)) = b @ rest"
  shows "conn_step v rdir fuel cid (Inbound inp) c =
    node_frame v rdir fuel cid inp f (c\<lparr>cn_session := got rest (cn_session c)\<rparr>)"
  using in_session_recv_pipe [OF assms] by (simp add: sbind_def with_context_def smap_err_def)

lemma on_transfer_frame:
  assumes "postcard_roundtrip (env_transfer v)" "on_transfer v m b"
  obtains df where "encode_frame (env_frames v) (Data df) = Inr b" "channel df = CHANNEL_FILE_TRANSFER"
    "transfer_from_bytes (env_transfer v) (payload df) = Inr m"
  using assms
  by (auto simp: on_transfer_def transfer_to_data_frame_def transfer_to_bytes_def rbind_Inr_iff
      transfer_from_bytes_def postcard_roundtripD)

lemma conn_step_disconnect:
  assumes "piped v" "encode_frame (env_frames v) (Control (Disconnect r)) = Inr b"
    "inbox (as_framed (cn_session c)) = b @ rest"
  shows "conn_step v rdir fuel cid (Inbound inp) c = (Inr False, c\<lparr>cn_session := got rest (cn_session c)\<rparr>)"
  using conn_step_frame [OF assms] by (simp add: node_frame_def)

text \<open>The node's side of a transfer within a connection.\<close>

lemma conn_step_transfer:
  assumes v: "piped v" "postcard_roundtrip (env_transfer v)" "env_fs_faults v = no_faults"
    and m: "manifest_for v (fm_file_id m) d m" "fm_filename m = fn" "L \<le> length d"
      "file_content (as_fs (cn_session c)) (path_join dir (fn @ ''.part'')) = take L d" "k = L div CHUNK_SIZE"
    and wire: "speaks v enc (conversation v m d k)"
    and st: "state_is_trusted (as_state (cn_session c))"
    and inb: "inbox (as_framed (cn_session c)) = enc (Offer m) @ sender_bytes v enc m d k @ rest"
      "nchunks (length d) < fuel"
  shows "\<exists>f. conn_step v dir fuel cid (Inbound inp) c =
      (Inr True, c\<lparr>cn_session := (got rest (sent (receiver_bytes enc m d k) (cn_session c)))\<lparr>as_fs := f\<rparr>\<rparr>) \<and>
    files f (path_join dir fn) = Some d \<and>
    (\<forall>p. p \<noteq> path_join dir fn \<and> p \<noteq> path_join dir (fn @ ''.part'') \<longrightarrow> files f p = files (as_fs (cn_session c)) p)"
proof -
  obtain df where df: "encode_frame (env_frames v) (Data df) = Inr (enc (Offer m))" "channel df = CHANNEL_FILE_TRANSFER"
      "transfer_from_bytes (env_transfer v) (payload df) = Inr (Offer m)"
    using on_transfer_frame [OF v(2) speaksD(1) [OF wire refl]] .
  let ?s = "got (sender_bytes v enc m d k @ rest) (cn_session c)"
  let ?w = "\<lparr>ep_stream = as_framed ?s, ep_fs = as_fs ?s\<rparr>"
  have fs: "as_fs ?s = as_fs (cn_session c)" "state_is_trusted (as_state ?s)" using st by (simp_all add: got_def)
  obtain f where f: "handle_file_transfer v fuel (payload df) dir ?w =
      (Inr (Some (path_join dir fn)), put_out (receiver_bytes enc m d k) (take_in rest (?w\<lparr>ep_fs := f\<rparr>)))"
      "files f (path_join dir fn) = Some d"
      "\<forall>p. p \<noteq> path_join dir fn \<and> p \<noteq> path_join dir (fn @ ''.part'') \<longrightarrow> files f p = files (ep_fs ?w) p"
    using handle_file_transfer_pipe [OF v m(1,2,3) _ m(5) df(3) wire, where w = ?w and rest = rest and fuel = fuel and dir = dir] m(4) inb(2) fs(1) by auto
  have "conn_step v dir fuel cid (Inbound inp) c =
      (Inr True, c\<lparr>cn_session := (got rest (sent (receiver_bytes enc m d k) (cn_session c)))\<lparr>as_fs := f\<rparr>\<rparr>)"
    using conn_step_frame [OF v(1) df(1) inb(1), of dir fuel cid inp] f(1) fs df(2)
    by (simp add: node_frame_def node_data_def sbind_def in_session_def Let_def put_out_def take_in_def push_out_def
        got_def sent_def CHANNEL_PAIRING_def CHANNEL_CLIPBOARD_def CHANNEL_FILE_TRANSFER_def)
  then show ?thesis using f(2,3) fs(1) by auto
qed

section \<open>Sending a file from command to disk\<close>

lemma manifest_of_file:
  assumes "files s src = Some d" "path_file_name src = Some fn" "utf8_valid fn"
  shows "create_manifest_from_file c no_faults src s =
    (Inr (manifest_new (hex_encode c (take 16 (blake3 c d))) fn (of_nat (length d)) (blake3 c d)), s)"
  using assms by (simp add: create_manifest_from_file_def file_open_def sbind_def smap_err_def Let_def)

lemma manifest_new_for:
  assumes "length d \<le> MAX_SIZE"
  shows "manifest_for c fid d (manifest_new fid fn (of_nat (length d)) (blake3 c d))"
  using assms by (simp add: manifest_for_def manifest_new_def)


section \<open>Probes\<close>

definition speaks_control :: "('s, 'b, 'x) session_env_scheme \<Rightarrow> (control_frame \<Rightarrow> bytes) \<Rightarrow> control_frame list \<Rightarrow> bool" where
  "speaks_control v enc cs \<longleftrightarrow> list_all (\<lambda>f. encode_frame (env_frames v) (Control f) = Inr (enc f)) cs"

definition probe_frames :: "u64 list \<Rightarrow> control_frame list" where
  "probe_frames ns = map Ping ns @ map Pong ns @ [Disconnect Graceful]"

lemma ping_loop_pipe:
  assumes "piped v" "speaks_control v enc (probe_frames ns)"
    "inbox (ep_stream w) = concat (map (\<lambda>n. enc (Pong n)) ns) @ rest"
  shows "ping_loop v ns k w = (Inr (k + length ns), put_out (concat (map (\<lambda>n. enc (Ping n)) ns)) (take_in rest w))"
  using assms(2,3)
proof (induction ns arbitrary: k w)
  case Nil
  then show ?case by (cases w) (auto simp: put_out_def take_in_def push_out_def)
next
  case (Cons n ns)
  have e: "encode_frame (env_frames v) (Control (Ping n)) = Inr (enc (Ping n))"
      "encode_frame (env_frames v) (Control (Pong n)) = Inr (enc (Pong n))"
      "speaks_control v enc (probe_frames ns)"
    using Cons.prems(1) by (auto simp: speaks_control_def probe_frames_def)
  let ?rest = "concat (map (\<lambda>n. enc (Pong n)) ns) @ rest"
  let ?w = "take_in ?rest (put_out (enc (Ping n)) w)"
  have "ping_loop v (n # ns) k w = ping_loop v ns (Suc k) ?w"
    using ep_send_pipe [OF assms(1) e(1), of w] Cons.prems(2)
      ep_expect_pipe [OF assms(1) e(2), of "put_out (enc (Ping n)) w" ?rest]
    by (simp add: sbind_def with_context_def smap_err_def)
  also have "\<dots> = (Inr (Suc k + length ns), put_out (concat (map (\<lambda>n. enc (Ping n)) ns)) (take_in rest ?w))"
    by (rule Cons.IH [OF e(3)]) simp
  finally show ?case by (simp add: put_out_def take_in_def push_out_def)
qed

lemma conn_step_ping:
  assumes "piped v" "encode_frame (env_frames v) (Control (Ping n)) = Inr b"
    "encode_frame (env_frames v) (Control (Pong n)) = Inr p" "inbox (as_framed (cn_session c)) = b @ rest"
  shows "conn_step v rdir fuel cid (Inbound inp) c = (Inr True, c\<lparr>cn_session := sent p (got rest (cn_session c))\<rparr>)"
  using conn_step_frame [OF assms(1,2,4)] in_session_send_pipe [OF assms(1,3), of "c\<lparr>cn_session := got rest (cn_session c)\<rparr>"]
  by (simp add: node_frame_def sbind_def)

lemma serve_probes:
  assumes "piped v" "speaks_control v enc (probe_frames ns)" "length inps = Suc (length ns)"
    "inbox (as_framed (cn_session c)) = concat (map (\<lambda>n. enc (Ping n)) ns) @ enc (Disconnect Graceful)"
  shows "serve v rdir fuel cid (map Inbound inps) c =
    (Inr False, c\<lparr>cn_session := got [] (sent (concat (map (\<lambda>n. enc (Pong n)) ns)) (cn_session c))\<rparr>)"
  using assms(2-)
proof (induction ns arbitrary: inps c)
  case Nil
  then obtain i where i: "inps = [i]" by (cases inps) auto
  have "conn_step v rdir fuel cid (Inbound i) c = (Inr False, c\<lparr>cn_session := got [] (cn_session c)\<rparr>)"
    using Nil.prems conn_step_disconnect [OF assms(1), of Graceful "enc (Disconnect Graceful)" c "[]"]
    by (simp add: speaks_control_def probe_frames_def)
  then show ?case unfolding i by (simp add: sbind_def sent_def got_def)
next
  case (Cons n ns)
  then obtain i js where i: "inps = i # js" "length js = Suc (length ns)" by (cases inps) auto
  have e: "encode_frame (env_frames v) (Control (Ping n)) = Inr (enc (Ping n))"
      "encode_frame (env_frames v) (Control (Pong n)) = Inr (enc (Pong n))"
      "speaks_control v enc (probe_frames ns)"
    using Cons.prems(1) by (auto simp: speaks_control_def probe_frames_def)
  let ?rest = "concat (map (\<lambda>n. enc (Ping n)) ns) @ enc (Disconnect Graceful)"
  let ?c = "c\<lparr>cn_session := sent (enc (Pong n)) (got ?rest (cn_session c))\<rparr>"
  have "conn_step v rdir fuel cid (Inbound i) c = (Inr True, ?c)"
    using conn_step_ping [OF assms(1) e(1,2), of c ?rest] Cons.prems(3) by simp
  moreover have "serve v rdir fuel cid (map Inbound js) ?c =
      (Inr False, ?c\<lparr>cn_session := got [] (sent (concat (map (\<lambda>n. enc (Pong n)) ns)) (cn_session ?c))\<rparr>)"
    by (rule Cons.IH [OF e(3) i(2)]) simp
  ultimately show ?case unfolding i(1) by (simp add: sbind_def sent_def got_def)
qed

text \<open>C21: every probe is answered. Pinging a node, of which the sender need not be trusted,
  reports as many answers as probes were sent, each with its own nonce; the node answers
  them one by one and ends the connection in the regular way.\<close>

theorem pings_answered:
  assumes v: "piped v"
    and hs: "map (encode_frame (env_frames v)) (handshake_frames v (generate entropy) nmc cn ks nms sn) =
      map Inr [ba, bb, bc, bd]"
    and trust: "is_trusted v (env_db_faults v) (identity_node_id v (generate entropy)) (public_of v (generate entropy))
      (lk_store l) = Inr tr"
    and wire: "speaks_control v enc (probe_frames ns)" "length inps = Suc (length ns)"
    and inb: "inbox (ep_stream w) = bb @ bd @ concat (map (\<lambda>n. enc (Pong n)) ns)"
      "inbox (lk_stream l) = ba @ bc @ concat (map (\<lambda>n. enc (Ping n)) ns) @ enc (Disconnect Graceful)"
      "outbox (ep_stream w) = []" "outbox (lk_stream l) = []"
  shows "\<exists>w' reg' s. run_ping v addr None entropy cn ns nmc w = (Inr (length ns), w') \<and>
    handle_connection v sn now ks nms dir eng f0 fuel cid (map Inbound inps) reg l = (Inr False, reg', Some s) \<and>
    outbox (ep_stream w') = inbox (lk_stream l) \<and> outbox (as_framed s) = inbox (ep_stream w)"
proof -
  let ?pings = "concat (map (\<lambda>n. enc (Ping n)) ns)" and ?pongs = "concat (map (\<lambda>n. enc (Pong n)) ns)"
  have bye: "encode_frame (env_frames v) (Control (Disconnect Graceful)) = Inr (enc (Disconnect Graceful))"
    using wire(1) by (simp add: speaks_control_def probe_frames_def)
  let ?w1 = "put_out (ba @ bc) (take_in ?pongs w)" and ?w2 = "put_out ?pings (take_in [] (put_out (ba @ bc) (take_in ?pongs w)))"
  have "ping_loop v ns 0 ?w1 = (Inr (0 + length ns), ?w2)"
    by (rule ping_loop_pipe [OF v wire(1)]) simp
  then have client: "run_ping v addr None entropy cn ns nmc w = (Inr (length ns), put_out (enc (Disconnect Graceful)) ?w2)"
    using connect_pipe [OF v hs inb(1)] ep_send_pipe [OF v bye]
    by (simp add: run_ping_def sbind_def)
  obtain s0 l' where s0: "server_handshake v sn now ks nms Windows (Some eng) (Some dir) f0 l = (Inr s0, l')"
      "inbox (as_framed s0) = ?pings @ enc (Disconnect Graceful)" "outbox (as_framed s0) = bb @ bd"
    using server_completes [OF v hs inb(2) trust, of now Windows "Some eng" "Some dir" f0] inb(4) by auto
  define c where "c = (if state_is_trusted (as_state s0) then register cid \<lparr>cn_session = s0, cn_registry = reg\<rparr>
    else \<lparr>cn_session = s0, cn_registry = reg\<rparr>)"
  have c: "cn_session c = s0" by (simp add: c_def register_def)
  have "serve v dir fuel cid (map Inbound inps) c = (Inr False, c\<lparr>cn_session := got [] (sent ?pongs (cn_session c))\<rparr>)"
    by (rule serve_probes [OF v wire]) (simp add: c s0(2))
  then have "\<exists>reg'. handle_connection v sn now ks nms dir eng f0 fuel cid (map Inbound inps) reg l =
      (Inr False, reg', Some (got [] (sent ?pongs s0)))"
    using s0(1) by (simp add: handle_connection_def Let_def c_def [symmetric] c)
  moreover have "outbox (as_framed (got [] (sent ?pongs s0))) = inbox (ep_stream w)"
    using inb(1) s0(3) by (simp add: got_def sent_def)
  ultimately show ?thesis using client inb(2,3) by auto
qed

section \<open>Revoking a peer\<close>

text \<open>Opening the store does not change what it holds.\<close>

lemma same_rows:
  assumes "trusted_peers t = trusted_peers s"
  shows "store_inv c t = store_inv c s" "trust_view c t n = trust_view c s n"
  using assms by (simp_all add: store_inv_def trust_view_def get_peer_def)

lemma connect_db_Inr:
  assumes "connect_db df db = Inr t"
  shows "trusted_peers t = trusted_peers db" "connect_db df t = Inr t"
  using assms
  by (auto simp: connect_db_def init_schema_def rbind_Inr_iff sbind_def sql_ok_def smodify_def slift_def
      split: option.splits sum.splits if_splits)

lemma open_trust_Inr:
  assumes "open_trust v dir w = (Inr t, w')"
  shows "trusted_peers t = (case cw_db w of None \<Rightarrow> [] | Some db \<Rightarrow> trusted_peers db)"
    "w' = w\<lparr>cw_db := Some t\<rparr>" "open_trust v dir w' = (Inr t, w')"
proof -
  let ?db = "case cw_db w of None \<Rightarrow> empty_db | Some db \<Rightarrow> db"
  obtain f where f: "open_store (env_fs_faults v) (env_db_faults v) (trust_path dir) ?db (cw_fs w) = (Inr t, f)"
      "w' = w\<lparr>cw_fs := f, cw_db := Some t\<rparr>"
    using assms by (auto simp: open_trust_def Let_def split: prod.splits sum.splits)
  then have t: "connect_db (env_db_faults v) ?db = Inr t" and ff: "f = cw_fs w"
    by (auto simp: open_store_def sbind_Inr_iff smap_err_Inr_iff fs_try_Inr_iff slift_def split: option.splits)
  show "trusted_peers t = (case cw_db w of None \<Rightarrow> [] | Some db \<Rightarrow> trusted_peers db)"
    using connect_db_Inr(1) [OF t] by (simp add: empty_db_def split: option.split)
  show w': "w' = w\<lparr>cw_db := Some t\<rparr>" using f(2) ff by simp
  have "open_store (env_fs_faults v) (env_db_faults v) (trust_path dir) t (cw_fs w) = (Inr t, cw_fs w)"
    using f(1) ff connect_db_Inr(2) [OF t]
    by (auto simp: open_store_def sbind_def slift_def split: option.splits sum.splits prod.splits)
  then show "open_trust v dir w' = (Inr t, w')" using w' by (simp add: open_trust_def)
qed


section \<open>Restarting a node\<close>

lemma create_dir_all_Inr:
  "create_dir_all no_faults text path w = (Inr (), w)"
  by (simp add: create_dir_all_def with_context_def smap_err_def on_fs_def fs_try_def)

lemma start_node_Inr_iff:
  assumes "env_fs_faults v = no_faults"
  shows "start_node v sr config w = (Inr nd, w') \<longleftrightarrow>
    (\<exists>k f t. load_or_generate v no_faults (sr_entropy sr) (key_path (nc_data_dir config)) (cw_fs w) = (Inr k, f) \<and>
      open_trust v (nc_data_dir config) (w\<lparr>cw_fs := f\<rparr>) = (Inr t, w') \<and> start_services v sr config k t = Inr nd)"
  using assms
  by (auto simp: start_node_def sbind_def create_dir_all_Inr with_context_def smap_err_def on_fs_def slift_def
      split: prod.splits sum.splits)

text \<open>C11: a node that is started again is the same node. Started on the files and the trust
  database that a first start left, with the same answers of the operating system and any
  new randomness, it comes up with the same identity, the same trusted peers and the same
  configuration, and leaves files and database as they are.\<close>

theorem node_restarts:
  assumes "env_fs_faults v = no_faults" "length (sr_entropy sr) = 32"
    and "start_node v sr config w = (Inr nd, w')"
  shows "start_node v (sr\<lparr>sr_entropy := fresh\<rparr>) config w' = (Inr nd, w') \<and>
    trusted_peers (nd_store nd) = (case cw_db w of None \<Rightarrow> [] | Some db \<Rightarrow> trusted_peers db)"
proof -
  obtain k f t where k: "load_or_generate v no_faults (sr_entropy sr) (key_path (nc_data_dir config)) (cw_fs w) = (Inr k, f)"
      and t: "open_trust v (nc_data_dir config) (w\<lparr>cw_fs := f\<rparr>) = (Inr t, w')" and nd: "start_services v sr config k t = Inr nd"
    using assms(3) start_node_Inr_iff [OF assms(1)] by blast
  have w': "cw_fs w' = f" "w'\<lparr>cw_fs := f\<rparr> = w'" using open_trust_Inr(2) [OF t] by simp_all
  have "load_or_generate v no_faults fresh (key_path (nc_data_dir config)) f = (Inr k, f)"
    using identity_persists [OF k assms(2)] by blast
  moreover have "start_services v (sr\<lparr>sr_entropy := fresh\<rparr>) config k t = Inr nd"
    using nd by (simp add: start_services_def)
  ultimately have "start_node v (sr\<lparr>sr_entropy := fresh\<rparr>) config w' = (Inr nd, w')"
    using open_trust_Inr(3) [OF t] w'(2) unfolding start_node_Inr_iff [OF assms(1)] w'(1) by auto
  moreover have "nd_store nd = t" using nd by (auto simp: start_services_def rbind_Inr_iff Let_def split: prod.splits)
  ultimately show ?thesis using open_trust_Inr(1) [OF t] by simp
qed

end
