(* ===== verification/Node_Machine.thy ===== *)
theory Node_Machine
  imports Peer_Node
begin

text \<open>
  The running node of \<open>tools/bridge-cli/src/node.rs\<close> as a state machine: the accept loop of
  \<open>run_node\<close>, the connection tasks it spawns, the clipboard monitor and the broadcaster, all
  sharing the trust store, the clipboard engine, the files and the registry. The tasks are
  interleaved; a turn of a connection, from a frame to the end of its handling, is one step.
\<close>

section \<open>State\<close>

text \<open>
  \<open>ns_open\<close> are the connection tasks by number, \<open>ns_queue\<close> the frames in their channels,
  \<open>ns_pending\<close> what the broadcaster still has to send for the event at hand (it holds the lock
  of the registry until that is empty) and \<open>ns_read\<close> the number of engine events it has read.
  Trust store, engine and files are shared: the copies inside the sessions are stale.
\<close>

record ('s, 'b) node_state =
  ns_store :: trust_db
  ns_engine :: "'b clipboard_engine"
  ns_fs :: fs
  ns_registry :: session_registry
  ns_open :: "(nat \<times> ('s, 'b) active_session) list"
  ns_next :: nat
  ns_queue :: "(nat \<times> data_frame) list"
  ns_pending :: "(nat \<times> data_frame) list"
  ns_read :: nat
  ns_monitoring :: bool
  ns_broadcasting :: bool

definition OUTBOUND_CAPACITY :: nat where
  "OUTBOUND_CAPACITY = 32"

definition DEFAULT_EVENT_CAPACITY :: nat where
  "DEFAULT_EVENT_CAPACITY = 128"

definition running :: "fs \<Rightarrow> 'b node \<Rightarrow> ('s, 'b) node_state" where
  "running f nd =
     \<lparr>ns_store = nd_store nd, ns_engine = nd_engine nd, ns_fs = f, ns_registry = [], ns_open = [], ns_next = 0,
      ns_queue = [], ns_pending = [], ns_read = length (en_events (nd_engine nd)), ns_monitoring = True,
      ns_broadcasting = True\<rparr>"

text \<open>A task works on the shared objects.\<close>

definition lend :: "('s, 'b) node_state \<Rightarrow> ('s, 'b) active_session \<Rightarrow> ('s, 'b) connection" where
  "lend st s =
     \<lparr>cn_session = s\<lparr>as_trust_store := ns_store st, as_clipboard_engine := Some (ns_engine st), as_fs := ns_fs st\<rparr>,
      cn_registry = ns_registry st\<rparr>"

definition give_back :: "nat \<Rightarrow> ('s, 'b) connection \<Rightarrow> ('s, 'b) node_state \<Rightarrow> ('s, 'b) node_state" where
  "give_back cid c st =
     st\<lparr>ns_store := as_trust_store (cn_session c),
        ns_engine := (case as_clipboard_engine (cn_session c) of None \<Rightarrow> ns_engine st | Some e \<Rightarrow> e),
        ns_fs := as_fs (cn_session c), ns_registry := cn_registry c,
        ns_open := AList.update cid (cn_session c) (ns_open st)\<rparr>"

definition close_task :: "nat \<Rightarrow> ('s, 'b) node_state \<Rightarrow> ('s, 'b) node_state" where
  "close_task cid st =
     st\<lparr>ns_open := AList.delete cid (ns_open st), ns_queue := filter (\<lambda>(k, _). k \<noteq> cid) (ns_queue st)\<rparr>"

text \<open>The channel of a connection is the subsequence of its entries.\<close>

fun dequeue :: "nat \<Rightarrow> (nat \<times> data_frame) list \<Rightarrow> (data_frame \<times> (nat \<times> data_frame) list) option" where
  "dequeue cid [] = None"
| "dequeue cid ((k, df) # q) =
     (if k = cid then Some (df, q)
      else map_option (\<lambda>(df', q'). (df', (k, df) # q')) (dequeue cid q))"

fun queue_after :: "nat \<Rightarrow> conn_event \<Rightarrow> (nat \<times> data_frame) list \<Rightarrow> (nat \<times> data_frame) list option" where
  "queue_after cid (Inbound inp) q = Some q"
| "queue_after cid (Outbound n df) q =
     (case dequeue cid q of
        Some (df', q') \<Rightarrow> if df' = df then Some q' else None
      | None \<Rightarrow> None)"

section \<open>Steps\<close>

datatype 's node_event =
    Connected 's bytes u64
  | AcceptFailed string
  | Turn nat conn_event
  | ClipboardReceived u64 recv_result
  | BroadcastNext
  | BroadcastLagged
  | DeliverNext

text \<open>What every task gets: the environment, the identity, name and directory of the node.\<close>

inductive node_step ::
    "('s, 'b, 'x) cli_env_scheme \<Rightarrow> identity_key \<Rightarrow> string \<Rightarrow> string \<Rightarrow> nat \<Rightarrow>
     ('s, 'b) node_state \<Rightarrow> 's node_event \<Rightarrow> ('s, 'b) node_state \<Rightarrow> bool"
  for v key nm dir fuel where
  refused:
    "server_handshake v nonce now key nm Windows (Some (ns_engine st)) (Some dir) (ns_fs st)
       \<lparr>lk_stream = sock, lk_store = ns_store st\<rparr> = (Inl e, l) \<Longrightarrow>
     node_step v key nm dir fuel st (Connected sock nonce now)
       (st\<lparr>ns_store := lk_store l, ns_next := Suc (ns_next st)\<rparr>)"
| connected:
    "\<lbrakk>server_handshake v nonce now key nm Windows (Some (ns_engine st)) (Some dir) (ns_fs st)
        \<lparr>lk_stream = sock, lk_store = ns_store st\<rparr> = (Inr s, l);
      \<not> state_is_trusted (as_state s)\<rbrakk> \<Longrightarrow>
     node_step v key nm dir fuel st (Connected sock nonce now)
       (st\<lparr>ns_store := lk_store l, ns_next := Suc (ns_next st), ns_open := (ns_next st, s) # ns_open st\<rparr>)"
| connected_trusted:
    "\<lbrakk>server_handshake v nonce now key nm Windows (Some (ns_engine st)) (Some dir) (ns_fs st)
        \<lparr>lk_stream = sock, lk_store = ns_store st\<rparr> = (Inr s, l);
      state_is_trusted (as_state s); ns_pending st = []\<rbrakk> \<Longrightarrow>
     node_step v key nm dir fuel st (Connected sock nonce now)
       (st\<lparr>ns_store := lk_store l, ns_next := Suc (ns_next st), ns_open := (ns_next st, s) # ns_open st,
           ns_registry := AList.update (as_remote_node_id s) (ns_next st) (ns_registry st)\<rparr>)"
| accept_failed: "node_step v key nm dir fuel st (AcceptFailed e) st"
| turn:
    "\<lbrakk>map_of (ns_open st) cid = Some s; queue_after cid ev (ns_queue st) = Some q;
      conn_step v dir fuel cid ev (lend st s) = (Inr True, c);
      cn_registry c = ns_registry st \<or> ns_pending st = []\<rbrakk> \<Longrightarrow>
     node_step v key nm dir fuel st (Turn cid ev) ((give_back cid c st)\<lparr>ns_queue := q\<rparr>)"
| last_turn:
    "\<lbrakk>map_of (ns_open st) cid = Some s; queue_after cid ev (ns_queue st) = Some q;
      conn_step v dir fuel cid ev (lend st s) = (Inr False, c); ns_pending st = []\<rbrakk> \<Longrightarrow>
     node_step v key nm dir fuel st (Turn cid ev)
       (close_task cid ((give_back cid c st)\<lparr>ns_queue := q,
          ns_registry := AList.delete (as_remote_node_id (cn_session c)) (cn_registry c)\<rparr>))"
| failed_turn:
    "\<lbrakk>map_of (ns_open st) cid = Some s; queue_after cid ev (ns_queue st) = Some q;
      conn_step v dir fuel cid ev (lend st s) = (Inl e, c);
      cn_registry c = ns_registry st \<or> ns_pending st = []\<rbrakk> \<Longrightarrow>
     node_step v key nm dir fuel st (Turn cid ev) (close_task cid ((give_back cid c st)\<lparr>ns_queue := q\<rparr>))"
| copied:
    "ns_monitoring st \<Longrightarrow>
     node_step v key nm dir fuel st (ClipboardReceived now (Delivered ct))
       (st\<lparr>ns_engine := snd (handle_local_change v (env_clip v) now ct False (ns_engine st))\<rparr>)"
| monitor_ended:
    "\<lbrakk>ns_monitoring st; r = ChannelClosed \<or> r = Lagged k\<rbrakk> \<Longrightarrow>
     node_step v key nm dir fuel st (ClipboardReceived now r) (st\<lparr>ns_monitoring := False\<rparr>)"
| broadcast:
    "\<lbrakk>ns_broadcasting st; ns_pending st = []; ns_read st < length (en_events (ns_engine st));
      length (en_events (ns_engine st)) - ns_read st \<le> DEFAULT_EVENT_CAPACITY\<rbrakk> \<Longrightarrow>
     node_step v key nm dir fuel st BroadcastNext
       (st\<lparr>ns_read := Suc (ns_read st),
           ns_pending := broadcast_clip (ns_registry st) [en_events (ns_engine st) ! ns_read st]\<rparr>)"
| broadcast_lagged:
    "\<lbrakk>ns_broadcasting st; ns_pending st = [];
      DEFAULT_EVENT_CAPACITY < length (en_events (ns_engine st)) - ns_read st\<rbrakk> \<Longrightarrow>
     node_step v key nm dir fuel st BroadcastLagged (st\<lparr>ns_broadcasting := False\<rparr>)"
| deliver:
    "\<lbrakk>ns_pending st = (cid, df) # ps; map_of (ns_open st) cid \<noteq> None;
      length (filter (\<lambda>(k, _). k = cid) (ns_queue st)) < OUTBOUND_CAPACITY\<rbrakk> \<Longrightarrow>
     node_step v key nm dir fuel st DeliverNext
       (st\<lparr>ns_pending := ps, ns_queue := ns_queue st @ [(cid, df)]\<rparr>)"
| undeliverable:
    "\<lbrakk>ns_pending st = (cid, df) # ps; map_of (ns_open st) cid = None\<rbrakk> \<Longrightarrow>
     node_step v key nm dir fuel st DeliverNext (st\<lparr>ns_pending := ps\<rparr>)"

inductive node_run ::
    "('s, 'b, 'x) cli_env_scheme \<Rightarrow> identity_key \<Rightarrow> string \<Rightarrow> string \<Rightarrow> nat \<Rightarrow>
     ('s, 'b) node_state \<Rightarrow> 's node_event list \<Rightarrow> ('s, 'b) node_state \<Rightarrow> bool"
  for v key nm dir fuel st0 where
  start: "node_run v key nm dir fuel st0 [] st0"
| more:
    "\<lbrakk>node_run v key nm dir fuel st0 evs st; node_step v key nm dir fuel st ev st'\<rbrakk> \<Longrightarrow>
     node_run v key nm dir fuel st0 (evs @ [ev]) st'"

inductive_cases turn_cases: "node_step v key nm dir fuel st (Turn cid ev) st'"
inductive_cases connected_cases: "node_step v key nm dir fuel st (Connected sock nonce now) st'"

section \<open>What a turn does to its connection\<close>

definition task_kept :: "nat \<Rightarrow> ('s, 'b) connection \<Rightarrow> ('s, 'b) connection \<Rightarrow> bool" where
  "task_kept cid c c' \<longleftrightarrow>
     as_remote_node_id (cn_session c') = as_remote_node_id (cn_session c) \<and>
     as_remote_pubkey (cn_session c') = as_remote_pubkey (cn_session c) \<and>
     (\<forall>n. map_of (cn_registry c') n = map_of (cn_registry c) n \<or>
        n = as_remote_node_id (cn_session c) \<and> map_of (cn_registry c') n = Some cid) \<and>
     (distinct (map fst (cn_registry c)) \<longrightarrow> distinct (map fst (cn_registry c')))"

lemma task_in_session: "keeps (task_kept cid c) (in_session m)"
  by (simp add: keeps_def in_session_def task_kept_def Let_def split: prod.split)

lemma task_session:
  assumes "same_surroundings (cn_session a) s"
  shows "task_kept cid c a \<Longrightarrow> task_kept cid c (a\<lparr>cn_session := s\<rparr>)"
    "task_kept cid c a \<Longrightarrow> task_kept cid c (register cid (a\<lparr>cn_session := s\<rparr>))"
  using assms by (auto simp: task_kept_def same_surroundings_def register_def update_conv' distinct_update)

lemma task_pairing: "keeps (task_kept cid c) (node_pairing v fuel cid inp)"
  unfolding keeps_def
proof (intro allI impI)
  fix a assume a: "task_kept cid c a"
  let ?m = "execute_pairing v fuel (pi_nonce inp) (pi_now inp) (pi_now inp) False (interactive_cli_confirm (pi_answer inp))"
  obtain r t where run: "?m (cn_session a) = (r, t)" by (cases "?m (cn_session a)")
  from task_session [OF pairing_surroundings [OF run]] a run
  show "task_kept cid c (snd (node_pairing v fuel cid inp a))"
    by (simp add: node_pairing_def split: sum.split)
qed

lemma task_clipboard: "keeps (task_kept cid c) (node_clipboard v df)"
  unfolding node_clipboard_def
  by (rule keeps_modify) (simp add: task_kept_def apply_clipboard_def split: option.split)

lemma task_step: "keeps (task_kept cid c) (conn_step v rdir fuel cid ev)"
proof -
  have "keeps (task_kept cid c) (node_frame v rdir fuel cid inp fr)" for inp fr
    unfolding node_frame_def node_data_def
    by (auto intro!: keeps_bind task_in_session task_pairing task_clipboard split: frame.split control_frame.split)
  then show ?thesis
    by (cases ev) (auto intro!: keeps_bind keeps_context keeps_ignore task_in_session split: option.split)
qed

text \<open>Without the user's consent a turn neither writes the store nor makes the session trusted.\<close>

definition calm :: "('s, 'b) connection \<Rightarrow> ('s, 'b) connection \<Rightarrow> bool" where
  "calm c c' \<longleftrightarrow>
     as_trust_store (cn_session c') = as_trust_store (cn_session c) \<and>
     (state_is_trusted (as_state (cn_session c')) \<longrightarrow> state_is_trusted (as_state (cn_session c)))"

lemma calm_in_session: "keeps (calm c) (in_session m)"
  by (simp add: keeps_def in_session_def calm_def Let_def split: prod.split)

lemma calm_pairing:
  assumes "\<not> user_accepts (Inbound inp)"
  shows "keeps (calm c) (node_pairing v fuel cid inp)"
  unfolding keeps_def
proof (intro allI impI)
  fix a assume a: "calm c a"
  let ?m = "execute_pairing v fuel (pi_nonce inp) (pi_now inp) (pi_now inp) False (interactive_cli_confirm (pi_answer inp))"
  obtain r t where run: "?m (cn_session a) = (r, t)" by (cases "?m (cn_session a)")
  moreover have "(\<exists>e. r = Inl e) \<and> untouched (cn_session a) t"
    using pairing_refused [OF run] assms by (auto simp: user_accepts_def)
  ultimately show "calm c (snd (node_pairing v fuel cid inp a))"
    using a by (auto simp: node_pairing_def calm_def untouched_def)
qed

lemma calm_clipboard: "keeps (calm c) (node_clipboard v df)"
  unfolding node_clipboard_def
  by (rule keeps_modify) (simp add: calm_def apply_clipboard_def split: option.split)

lemma calm_step:
  assumes "\<not> user_accepts ev"
  shows "keeps (calm c) (conn_step v rdir fuel cid ev)"
proof (cases ev)
  case (Inbound inp)
  then have "keeps (calm c) (node_frame v rdir fuel cid inp fr)" for fr
    using assms unfolding node_frame_def node_data_def
    by (auto intro!: keeps_bind calm_in_session calm_pairing calm_clipboard split: frame.split control_frame.split)
  then show ?thesis unfolding Inbound conn_step.simps
    by (auto intro!: keeps_bind keeps_context calm_in_session split: option.split)
next
  case (Outbound n df)
  then show ?thesis unfolding Outbound conn_step.simps
    by (auto intro!: keeps_bind keeps_ignore calm_in_session)
qed

section \<open>What a handshake does to the store\<close>

text \<open>The keys and states of the peers; when a peer was last seen does not matter.\<close>

definition trust_of :: "'x crates_scheme \<Rightarrow> trust_db \<Rightarrow> node_id \<Rightarrow> (public_key \<times> trust_state) option" where
  "trust_of c db n = map_option (\<lambda>p. (tp_public_key p, tp_trust_state p)) (trust_view c db n)"

definition same_trust :: "'x crates_scheme \<Rightarrow> trust_db \<Rightarrow> trust_db \<Rightarrow> bool" where
  "same_trust c db db' \<longleftrightarrow> store_inv c db' \<and> trust_of c db' = trust_of c db"

lemma same_trust_touch:
  assumes "same_trust c db s" "0 \<le> sint ts"
  shows "same_trust c db (snd (update_last_seen c df n ts s))"
proof -
  let ?s = "s\<lparr>trusted_peers := update_where (to_hex c n) (\<lambda>r. r\<lparr>row_last_seen_at := ts\<rparr>) (trusted_peers s)\<rparr>"
  have "store_inv c ?s"
    using assms by (intro store_inv_update_where) (auto simp: same_trust_def row_ok_seen)
  moreover have "trust_of c ?s m = trust_of c s m" for m
    by (auto simp: trust_of_def trust_view_eq find_row_update_where row_to_peer_seen [OF assms(2)]
        split: option.split sum.split)
  ultimately show ?thesis
    using assms(1) by (auto simp: update_last_seen_def sbind_def same_trust_def sql_ok_def split: option.split)
qed

lemma handshake_same_trust:
  assumes "0 \<le> sint now"
  shows "keeps (\<lambda>l. same_trust v db (lk_store l)) (server_handshake v nonce now key nm dt eng rdir f0)"
proof -
  let ?P = "\<lambda>l. same_trust v db (lk_store l)"
  have io: "keeps ?P (link_send v f)" "keeps ?P (link_expect v t)" for f t
    by (simp_all add: keeps_def link_send_def link_expect_def split: prod.split)
  have reject: "keeps ?P (sbind (signore (link_send v f)) (\<lambda>_. sfail e))"
    for f and e :: session_error
    using io by (intro keeps_bind keeps_ignore keeps_basic)
  have touch: "keeps ?P (sbind (link_touch v n now) (\<lambda>_. sreturn x))" for n and x :: session_state
    by (simp add: keeps_def sbind_def link_touch_def same_trust_touch [OF _ assms])
  have consult: "keeps ?P (consult_trust v now n pk)" for n pk
    unfolding keeps_def
    by (auto simp: consult_trust_def split: sum.split bool.split identity_error.split
        intro: reject [unfolded keeps_def, rule_format] touch [unfolded keeps_def, rule_format])
  have new: "keeps ?P (\<lambda>l. (Inr (f l), l))" for f :: "'a link \<Rightarrow> ('a, 'd) active_session"
    by (simp add: keeps_def)
  have "keeps ?P (server_authenticate v nonce now key nm dt eng rdir f0 hello pk fr)" for hello pk fr
    unfolding server_authenticate_def
    by (auto intro!: keeps_bind keeps_ignore io consult new split: frame.split handshake_frame.split sum.split)
  then have "keeps ?P (server_greet v nonce now key nm dt eng rdir f0 fr)" for fr
    unfolding server_greet_def
    by (auto intro!: keeps_bind io split: frame.split handshake_frame.split)
  then show ?thesis unfolding server_handshake_def by (intro keeps_bind io)
qed

section \<open>Trust in every interleaving\<close>

fun event_calm :: "'s node_event \<Rightarrow> bool" where
  "event_calm (Connected _ _ now) = (0 \<le> sint now)"
| "event_calm (Turn _ ev) = (\<not> user_accepts ev)"
| "event_calm _ = True"

definition entitled :: "'x crates_scheme \<Rightarrow> trust_db \<Rightarrow> ('s, 'b) active_session \<Rightarrow> bool" where
  "entitled c db s \<longleftrightarrow>
     (state_is_trusted (as_state s) \<longrightarrow> trust_of c db (as_remote_node_id s) = Some (as_remote_pubkey s, Trusted))"

definition trust_inv :: "'x crates_scheme \<Rightarrow> trust_db \<Rightarrow> ('s, 'b) node_state \<Rightarrow> bool" where
  "trust_inv c db st \<longleftrightarrow> same_trust c db (ns_store st) \<and> (\<forall>(cid, s) \<in> set (ns_open st). entitled c db s)"

lemma set_update_subset: "set (AList.update k x al) \<subseteq> insert (k, x) (set al)"
  by (induction al) auto

lemma set_delete_subset: "set (AList.delete k al) \<subseteq> set al"
  by (auto simp: AList.delete_eq)

lemma lend_sel [simp]:
  "as_state (cn_session (lend st s)) = as_state s" "as_trust_store (cn_session (lend st s)) = ns_store st"
  "as_remote_node_id (cn_session (lend st s)) = as_remote_node_id s"
  "as_remote_pubkey (cn_session (lend st s)) = as_remote_pubkey s" "cn_registry (lend st s) = ns_registry st"
  "as_fs (cn_session (lend st s)) = ns_fs st" "as_clipboard_engine (cn_session (lend st s)) = Some (ns_engine st)"
  "as_framed (cn_session (lend st s)) = as_framed s"
  by (simp_all add: lend_def)

lemma give_back_sel [simp]:
  "ns_store (give_back cid c st) = as_trust_store (cn_session c)" "ns_fs (give_back cid c st) = as_fs (cn_session c)"
  "ns_registry (give_back cid c st) = cn_registry c" "ns_pending (give_back cid c st) = ns_pending st"
  "ns_queue (give_back cid c st) = ns_queue st" "ns_next (give_back cid c st) = ns_next st"
  "ns_open (give_back cid c st) = AList.update cid (cn_session c) (ns_open st)"
  "ns_engine (give_back cid c st) = (case as_clipboard_engine (cn_session c) of None \<Rightarrow> ns_engine st | Some e \<Rightarrow> e)"
  by (simp_all add: give_back_def)

lemma close_task_sel [simp]:
  "ns_store (close_task cid st) = ns_store st" "ns_fs (close_task cid st) = ns_fs st"
  "ns_registry (close_task cid st) = ns_registry st" "ns_pending (close_task cid st) = ns_pending st"
  "ns_engine (close_task cid st) = ns_engine st" "ns_next (close_task cid st) = ns_next st"
  "ns_open (close_task cid st) = AList.delete cid (ns_open st)"
  "ns_queue (close_task cid st) = filter (\<lambda>(k, _). k \<noteq> cid) (ns_queue st)"
  by (simp_all add: close_task_def)

lemma turn_entitled:
  assumes "trust_inv v db st" "map_of (ns_open st) cid = Some s"
    and "conn_step v dir fuel cid ev (lend st s) = (r, c)" "\<not> user_accepts ev"
  shows "as_trust_store (cn_session c) = ns_store st"
    and "\<forall>(cid, s) \<in> set (AList.update cid (cn_session c) (ns_open st)). entitled v db s"
proof -
  have s: "entitled v db s" using assms(1,2) by (auto simp: trust_inv_def dest: map_of_SomeD)
  have "calm (lend st s) (lend st s)" "task_kept cid (lend st s) (lend st s)"
    by (simp_all add: calm_def task_kept_def)
  from keepsD [OF calm_step [OF assms(4)] this(1) assms(3)] keepsD [OF task_step this(2) assms(3)]
  have c: "as_trust_store (cn_session c) = ns_store st" "entitled v db (cn_session c)"
    using s by (simp_all add: calm_def task_kept_def entitled_def)
  then show "as_trust_store (cn_session c) = ns_store st" by simp
  show "\<forall>(cid, s) \<in> set (AList.update cid (cn_session c) (ns_open st)). entitled v db s"
    using c(2) assms(1) set_update_subset [of cid "cn_session c" "ns_open st"] by (auto simp: trust_inv_def)
qed

lemma handshake_entitled:
  assumes "server_handshake v nonce now key nm dt eng rdir f0 \<lparr>lk_stream = sock, lk_store = a\<rparr> = (Inr s, l)"
    and "hex_roundtrip v" "same_trust v db a"
  shows "entitled v db s"
proof -
  have "state_from_store v a s" using server_state_from_store [OF assms(1)] by simp
  moreover have "store_inv v a" using assms(3) by (simp add: same_trust_def)
  ultimately have "state_is_trusted (as_state s) \<Longrightarrow> trust_of v a (as_remote_node_id s) = Some (as_remote_pubkey s, Trusted)"
    using sqlite.trusted_law [of v a "env_db_faults v" "as_remote_node_id s" "as_remote_pubkey s" True] assms(2)
    by (auto simp: state_from_store_def trust_of_def)
  then show ?thesis using assms(3) by (simp add: entitled_def same_trust_def)
qed

lemma step_trust_inv:
  assumes "node_step v key nm dir fuel st ev st'" "hex_roundtrip v" "event_calm ev" "trust_inv v db st"
  shows "trust_inv v db st'"
  using assms
proof (cases rule: node_step.cases)
  case (turn cid s cev q c)
  then show ?thesis using turn_entitled [OF assms(4) turn(3,5)] assms(3,4) by (simp add: trust_inv_def)
next
  case (last_turn cid s cev q c)
  then show ?thesis using turn_entitled [OF assms(4) last_turn(3,5)] assms(3,4)
      set_delete_subset [of cid "AList.update cid (cn_session c) (ns_open st)"]
    by (auto simp: trust_inv_def)
next
  case (failed_turn cid s cev q e c)
  then show ?thesis using turn_entitled [OF assms(4) failed_turn(3,5)] assms(3,4)
      set_delete_subset [of cid "AList.update cid (cn_session c) (ns_open st)"]
    by (auto simp: trust_inv_def)
next
  case (refused nonce now sock e l)
  then show ?thesis using assms(3,4) keepsD [OF handshake_same_trust [where db = db] _ refused(3)]
    by (auto simp: trust_inv_def)
next
  case (connected nonce now sock s l)
  then show ?thesis
    using assms(2-4) keepsD [OF handshake_same_trust [where db = db] _ connected(3)] handshake_entitled [OF connected(3)]
    by (auto simp: trust_inv_def)
next
  case (connected_trusted nonce now sock s l)
  then show ?thesis
    using assms(2-4) keepsD [OF handshake_same_trust [where db = db] _ connected_trusted(3)]
      handshake_entitled [OF connected_trusted(3)]
    by (auto simp: trust_inv_def)
qed (auto simp: trust_inv_def)

lemma run_trust_inv:
  assumes "node_run v key nm dir fuel st0 evs st" "hex_roundtrip v" "list_all event_calm evs" "trust_inv v db st0"
  shows "trust_inv v db st"
  using assms by (induction rule: node_run.induct) (auto dest: step_trust_inv)

lemma running_trust_inv: "store_inv v (nd_store nd) \<Longrightarrow> trust_inv v (nd_store nd) (running f nd)"
  by (simp add: trust_inv_def running_def same_trust_def)

text \<open>C2: trust needs consent, however connections interleave. From the start of a node on, while
  its user accepts no pairing, any number of connections with any traffic leaves the keys and
  trust states of its store as they were, and every session that counts as trusted is one
  with a peer whose very key the store held as trusted at the start.\<close>

theorem node_trust_needs_consent:
  assumes "hex_roundtrip v" "store_inv v (nd_store nd)"
    and "node_run v key nm dir fuel (running f nd) evs st" "list_all event_calm evs"
  shows "trust_of v (ns_store st) = trust_of v (nd_store nd) \<and>
    (\<forall>cid s. map_of (ns_open st) cid = Some s \<and> state_is_trusted (as_state s) \<longrightarrow>
      trust_of v (nd_store nd) (as_remote_node_id s) = Some (as_remote_pubkey s, Trusted))"
proof -
  have "trust_inv v (nd_store nd) st"
    using run_trust_inv [OF assms(3,1,4) running_trust_inv [OF assms(2)]] .
  then show ?thesis by (auto simp: trust_inv_def same_trust_def entitled_def dest: map_of_SomeD)
qed

section \<open>A node that trusts nobody\<close>

definition inert :: "('s, 'b) node_state \<Rightarrow> ('s, 'b) node_state \<Rightarrow> bool" where
  "inert st0 st \<longleftrightarrow>
     ns_fs st = ns_fs st0 \<and> en_backend (ns_engine st) = en_backend (ns_engine st0) \<and>
     ns_registry st = [] \<and> ns_queue st = [] \<and> ns_pending st = [] \<and>
     (\<forall>(cid, s) \<in> set (ns_open st). \<not> state_is_trusted (as_state s))"

lemma untrusted_turn:
  assumes "inert st0 st" "map_of (ns_open st) cid = Some s"
    and "conn_step v dir fuel cid ev (lend st s) = (r, c)" "\<not> user_accepts ev"
  shows "untouched (cn_session (lend st s)) (cn_session c)" "cn_registry c = []"
    "\<forall>(cid, s) \<in> set (AList.update cid (cn_session c) (ns_open st)). \<not> state_is_trusted (as_state s)"
proof -
  have "\<not> state_is_trusted (as_state s)" using assms(1,2) by (auto simp: inert_def dest: map_of_SomeD)
  then have "quiet (lend st s) (lend st s)" by (simp add: quiet_def untouched_def)
  from keepsD [OF quiet_step [OF assms(4)] this assms(3)]
  show c: "untouched (cn_session (lend st s)) (cn_session c)" "cn_registry c = []"
    using assms(1) by (simp_all add: quiet_def inert_def)
  then show "\<forall>(cid, s) \<in> set (AList.update cid (cn_session c) (ns_open st)). \<not> state_is_trusted (as_state s)"
    using assms(1) set_update_subset [of cid "cn_session c" "ns_open st"] by (auto simp: inert_def untouched_def)
qed

lemma local_change_backend: "en_backend (snd (handle_local_change c pc now ct sens e)) = en_backend e"
  by (simp add: handle_local_change_def emit_def Let_def split: sum.split)

lemma dequeue_subset: "dequeue cid q = Some (df, q') \<Longrightarrow> (cid, df) \<in> set q \<and> set q' \<subseteq> set q"
  by (induction cid q arbitrary: q' rule: dequeue.induct) (auto split: if_splits)

lemma queue_after_subset: "queue_after cid ev q = Some q' \<Longrightarrow> set q' \<subseteq> set q"
  by (cases ev) (auto split: option.splits if_splits dest!: dequeue_subset)

lemma step_inert:
  assumes "node_step v key nm dir fuel st ev st'" "event_calm ev" "inert st0 st" "hex_roundtrip v" "trust_inv v db st"
    and "\<And>n k. trust_of v db n \<noteq> Some (k, Trusted)"
  shows "inert st0 st'"
  using assms
proof (cases rule: node_step.cases)
  case (turn cid s cev q c)
  then show ?thesis using untrusted_turn [OF assms(3) turn(3,5)] queue_after_subset [OF turn(4)] assms(2,3)
    by (simp add: inert_def untouched_def)
next
  case (last_turn cid s cev q c)
  then show ?thesis using untrusted_turn [OF assms(3) last_turn(3,5)] queue_after_subset [OF last_turn(4)] assms(2,3)
      set_delete_subset [of cid "AList.update cid (cn_session c) (ns_open st)"]
    by (auto simp: inert_def untouched_def)
next
  case (failed_turn cid s cev q e c)
  then show ?thesis using untrusted_turn [OF assms(3) failed_turn(3,5)] queue_after_subset [OF failed_turn(4)] assms(2,3)
      set_delete_subset [of cid "AList.update cid (cn_session c) (ns_open st)"]
    by (auto simp: inert_def untouched_def)
next
  case (connected_trusted nonce now sock s l)
  then have "entitled v db s" using handshake_entitled [OF connected_trusted(3)] assms(4,5) by (simp add: trust_inv_def)
  then show ?thesis using connected_trusted assms(6) by (simp add: entitled_def)
next
  case (broadcast)
  have "broadcast_clip [] evs = []" for evs by (induction "[] :: session_registry" evs rule: broadcast_clip.induct) auto
  then show ?thesis using broadcast assms(3) by (simp add: inert_def)
qed (auto simp: inert_def local_change_backend)

text \<open>C8: strangers get nothing. A node whose store trusts nobody and whose user accepts no
  pairing keeps its files and its clipboard as they are, registers no peer for broadcasts,
  queues no frame for anyone and has no trusted session, whoever connects and whatever is
  copied locally meanwhile.\<close>

theorem stranger_node_inert:
  assumes "hex_roundtrip v" "store_inv v (nd_store nd)"
    and "\<And>n k. trust_of v (nd_store nd) n \<noteq> Some (k, Trusted)"
    and "node_run v key nm dir fuel (running f nd) evs st" "list_all event_calm evs"
  shows "ns_fs st = f \<and> en_backend (ns_engine st) = en_backend (nd_engine nd) \<and> ns_registry st = [] \<and>
    ns_queue st = [] \<and> (\<forall>cid s. map_of (ns_open st) cid = Some s \<longrightarrow> \<not> state_is_trusted (as_state s))"
proof -
  have "inert (running f nd) st \<and> trust_inv v (nd_store nd) st"
    using assms(4,5)
  proof (induction rule: node_run.induct)
    case start
    then show ?case using running_trust_inv [OF assms(2)] by (simp add: inert_def running_def)
  next
    case (more evs st ev st')
    then show ?case using step_inert [OF more(2) _ _ assms(1) _ assms(3)] step_trust_inv [OF more(2) assms(1)] by simp
  qed
  then show ?thesis by (auto simp: inert_def running_def dest: map_of_SomeD)
qed

section \<open>The registry and the connections\<close>

definition registry_inv :: "('s, 'b) node_state \<Rightarrow> bool" where
  "registry_inv st \<longleftrightarrow>
     distinct (map fst (ns_registry st)) \<and> distinct (map fst (ns_open st)) \<and>
     (\<forall>(cid, s) \<in> set (ns_open st). cid < ns_next st) \<and>
     (\<forall>n cid. map_of (ns_registry st) n = Some cid \<longrightarrow> cid < ns_next st \<and>
        (\<forall>s. map_of (ns_open st) cid = Some s \<longrightarrow> as_remote_node_id s = n))"

lemma turn_registry:
  assumes "registry_inv st" "map_of (ns_open st) cid = Some s"
    and "conn_step v dir fuel cid ev (lend st s) = (r, c)"
  shows "registry_inv ((give_back cid c st)\<lparr>ns_queue := q\<rparr>)"
proof -
  have "task_kept cid (lend st s) (lend st s)" by (simp add: task_kept_def)
  from keepsD [OF task_step this assms(3)]
  have c: "as_remote_node_id (cn_session c) = as_remote_node_id s"
      "\<And>n. map_of (cn_registry c) n = map_of (ns_registry st) n \<or> n = as_remote_node_id s \<and> map_of (cn_registry c) n = Some cid"
      "distinct (map fst (cn_registry c))"
    using assms(1) by (auto simp: task_kept_def registry_inv_def)
  have cid: "cid < ns_next st" using assms(1) map_of_SomeD [OF assms(2)] by (auto simp: registry_inv_def)
  have "k < ns_next st \<and> (\<forall>t. map_of ((ns_open st)) k = Some t \<longrightarrow> as_remote_node_id t = n)"
    if "map_of (cn_registry c) n = Some k" for n k
  proof (cases "map_of (ns_registry st) n = Some k")
    case True
    then show ?thesis using assms(1) unfolding registry_inv_def by blast
  next
    case False
    then have "n = as_remote_node_id s" "k = cid" using c(2) [of n] that by (metis option.inject)+
    then show ?thesis using assms(2) cid by simp
  qed
  then show ?thesis
    using assms(1,2) c cid set_update_subset [of cid "cn_session c" "ns_open st"]
    by (auto simp: registry_inv_def update_conv' distinct_update)
qed

lemma close_registry:
  "registry_inv st \<Longrightarrow> registry_inv (close_task cid st)"
  "registry_inv st \<Longrightarrow> registry_inv (close_task cid (st\<lparr>ns_registry := AList.delete n (ns_registry st)\<rparr>))"
  using set_delete_subset [of cid "ns_open st"]
  by (auto simp: registry_inv_def delete_conv' distinct_delete split: if_splits)

lemma step_registry:
  assumes "node_step v key nm dir fuel st ev st'" "registry_inv st"
  shows "registry_inv st'"
  using assms
proof (cases rule: node_step.cases)
  case (turn cid s cev q c)
  then show ?thesis using turn_registry [OF assms(2) turn(3,5)] by simp
next
  case (last_turn cid s cev q c)
  have "registry_inv ((give_back cid c st)\<lparr>ns_queue := q\<rparr>)" by (rule turn_registry [OF assms(2) last_turn(3,5)])
  from close_registry(2) [OF this, of cid "as_remote_node_id (cn_session c)"] last_turn(2) show ?thesis by simp
next
  case (failed_turn cid s cev q e c)
  then show ?thesis using close_registry(1) [OF turn_registry [OF assms(2) failed_turn(3,5)]] by simp
next
  case (connected_trusted nonce now sock s l)
  have "map_of (ns_open st) (ns_next st) = None"
    using assms(2) by (auto simp: registry_inv_def map_of_eq_None_iff)
  then show ?thesis using connected_trusted assms(2)
    by (auto simp: registry_inv_def update_conv' distinct_update less_Suc_eq) (metis less_irrefl)
next
  case (connected nonce now sock s l)
  then show ?thesis using assms(2) by (force simp: registry_inv_def less_Suc_eq)
qed (auto simp: registry_inv_def less_Suc_eq)

text \<open>C14: broadcasts go to the peer they are meant for. Whatever happens after the start of a
  node, an entry of the registry that names a connection still open names one with the peer
  under whose identifier it is stored, and no two entries are for the same peer.\<close>

theorem registry_names_its_peer:
  assumes "node_run v key nm dir fuel (running f nd) evs st" "map_of (ns_registry st) n = Some cid"
    and "map_of (ns_open st) cid = Some s"
  shows "as_remote_node_id s = n \<and> distinct (map fst (ns_registry st))"
proof -
  have "registry_inv st"
    using assms(1)
  proof (induction rule: node_run.induct)
    case start
    then show ?case by (simp add: registry_inv_def running_def)
  next
    case (more evs st ev st')
    then show ?case using step_registry by blast
  qed
  then show ?thesis using assms(2,3) by (simp add: registry_inv_def)
qed

lemma broadcast_recipients: "(cid, fr) \<in> set (broadcast_clip reg evs) \<Longrightarrow> \<exists>n. (n, cid) \<in> set reg"
  by (induction reg evs rule: broadcast_clip.induct) auto

lemma conn_step_eof:
  assumes "piped v" "inbox (as_framed (cn_session c)) = []"
  shows "conn_step v dir fuel cid (Inbound inp) c = (Inr False, c)"
  using recv_frame_pipe_short [of "as_framed (cn_session c)" "env_frames v"] assms
  by (simp add: sbind_def with_context_def smap_err_def in_session_def ep_recv_def piped_def Let_def)

text \<open>C40: a peer that reconnects can lose the broadcasts. When a peer has two connections, and the
  older one ends, its task removes the entry under the peer's identifier, which belongs to
  the newer connection: that one stays open, but no broadcast reaches it any more.\<close>

theorem reconnect_loses_broadcasts:
  assumes "piped v" "registry_inv st" "ns_pending st = []"
    and "map_of (ns_open st) old = Some s1" "map_of (ns_open st) new = Some s2" "old \<noteq> new"
    and "as_remote_node_id s1 = as_remote_node_id s2" "inbox (as_framed s1) = []"
  shows "\<exists>st'. node_step v key nm dir fuel st (Turn old (Inbound inp)) st' \<and>
    map_of (ns_open st') new = Some s2 \<and> (\<forall>evs fr. (new, fr) \<notin> set (broadcast_clip (ns_registry st') evs))"
proof -
  let ?st = "close_task old ((give_back old (lend st s1) st)\<lparr>ns_queue := ns_queue st,
    ns_registry := AList.delete (as_remote_node_id s1) (ns_registry st)\<rparr>)"
  have "conn_step v dir fuel old (Inbound inp) (lend st s1) = (Inr False, lend st s1)"
    using conn_step_eof [OF assms(1)] assms(8) by simp
  then have step: "node_step v key nm dir fuel st (Turn old (Inbound inp)) ?st"
    using node_step.last_turn [OF assms(4), of "Inbound inp" "ns_queue st" v dir fuel "lend st s1" key nm] assms(3) by simp
  have "n = as_remote_node_id s2" if "(n, new) \<in> set (ns_registry st)" for n
    using that assms(2,5) by (auto simp: registry_inv_def dest: map_of_is_SomeI)
  then have "\<forall>n. (n, new) \<notin> set (ns_registry ?st)" using assms(7) by (auto simp: AList.delete_eq)
  moreover have "map_of (ns_open ?st) new = Some s2" using assms(5,6) by (simp add: delete_conv' update_conv')
  ultimately show ?thesis using step by (blast dest: broadcast_recipients)
qed

section \<open>A copied text reaches the trusted peers\<close>

lemma node_run_single: "node_step v key nm dir fuel st ev st' \<Longrightarrow> node_run v key nm dir fuel st [ev] st'"
  using node_run.more [OF node_run.start, of v key nm dir fuel st ev st'] by simp

lemma node_run_trans:
  assumes "node_run v key nm dir fuel a evs b" "node_run v key nm dir fuel b evs' c"
  shows "node_run v key nm dir fuel a (evs @ evs') c"
  using assms(2,1)
proof (induction rule: node_run.induct)
  case start
  then show ?case by simp
next
  case (more evs' st ev st')
  then show ?case using node_run.more [of v key nm dir fuel a "evs @ evs'" st ev st'] by simp
qed

lemma deliveries:
  assumes "distinct (map fst (q @ ps))" "\<forall>(cid, df) \<in> set ps. map_of (ns_open st) cid \<noteq> None"
  shows "node_run v key nm dir fuel (st\<lparr>ns_pending := ps, ns_queue := q\<rparr>) (replicate (length ps) DeliverNext)
    (st\<lparr>ns_pending := [], ns_queue := q @ ps\<rparr>)"
  using assms
proof (induction ps arbitrary: q)
  case Nil
  then show ?case using node_run.start by simp
next
  case (Cons p ps)
  obtain cid df where p: "p = (cid, df)" by (cases p)
  have "filter (\<lambda>(k, _). k = cid) q = []"
    using Cons.prems(1) p by (force simp: filter_empty_conv)
  then have "length (filter (\<lambda>(k, _). k = cid) q) < OUTBOUND_CAPACITY" by (simp add: OUTBOUND_CAPACITY_def)
  then have "node_step v key nm dir fuel (st\<lparr>ns_pending := p # ps, ns_queue := q\<rparr>) DeliverNext
      (st\<lparr>ns_pending := ps, ns_queue := q @ [p]\<rparr>)"
    using node_step.deliver [of "st\<lparr>ns_pending := p # ps, ns_queue := q\<rparr>" cid df ps v key nm dir fuel]
      Cons.prems(2) p by simp
  moreover have "node_run v key nm dir fuel (st\<lparr>ns_pending := ps, ns_queue := q @ [p]\<rparr>)
      (replicate (length ps) DeliverNext) (st\<lparr>ns_pending := [], ns_queue := (q @ [p]) @ ps\<rparr>)"
    using Cons.prems by (intro Cons.IH) auto
  ultimately have "node_run v key nm dir fuel (st\<lparr>ns_pending := p # ps, ns_queue := q\<rparr>)
      ([DeliverNext] @ replicate (length ps) DeliverNext) (st\<lparr>ns_pending := [], ns_queue := (q @ [p]) @ ps\<rparr>)"
    by (intro node_run_trans node_run_single)
  then show ?case by simp
qed

lemma conn_step_outbound:
  assumes "piped v" "encode_frame (env_frames v) (Data df) = Inr b" "state_is_trusted (as_state (cn_session c))"
  shows "conn_step v dir fuel cid (Outbound 0 df) c = (Inr True, c\<lparr>cn_session := sent b (cn_session c)\<rparr>)"
  using assms send_frame_pipe
  by (simp add: sbind_def in_session_def drop_receive_def ep_send_def piped_def Let_def sent_def push_out_def)

definition wrote :: "bytes \<Rightarrow> (pipe, 'b) active_session \<Rightarrow> (pipe, 'b) active_session \<Rightarrow> bool" where
  "wrote b s s' \<longleftrightarrow> outbox (as_framed s') = outbox (as_framed s) @ b \<and> inbox (as_framed s') = inbox (as_framed s)"

lemma outbound_turns:
  assumes "piped v" "encode_frame (env_frames v) (Data fr) = Inr b" "distinct cids"
    and "\<forall>cid \<in> set cids. \<exists>s. map_of (ns_open st) cid = Some s \<and> state_is_trusted (as_state s)"
    and "ns_queue st = map (\<lambda>cid. (cid, fr)) cids"
  shows "\<exists>st'. node_run v key nm dir fuel st (map (\<lambda>cid. Turn cid (Outbound 0 fr)) cids) st' \<and>
    (\<forall>cid s. map_of (ns_open st) cid = Some s \<longrightarrow>
      (\<exists>s'. map_of (ns_open st') cid = Some s' \<and> (if cid \<in> set cids then wrote b s s' else s' = s)))"
  using assms(3-)
proof (induction cids arbitrary: st)
  case Nil
  then show ?case using node_run.start by fastforce
next
  case (Cons cid cids)
  obtain s where s: "map_of (ns_open st) cid = Some s" "state_is_trusted (as_state s)" using Cons.prems(2) by auto
  let ?c = "(lend st s)\<lparr>cn_session := sent b (cn_session (lend st s))\<rparr>"
  let ?st = "(give_back cid ?c st)\<lparr>ns_queue := map (\<lambda>cid. (cid, fr)) cids\<rparr>"
  have "conn_step v dir fuel cid (Outbound 0 fr) (lend st s) = (Inr True, ?c)"
    using conn_step_outbound [OF assms(1,2), of "lend st s"] s(2) by simp
  then have step: "node_step v key nm dir fuel st (Turn cid (Outbound 0 fr)) ?st"
    using node_step.turn [OF s(1), of "Outbound 0 fr" "map (\<lambda>cid. (cid, fr)) cids" v dir fuel ?c key nm] Cons.prems(3)
    by simp
  have others: "map_of (ns_open ?st) k = map_of (ns_open st) k" if "k \<noteq> cid" for k
    using that by (simp add: update_conv')
  have "\<exists>st'. node_run v key nm dir fuel ?st (map (\<lambda>cid. Turn cid (Outbound 0 fr)) cids) st' \<and>
    (\<forall>k t. map_of (ns_open ?st) k = Some t \<longrightarrow>
      (\<exists>t'. map_of (ns_open st') k = Some t' \<and> (if k \<in> set cids then wrote b t t' else t' = t)))"
    by (rule Cons.IH) (use Cons.prems in \<open>auto simp: update_conv'\<close>)
  then obtain st' where st': "node_run v key nm dir fuel ?st (map (\<lambda>cid. Turn cid (Outbound 0 fr)) cids) st'"
    "\<And>k t. map_of (ns_open ?st) k = Some t \<Longrightarrow>
      (\<exists>t'. map_of (ns_open st') k = Some t' \<and> (if k \<in> set cids then wrote b t t' else t' = t))" by blast
  have "node_run v key nm dir fuel st (map (\<lambda>cid. Turn cid (Outbound 0 fr)) (cid # cids)) st'"
    using node_run_trans [OF node_run_single [OF step] st'(1)] by simp
  moreover have "\<exists>t'. map_of (ns_open st') k = Some t' \<and> (if k \<in> set (cid # cids) then wrote b t t' else t' = t)"
    if "map_of (ns_open st) k = Some t" for k t
  proof (cases "k = cid")
    case True
    have "map_of (ns_open ?st) cid = Some (cn_session ?c)" by (simp add: update_conv')
    from st'(2) [OF this] that True s(1) Cons.prems(1) show ?thesis by (auto simp: wrote_def sent_def)
  next
    case False
    then show ?thesis using st'(2) [of k t] others that by simp
  qed
  ultimately show ?case by blast
qed


end
