(* ===== verification/Node_Runs.thy ===== *)
theory Node_Runs
  imports Node_Delivery Node_Machine
begin

text \<open>
  Concrete runs of the commands and of the node, on sample instances of the third-party
  crates. They show that the hypotheses of the properties of \<open>Peer_Node\<close>, \<open>Node_Delivery\<close>
  and \<open>Node_Machine\<close> can hold together.
\<close>

section \<open>A concrete pair of processes\<close>

text \<open>The file \<open>''f''\<close> that \<open>''a''\<close> sends, and its messages and frames with a code for each.\<close>

definition sample_data :: bytes where
  "sample_data = [1, 2, 3]"

definition sample_manifest :: file_manifest where
  "sample_manifest = manifest_new (sample_hex_encode (take 16 (sample_digest sample_data))) ''f'' 3 (sample_digest sample_data)"

definition transfer_table :: "(transfer_message \<times> bytes) list" where
  "transfer_table = zip (conversation sample_crates sample_manifest sample_data 0) [[1], [2], [3], [4], [5], [6]]"

definition desk_frames :: "(frame \<times> bytes) list" where
  "desk_frames = sample_frames @
     map (\<lambda>b. (Data (data_frame_new CHANNEL_FILE_TRANSFER [b]), [30 + b])) [1, 2, 3, 4, 5, 6] @
     [(Control (Ping 7), [41]), (Control (Ping 8), [42]), (Control (Pong 7), [43]), (Control (Pong 8), [44]),
      (Control (Disconnect Graceful), [45]), (Data (data_frame_new CHANNEL_CLIPBOARD [1]), [51])]"

definition sample_copy :: clipboard_entry where
  "sample_copy = entry_new sample_crates 9 (identity_node_id sample_crates (IdentityKey [2])) 1 (Text ''hi'') False"

definition desk :: "(pipe, memory_backend) cli_env" where
  "desk =
     \<lparr>sha256 = sha256 sample_crates, blake3 = blake3 sample_crates, ed_public = ed_public sample_crates,
      ed_sign = ed_sign sample_crates, ed_key_check = ed_key_check sample_crates,
      ed_verify_strict = ed_verify_strict sample_crates, hex_encode = hex_encode sample_crates,
      hex_decode = hex_decode sample_crates, hex_decode_to_slice = hex_decode_to_slice sample_crates,
      env_io = pipe_ops, env_frames = table_codec desk_frames, env_pairing = table_codec sample_messages,
      env_transfer = table_codec transfer_table,
      env_clip = table_codec [(Sync sample_copy, [1])], env_backend = memory_clipboard, env_fs_faults = no_faults,
      env_db_faults = no_db_faults, env_debug_frame = (\<lambda>_. ''frame''),
      env_debug_pairing = (\<lambda>_. ''pairing''), cli_debug_transfer = (\<lambda>_. ''transfer'')\<rparr>"

lemma desk_sel [simp]:
  "env_frames desk = table_codec desk_frames" "env_transfer desk = table_codec transfer_table"
  "env_pairing desk = table_codec sample_messages" "env_clip desk = table_codec [(Sync sample_copy, [1])]"
  "env_io desk = pipe_ops" "env_fs_faults desk = no_faults" "env_db_faults desk = no_db_faults"
  "blake3 desk = sample_digest" "hex_encode desk = sample_hex_encode"
  by (simp_all add: desk_def)

lemma desk_lawful [simp]: "ed25519_correct desk" "hex_roundtrip desk"
  using sample_ed25519 sample_hex by (simp_all add: desk_def ed25519_correct_def hex_roundtrip_def)

lemma desk_same:
  "identity_node_id desk k = identity_node_id sample_crates k"
  "public_of desk k = public_of sample_crates k"
  "request_of desk nonce now k nm d = request_of sample_crates nonce now k nm d"
  "client_hello_of desk cn k nm = client_hello_of sample_crates cn k nm"
  "server_hello_of desk sn k nm h = server_hello_of sample_crates sn k nm h"
  "sign_handshake_challenge desk k cn sn = sign_handshake_challenge sample_crates k cn sn"
  "honest_chunk desk fid b i = honest_chunk sample_crates fid b i"
  by (simp_all add: desk_def identity_node_id_def public_of_def request_of_def new_initiator_def sign_def client_hello_of_def
      server_hello_of_def sign_handshake_challenge_def honest_chunk_def chunk_new_def Let_def)

lemma one_chunk: "nchunks (length sample_data) = 1"
  by (simp add: nchunks_def sample_data_def CHUNK_SIZE_def)

lemma transfer_table_eq:
  "transfer_table =
    [(Offer sample_manifest, [1]), (Accept (fm_file_id sample_manifest) 0, [2]),
     (Finished (fm_file_id sample_manifest) (fm_root_hash sample_manifest), [3]),
     (Complete (fm_file_id sample_manifest), [4]),
     (TransferData (honest_chunk sample_crates (fm_file_id sample_manifest) sample_data 0), [5]),
     (Ack (fm_file_id sample_manifest) 0, [6])]"
  by (simp add: transfer_table_def conversation_def one_chunk)

lemma desk_piped: "piped desk" "postcard_roundtrip (env_transfer desk)"
  by (simp_all add: piped_def table_codec_roundtrip desk_frames_def sample_frames_def sample_messages_def
      sample_handshake_def handshake_frames_def transfer_table_eq)

lemma desk_handshake:
  "map (encode_frame (env_frames desk))
     (handshake_frames desk (IdentityKey [1]) ''a'' [3] (IdentityKey [2]) ''b'' [4]) =
     map Inr [coded 11, coded 12, coded 13, coded 14]"
  by (simp add: encode_frame_Inr_iff table_codec_def desk_frames_def sample_frames_def sample_handshake_def
      handshake_frames_def desk_same coded_def MAX_FRAME_LENGTH_def)

lemma desk_request: "on_wire desk (Request (request_of desk [3] 5 (IdentityKey [1]) ''a'' Linux)) (coded 21)"
  by (auto simp: on_wire_def pairing_to_data_frame_def encode_frame_Inr_iff table_codec_def desk_frames_def desk_same
      sample_frames_def sample_messages_def sample_handshake_def handshake_frames_def coded_def
      MAX_FRAME_LENGTH_def data_frame_new_def sample_request_def)

definition transfer_code :: "transfer_message \<Rightarrow> bytes" where
  "transfer_code m = (case map_of transfer_table m of Some p \<Rightarrow> coded (30 + hd p) | None \<Rightarrow> [])"

lemma desk_speaks: "speaks desk transfer_code (conversation desk sample_manifest sample_data 0)"
  by (auto simp: speaks_def conversation_def one_chunk desk_same on_transfer_def transfer_to_data_frame_def
      transfer_to_bytes_def encode_frame_Inr_iff table_codec_def transfer_code_def transfer_table_eq desk_frames_def
      sample_frames_def sample_handshake_def handshake_frames_def coded_def MAX_FRAME_LENGTH_def data_frame_new_def
      CHANNEL_FILE_TRANSFER_def CHANNEL_PAIRING_def)

fun control_code :: "control_frame \<Rightarrow> bytes" where
  "control_code (Ping n) = coded (if n = 7 then 41 else 42)"
| "control_code (Pong n) = coded (if n = 7 then 43 else 44)"
| "control_code (Disconnect _) = coded 45"

lemma desk_control: "speaks_control desk control_code (probe_frames [7, 8])"
  by (auto simp: speaks_control_def probe_frames_def encode_frame_Inr_iff table_codec_def desk_frames_def
      sample_frames_def sample_handshake_def handshake_frames_def coded_def MAX_FRAME_LENGTH_def)

lemma desk_bye: "encode_frame (env_frames desk) (Control (Disconnect Graceful)) = Inr (coded 45)"
  using desk_control by (simp add: speaks_control_def probe_frames_def)

text \<open>The store of \<open>''b''\<close>, which trusts \<open>''a''\<close>.\<close>

definition trusting_db :: trust_db where
  "trusting_db = snd (save_peer desk no_db_faults (peer_of desk (IdentityKey [1]) ''a'' Linux 1 Trusted) empty_db)"

lemma trusting_db_trusts:
  "is_trusted desk (env_db_faults desk) (identity_node_id desk (IdentityKey [1])) (public_of desk (IdentityKey [1]))
     trusting_db = Inr True"
  using saved_is_trusted [of desk empty_db 1 no_db_faults "IdentityKey [1]" "''a''" Linux]
  by (simp add: trusting_db_def)

definition sample_inputs :: pairing_inputs where
  "sample_inputs = \<lparr>pi_nonce = [4], pi_now = 6, pi_answer = None\<rparr>"

definition desk_engine :: "memory_backend clipboard_engine" where
  "desk_engine = engine_new (identity_node_id desk (IdentityKey [2])) memory_backend_new default_clipboard_policy"

definition sample_endpoint :: "bytes \<Rightarrow> pipe endpoint" where
  "sample_endpoint b = \<lparr>ep_stream = \<lparr>inbox = b, outbox = []\<rparr>, ep_fs = \<lparr>files = [''f'' \<mapsto> sample_data], modes = Map.empty\<rparr>\<rparr>"

lemma sample_ends [simp]:
  "inbox (ep_stream (sample_endpoint b)) = b" "outbox (ep_stream (sample_endpoint b)) = []"
  "files (ep_fs (sample_endpoint b)) = [''f'' \<mapsto> sample_data]"
  "inbox (lk_stream (sample_link b db)) = b" "outbox (lk_stream (sample_link b db)) = []"
  "lk_store (sample_link b db) = db"
  by (simp_all add: sample_endpoint_def sample_link_def)


theorem pings_answered_witness:
  "\<exists>w' reg' s.
    run_ping desk ''host'' None [1] [3] [7, 8] ''a'' (sample_endpoint (coded 12 @ coded 14 @ coded 43 @ coded 44)) = (Inr 2, w') \<and>
    handle_connection desk [4] 9 (IdentityKey [2]) ''b'' ''in'' desk_engine blank_fs 0 0
      (map Inbound [sample_inputs, sample_inputs, sample_inputs]) []
      (sample_link (coded 11 @ coded 13 @ coded 41 @ coded 42 @ coded 45) empty_db) = (Inr False, reg', Some s)"
proof -
  have hs: "map (encode_frame (env_frames desk)) (handshake_frames desk (generate [1]) ''a'' [3] (IdentityKey [2]) ''b'' [4]) =
      map Inr [coded 11, coded 12, coded 13, coded 14]"
    using desk_handshake by (simp add: generate_def)
  from pings_answered [OF desk_piped(1) hs _ desk_control,
      where l = "sample_link (coded 11 @ coded 13 @ coded 41 @ coded 42 @ coded 45) empty_db" and tr = False and
        inps = "[sample_inputs, sample_inputs, sample_inputs]" and
        w = "sample_endpoint (coded 12 @ coded 14 @ coded 43 @ coded 44)" and addr = "''host''" and now = 9 and
        dir = "''in''" and eng = desk_engine and ?f0.0 = blank_fs and fuel = 0 and cid = 0 and reg = "[]"]
  show ?thesis by auto
qed

definition sample_world :: "trust_db \<Rightarrow> pipe cli_world" where
  "sample_world db = \<lparr>cw_stream = \<lparr>inbox = [], outbox = []\<rparr>, cw_fs = blank_fs, cw_db = Some db\<rparr>"

lemma trusting_db_inv: "store_inv desk trusting_db"
proof -
  let ?p = "peer_of desk (IdentityKey [1]) ''a'' Linux 1 Trusted"
  have wf: "peer_wf desk ?p" by (simp add: peer_wf_def peer_of_def public_of_def ed25519_correctD)
  have "save_peer desk no_db_faults ?p empty_db = (Inr (), trusting_db)"
    by (simp add: trusting_db_def statement_defs)
  from sqlite.put_law [OF _ wf this] show ?thesis by simp
qed

lemma open_trust_no_faults:
  "\<lbrakk>env_fs_faults v = no_faults; env_db_faults v = no_db_faults\<rbrakk> \<Longrightarrow> \<exists>db w'. open_trust v dir w = (Inr db, w')"
  by (simp add: open_trust_def open_store_def connect_db_def init_schema_def sbind_def smap_err_def fs_try_def
      sql_ok_def slift_def smodify_def Let_def split: option.split)


text \<open>A node on UDP only.\<close>

definition sample_start :: "memory_backend start_results" where
  "sample_start = \<lparr>sr_entropy = replicate 32 5, sr_native = None, sr_memory = memory_backend_new, sr_bound = Inr (),
     sr_local_port = Inr 4000,
     sr_mdns = \<lparr>mr_daemon_new = Inl ''none'', mr_service_info = (\<lambda>_ _ _ _ _ _. Inl ''none''),
       mr_register = (\<lambda>_. Inl ''none''), mr_unregister = (\<lambda>_. Inl ''none''), mr_browse = (\<lambda>_. Inl ''none''),
       mr_show_ip = (\<lambda>_. ''ip'')\<rparr>,
     sr_sockets = (\<lambda>_. None), sr_show_addr = (\<lambda>_. ''addr'')\<rparr>"

definition sample_config :: node_config where
  "sample_config = \<lparr>nc_name = ''b'', nc_port = 4000, nc_device_type = Android, nc_receive_dir = ''in'', nc_data_dir = ''data'',
     nc_broadcast_port = 4001, nc_enable_mdns = False, nc_enable_udp = True, nc_memory_clipboard = True\<rparr>"

theorem node_restarts_witness:
  "\<exists>nd w'. start_node desk sample_start sample_config (sample_world trusting_db) = (Inr nd, w') \<and>
    start_node desk (sample_start\<lparr>sr_entropy := replicate 32 6\<rparr>) sample_config w' = (Inr nd, w') \<and>
    trusted_peers (nd_store nd) = trusted_peers trusting_db"
proof -
  have "\<exists>nd. start_services desk sample_start sample_config k t = Inr nd" for k t
    by (simp add: start_services_def sample_start_def sample_config_def choose_backend_def discovery_mode_def
        broadcast_config_def unified_new_def discovery_call_def unified_advertise_def unified_start_discovery_def
        on_mdns_def on_udp_def sbind_def smodify_def udp_new_def udp_advertise_def udp_start_discovery_def
        create_udp_socket_def Let_def)
  moreover obtain f where "save no_faults (key_path ''data'') (generate (sr_entropy sample_start)) blank_fs = (Inr (), f)"
    using save_no_faults by blast
  then have "load_or_generate desk no_faults (sr_entropy sample_start) (key_path (nc_data_dir sample_config))
      (cw_fs (sample_world trusting_db)) = (Inr (generate (sr_entropy sample_start)), f)"
    by (simp add: load_or_generate_missing sbind_def sreturn_def sample_world_def sample_config_def blank_fs_def)
  moreover obtain t w' where "open_trust desk (nc_data_dir sample_config) ((sample_world trusting_db)\<lparr>cw_fs := f\<rparr>) = (Inr t, w')"
    using open_trust_no_faults [of desk] by fastforce
  ultimately have "\<exists>nd. start_node desk sample_start sample_config (sample_world trusting_db) = (Inr nd, w')"
    unfolding start_node_Inr_iff [OF desk_sel(6)] by blast
  then obtain nd where run: "start_node desk sample_start sample_config (sample_world trusting_db) = (Inr nd, w')" ..
  have "length (sr_entropy sample_start) = 32" by (simp add: sample_start_def)
  from node_restarts [OF desk_sel(6) this run, of "replicate 32 6"] run show ?thesis
    by (auto simp: sample_world_def)
qed

section \<open>Runs for the properties of the node\<close>

definition sample_connection :: "bytes \<Rightarrow> (pipe, memory_backend) connection" where
  "sample_connection b = \<lparr>cn_session = sample_session (IdentityKey [2]) ''b'' Android b, cn_registry = []\<rparr>"

lemma desk_ping: "encode_frame (env_frames desk) (Control (Ping 7)) = Inr (coded 41)"
    "encode_frame (env_frames desk) (Control (Pong 7)) = Inr (coded 43)"
  using desk_control by (simp_all add: speaks_control_def probe_frames_def)

theorem node_needs_consent_witness:
  "\<exists>c'. serve desk ''in'' 1 0 [Inbound sample_inputs] (sample_connection (coded 41)) = (Inr True, c') \<and>
    untouched (cn_session (sample_connection (coded 41))) (cn_session c') \<and> cn_registry c' = []"
proof -
  obtain c' where "conn_step desk ''in'' 1 0 (Inbound sample_inputs) (sample_connection (coded 41)) = (Inr True, c')"
    using conn_step_ping [OF desk_piped(1) desk_ping, of "sample_connection (coded 41)" "[]"]
    by (simp add: sample_connection_def)
  then have run: "serve desk ''in'' 1 0 [Inbound sample_inputs] (sample_connection (coded 41)) = (Inr True, c')"
    by (simp add: sbind_def sreturn_def)
  from node_needs_consent [OF _ _ run] run show ?thesis
    by (auto simp: sample_connection_def user_accepts_def sample_inputs_def interactive_cli_confirm_def)
qed

theorem registry_entry_lifetime_witness:
  "\<exists>reg' t. handle_connection desk [4] 9 (IdentityKey [2]) ''b'' ''in'' desk_engine blank_fs 0 5 []
      [(NodeId [], 2)] (sample_link (coded 11 @ coded 13) trusting_db) = (Inr True, reg', t) \<and>
    map_of reg' (identity_node_id desk (IdentityKey [1])) = Some 5"
proof -
  let ?l = "sample_link (coded 11 @ coded 13) trusting_db"
  have "is_trusted desk (env_db_faults desk) (identity_node_id desk (IdentityKey [1])) (public_of desk (IdentityKey [1]))
      (lk_store ?l) = Inr True" "inbox (lk_stream ?l) = coded 11 @ coded 13 @ []"
    using trusting_db_trusts by simp_all
  from server_completes [OF desk_piped(1) desk_handshake this(2,1), of 9 Windows "Some desk_engine" "Some ''in''" blank_fs]
  obtain s l' where s: "server_handshake desk [4] 9 (IdentityKey [2]) ''b'' Windows (Some desk_engine) (Some ''in'') blank_fs ?l =
      (Inr s, l')" "as_remote_node_id s = identity_node_id desk (IdentityKey [1])" "state_is_trusted (as_state s)"
    by auto
  then obtain reg' t where run: "handle_connection desk [4] 9 (IdentityKey [2]) ''b'' ''in'' desk_engine blank_fs 0 5 []
      [(NodeId [], 2)] ?l = (Inr True, reg', t)"
    by (simp add: handle_connection_def Let_def sreturn_def)
  from registry_entry_lifetime [OF s(1,3) run] s(2) run show ?thesis by simp
qed

theorem node_pairing_stalls_witness:
  "\<exists>c' si' e. conn_step desk ''in'' 1 0 (Inbound sample_inputs) (sample_connection (coded 21)) = (Inr True, c') \<and>
    execute_pairing desk 1 [3] 5 7 True (auto_confirm True) (sample_session (IdentityKey [1]) ''a'' Linux []) = (Inl e, si') \<and>
    outbox (as_framed si') = coded 21 \<and> \<not> state_is_trusted (as_state (cn_session c'))"
  using node_pairing_stalls [OF desk_piped(1), of "[3]" 5 "sample_session (IdentityKey [1]) ''a'' Linux []" "coded 21"
      "sample_connection (coded 21)" "''in''" 0 0 sample_inputs 7 "auto_confirm True"] desk_request
  by (auto simp: sample_connection_def)

theorem cancelled_read_breaks_stream_witness:
  "\<exists>c'. serve desk ''in'' 1 0 [Outbound 1 (data_frame_new 9 []), Inbound sample_inputs] (sample_connection (coded 41)) =
    (Inl (EContext ''Failed to read frame'' (ECore InvalidMagic)), c')"
  by (rule cancelled_read_breaks_stream [OF desk_piped(1) desk_ping(1), where rest = "[]"])
    (simp_all add: sample_connection_def coded_def MAGIC_bytes)

section \<open>Runs of the node as a machine\<close>

definition sample_node :: "trust_db \<Rightarrow> memory_backend node" where
  "sample_node db =
     \<lparr>nd_identity = IdentityKey [2], nd_store = db, nd_engine = desk_engine, nd_backend_name = ''In-Memory'',
      nd_port = 4000, nd_discovery = \<lparr>un_config = broadcast_config UdpOnly 4001, un_hub = hub_new, un_mdns = None,
        un_udp = None, un_is_running = True\<rparr>\<rparr>"

definition sample_socket :: pipe where
  "sample_socket = \<lparr>inbox = coded 11 @ coded 13, outbox = []\<rparr>"

lemma sample_arrival:
  assumes "is_trusted desk no_db_faults (identity_node_id desk (IdentityKey [1])) (public_of desk (IdentityKey [1])) db = Inr tr"
  shows "\<exists>s st. node_run desk (IdentityKey [2]) ''b'' ''in'' 1 (running blank_fs (sample_node db)) [Connected sample_socket [4] 9] st \<and>
    ns_open st = [(0, s)] \<and> as_remote_node_id s = identity_node_id desk (IdentityKey [1]) \<and>
    as_remote_pubkey s = public_of desk (IdentityKey [1]) \<and> state_is_trusted (as_state s) = tr \<and>
    ns_registry st = (if tr then [(identity_node_id desk (IdentityKey [1]), 0)] else [])"
proof -
  let ?l = "\<lparr>lk_stream = sample_socket, lk_store = db\<rparr>" and ?st = "running blank_fs (sample_node db) :: (pipe, memory_backend) node_state"
  have "inbox (lk_stream ?l) = coded 11 @ coded 13 @ []" by (simp add: sample_socket_def)
  from server_completes [OF desk_piped(1) desk_handshake this, of tr 9 Windows "Some desk_engine" "Some ''in''" blank_fs] assms
  obtain s l' where s: "server_handshake desk [4] 9 (IdentityKey [2]) ''b'' Windows (Some desk_engine) (Some ''in'') blank_fs ?l =
      (Inr s, l')" "as_remote_node_id s = identity_node_id desk (IdentityKey [1])"
      "as_remote_pubkey s = public_of desk (IdentityKey [1])" "as_state s = (if tr then TrustedSession else AuthenticatedUntrusted)"
    by auto
  have hs: "server_handshake desk [4] 9 (IdentityKey [2]) ''b'' Windows (Some (ns_engine ?st)) (Some ''in'') (ns_fs ?st)
      \<lparr>lk_stream = sample_socket, lk_store = ns_store ?st\<rparr> = (Inr s, l')"
    using s(1) by (simp add: running_def sample_node_def)
  show ?thesis
  proof (cases tr)
    case True
    then show ?thesis
      using node_run_single [OF node_step.connected_trusted [OF hs, where fuel = 1]] s
      by (fastforce simp: running_def)
  next
    case False
    then show ?thesis
      using node_run_single [OF node_step.connected [OF hs, where fuel = 1]] s
      by (fastforce simp: running_def)
  qed
qed

theorem node_trust_needs_consent_witness:
  "\<exists>st s. node_run desk (IdentityKey [2]) ''b'' ''in'' 1 (running blank_fs (sample_node trusting_db))
      [Connected sample_socket [4] 9] st \<and> map_of (ns_open st) 0 = Some s \<and> state_is_trusted (as_state s) \<and>
    trust_of desk trusting_db (as_remote_node_id s) = Some (as_remote_pubkey s, Trusted)"
proof -
  obtain s st where run: "node_run desk (IdentityKey [2]) ''b'' ''in'' 1 (running blank_fs (sample_node trusting_db))
      [Connected sample_socket [4] 9] st" and st: "ns_open st = [(0, s)]" "state_is_trusted (as_state s)"
    using sample_arrival [of trusting_db True] trusting_db_trusts by auto
  have "store_inv desk (nd_store (sample_node trusting_db))" using trusting_db_inv by (simp add: sample_node_def)
  from node_trust_needs_consent [OF desk_lawful(2) this run] run st show ?thesis
    by (auto simp: sample_node_def)
qed

theorem stranger_node_inert_witness:
  "\<exists>st s. node_run desk (IdentityKey [2]) ''b'' ''in'' 1 (running blank_fs (sample_node empty_db))
      [Connected sample_socket [4] 9] st \<and> map_of (ns_open st) 0 = Some s \<and> \<not> state_is_trusted (as_state s) \<and>
    ns_fs st = blank_fs \<and> ns_registry st = []"
proof -
  obtain s st where run: "node_run desk (IdentityKey [2]) ''b'' ''in'' 1 (running blank_fs (sample_node empty_db))
      [Connected sample_socket [4] 9] st" and st: "ns_open st = [(0, s)]"
    using sample_arrival [of empty_db False] by auto
  have "store_inv desk (nd_store (sample_node empty_db))"
      "\<And>n k. trust_of desk (nd_store (sample_node empty_db)) n \<noteq> Some (k, Trusted)"
    by (simp_all add: sample_node_def trust_of_def)
  from stranger_node_inert [OF desk_lawful(2) this run] run st show ?thesis by auto
qed

theorem registry_names_its_peer_witness:
  "\<exists>st s. node_run desk (IdentityKey [2]) ''b'' ''in'' 1 (running blank_fs (sample_node trusting_db))
      [Connected sample_socket [4] 9] st \<and> map_of (ns_registry st) (identity_node_id desk (IdentityKey [1])) = Some 0 \<and>
    map_of (ns_open st) 0 = Some s \<and> as_remote_node_id s = identity_node_id desk (IdentityKey [1])"
proof -
  obtain s st where run: "node_run desk (IdentityKey [2]) ''b'' ''in'' 1 (running blank_fs (sample_node trusting_db))
      [Connected sample_socket [4] 9] st" and st: "ns_open st = [(0, s)]"
      "ns_registry st = [(identity_node_id desk (IdentityKey [1]), 0)]"
    using sample_arrival [of trusting_db True] trusting_db_trusts by auto
  from registry_names_its_peer [OF run, of "identity_node_id desk (IdentityKey [1])" 0 s] run st show ?thesis by auto
qed

definition crowded :: "(nat \<times> (pipe, memory_backend) active_session) list \<Rightarrow> nat \<Rightarrow> (pipe, memory_backend) node_state" where
  "crowded open_tasks cid = (running blank_fs (sample_node trusting_db))\<lparr>ns_open := open_tasks,
     ns_next := length open_tasks, ns_registry := [(NodeId [], cid)]\<rparr>"

definition peer_session :: "(pipe, memory_backend) active_session" where
  "peer_session = (sample_session (IdentityKey [2]) ''b'' Android [])\<lparr>as_state := TrustedSession\<rparr>"

lemma peer_session_sel [simp]:
  "as_remote_node_id peer_session = NodeId []" "as_state peer_session = TrustedSession"
  "as_framed peer_session = \<lparr>inbox = [], outbox = []\<rparr>"
  by (simp_all add: peer_session_def) (simp add: sample_session_def)

theorem reconnect_loses_broadcasts_witness:
  "\<exists>st'. node_step desk (IdentityKey [2]) ''b'' ''in'' 1 (crowded [(0, peer_session), (1, peer_session)] 1)
      (Turn 0 (Inbound sample_inputs)) st' \<and> map_of (ns_open st') 1 = Some peer_session \<and>
    (\<forall>evs fr. (1, fr) \<notin> set (broadcast_clip (ns_registry st') evs))"
  by (rule reconnect_loses_broadcasts [OF desk_piped(1), where ?s1.0 = peer_session])
    (simp_all add: crowded_def running_def registry_inv_def)


end
