(* ===== verification/Notifications.thy ===== *)
theory Notifications
  imports Protocol Utf8_Text Sample_Instances
begin

text \<open>
  Notification mirroring, \<open>crates/bridge-notifications/src\<close>: entries and messages
  (\<open>types.rs\<close>), the privacy policy (\<open>policy.rs\<close>), deduplication (\<open>guard.rs\<close>) and the
  engine (\<open>engine.rs\<close>). The engine holds its lock during a whole call, so a call is one
  function on its state; the events it broadcasts are collected in a list. The clock is an
  argument.
\<close>

section \<open>Entries and messages\<close>

datatype notification_error =
    NSerialization string
  | NDeserialization string
  | NChannelMismatch u16 u16
  | PayloadTooLarge nat
  | NotificationNotFound string
  | NChannelClosed

fun notification_error_display :: "notification_error \<Rightarrow> string" where
  "notification_error_display (NSerialization e) = ''notification serialization error: '' @ e"
| "notification_error_display (NDeserialization e) = ''notification deserialization error: '' @ e"
| "notification_error_display (NChannelMismatch ex ac) =
     ''channel mismatch: expected '' @ show_nat (unat ex) @ '', got '' @ show_nat (unat ac)"
| "notification_error_display (PayloadTooLarge n) =
     ''notification payload exceeds maximum size limit ('' @ show_nat n @ '' bytes)''"
| "notification_error_display (NotificationNotFound e) =
     ''action invoked on unknown or expired notification: '' @ e"
| "notification_error_display NChannelClosed = ''notification channel is closed''"

text \<open>The derived order of the urgencies is the order of their declaration.\<close>

datatype notification_urgency = Low | Normal | High | Critical

fun urgency_rank :: "notification_urgency \<Rightarrow> nat" where
  "urgency_rank Low = 0"
| "urgency_rank Normal = 1"
| "urgency_rank High = 2"
| "urgency_rank Critical = 3"

instantiation notification_urgency :: linorder
begin

definition less_eq_notification_urgency :: "notification_urgency \<Rightarrow> notification_urgency \<Rightarrow> bool" where
  "less_eq_notification_urgency a b \<longleftrightarrow> urgency_rank a \<le> urgency_rank b"

definition less_notification_urgency :: "notification_urgency \<Rightarrow> notification_urgency \<Rightarrow> bool" where
  "less_notification_urgency a b \<longleftrightarrow> urgency_rank a < urgency_rank b"

instance
proof
  fix a b :: notification_urgency
  show "a \<le> b \<Longrightarrow> b \<le> a \<Longrightarrow> a = b"
    by (cases a; cases b) (simp_all add: less_eq_notification_urgency_def)
qed (auto simp: less_eq_notification_urgency_def less_notification_urgency_def)

end

datatype notification_action =
    ActionDismiss
  | Open
  | Reply string
  | Custom string string

datatype notification_state = Active | Dismissed | Expired

record notification_entry =
  ne_origin :: node_id
  ne_sequence :: u64
  ne_posted_at_ms :: u64
  ne_notification_id :: string
  ne_app_id :: string
  ne_app_name :: string
  ne_title :: string
  ne_text :: string
  ne_sub_text :: "string option"
  ne_urgency :: notification_urgency
  ne_state :: notification_state
  ne_icon_hash :: "bytes option"
  ne_icon_data :: "bytes option"
  ne_is_ongoing :: bool

definition notification_new ::
    "u64 \<Rightarrow> node_id \<Rightarrow> u64 \<Rightarrow> string \<Rightarrow> string \<Rightarrow> string \<Rightarrow> string \<Rightarrow> string \<Rightarrow> notification_urgency \<Rightarrow>
     notification_entry" where
  "notification_new now_ms origin sequence nid app_id app_name title text urgency =
     \<lparr>ne_origin = origin, ne_sequence = sequence, ne_posted_at_ms = now_ms,
      ne_notification_id = nid, ne_app_id = app_id, ne_app_name = app_name, ne_title = title,
      ne_text = text, ne_sub_text = None, ne_urgency = urgency, ne_state = Active,
      ne_icon_hash = None, ne_icon_data = None, ne_is_ongoing = False\<rparr>"

definition notification_hash :: "'x crates_scheme \<Rightarrow> notification_entry \<Rightarrow> bytes" where
  "notification_hash c e =
     blake3 c (node_bytes (ne_origin e) @ str_bytes (ne_notification_id e) @ str_bytes (ne_app_id e) @
       str_bytes (ne_title e) @ str_bytes (ne_text e))"

definition truncate_str_bytes :: "nat \<Rightarrow> string \<Rightarrow> string" where
  "truncate_str_bytes max_bytes s =
     (if length s \<le> max_bytes then s else take (walk_back s max_bytes) s)"

definition enforce_size_limits :: "'x crates_scheme \<Rightarrow> notification_entry \<Rightarrow> notification_entry" where
  "enforce_size_limits c e =
     (let e1 = e\<lparr>ne_title := truncate_str_bytes 256 (ne_title e),
                 ne_text := truncate_str_bytes 4096 (ne_text e)\<rparr>
      in case ne_icon_data e1 of
           None \<Rightarrow> e1
         | Some icon \<Rightarrow>
             if length icon > 65536 then
               e1\<lparr>ne_icon_data := Some (take 65536 icon), ne_icon_hash := Some (blake3 c (take 65536 icon))\<rparr>
             else e1)"

datatype notification_message =
    Post notification_entry
  | Dismiss node_id string u64
  | ActionInvoked node_id string u64 notification_action
  | ClearAll node_id u64

definition notification_to_data_frame ::
    "notification_message postcard \<Rightarrow> notification_message \<Rightarrow> notification_error + data_frame" where
  "notification_to_data_frame pc m =
     rbind (map_err NSerialization (to_allocvec pc m)) (\<lambda>b.
     Inr (data_frame_new CHANNEL_NOTIFICATIONS b))"

definition notification_from_data_frame ::
    "notification_message postcard \<Rightarrow> data_frame \<Rightarrow> notification_error + notification_message" where
  "notification_from_data_frame pc fr =
     (if channel fr \<noteq> CHANNEL_NOTIFICATIONS then
        Inl (NChannelMismatch CHANNEL_NOTIFICATIONS (channel fr))
      else map_err NDeserialization (postcard.from_bytes pc (payload fr)))"

fun message_origin :: "notification_message \<Rightarrow> node_id" where
  "message_origin (Post e) = ne_origin e"
| "message_origin (Dismiss origin _ _) = origin"
| "message_origin (ActionInvoked origin _ _ _) = origin"
| "message_origin (ClearAll origin _) = origin"

section \<open>The privacy policy\<close>

definition SENSITIVE_TITLE_KEYWORDS :: "string list" where
  "SENSITIVE_TITLE_KEYWORDS =
     [''verification code'', ''one-time password'', ''otp:'', ''2fa'', ''two-factor'',
      ''authentication code'', ''login code'', ''security code'',
      ''transaction alert'', ''payment received'', ''payment sent'', ''low balance'',
      ''account balance'', ''bank alert'', ''credit card'', ''debit card'', ''wire transfer'',
      ''1password'', ''lastpass'', ''bitwarden'', ''dashlane'', ''keepass'', ''keychain'',
      ''medical record'', ''prescription'', ''lab result'', ''health record'']"

definition SENSITIVE_APP_IDS :: "string list" where
  "SENSITIVE_APP_IDS =
     [''com.chase.sig.android'', ''com.bankofamerica.mobile'', ''com.wellsfargo.mobile'',
      ''com.barclays.android'', ''uk.co.hsbc'', ''com.ing.mobile'',
      ''com.google.android.apps.authenticator2'', ''com.authy.authy'',
      ''com.microsoft.authenticator'', ''com.lastpass.lastpassauthenticator'',
      ''com.agilebits.onepassword'', ''com.lastpass.lpandroid'', ''com.bitwarden.mobile'',
      ''com.dashlane'', ''org.keepass2android'',
      ''com.apple.health'', ''com.google.android.apps.fitness'']"

record notification_policy =
  block_sensitive :: bool
  min_urgency :: notification_urgency
  max_payload_bytes :: nat
  block_ongoing :: bool

definition default_notification_policy :: notification_policy where
  "default_notification_policy =
     \<lparr>block_sensitive = True, min_urgency = Low, max_payload_bytes = 128 * 1024, block_ongoing = False\<rparr>"

definition strict_policy :: notification_policy where
  "strict_policy =
     \<lparr>block_sensitive = True, min_urgency = Normal, max_payload_bytes = 64 * 1024, block_ongoing = True\<rparr>"

definition permissive_policy :: notification_policy where
  "permissive_policy =
     \<lparr>block_sensitive = True, min_urgency = Low, max_payload_bytes = 256 * 1024, block_ongoing = False\<rparr>"

definition is_sensitive_app :: "string \<Rightarrow> bool" where
  "is_sensitive_app app_id =
     (let lower = to_lowercase app_id in list_ex (\<lambda>s. str_contains lower s) SENSITIVE_APP_IDS)"

definition has_sensitive_keywords :: "notification_entry \<Rightarrow> bool" where
  "has_sensitive_keywords e =
     (let title_lower = to_lowercase (ne_title e);
          text_lower = to_lowercase (ne_text e)
      in list_ex (\<lambda>kw. str_contains title_lower kw \<or> str_contains text_lower kw) SENSITIVE_TITLE_KEYWORDS)"

definition should_block :: "notification_policy \<Rightarrow> notification_entry \<Rightarrow> bool" where
  "should_block p e =
     (if ne_urgency e < min_urgency p then True
      else if block_ongoing p \<and> ne_is_ongoing e then True
      else if block_sensitive p \<and> is_sensitive_app (ne_app_id e) then True
      else if block_sensitive p \<and> has_sensitive_keywords e then True
      else False)"

section \<open>Deduplication\<close>

type_synonym notification_key = "string \<times> string"

definition RING_CAPACITY :: nat where
  "RING_CAPACITY = 256"

record notification_guard =
  seen_hashes :: "notification_key \<rightharpoonup> bytes"
  eviction_ring :: "notification_key list"
  states :: "notification_key \<rightharpoonup> notification_state"

definition notification_guard_new :: notification_guard where
  "notification_guard_new = \<lparr>seen_hashes = Map.empty, eviction_ring = [], states = Map.empty\<rparr>"

definition key_of :: "'x crates_scheme \<Rightarrow> notification_entry \<Rightarrow> notification_key" where
  "key_of c e = (hex_encode c (node_bytes (ne_origin e)), ne_notification_id e)"

definition is_duplicate :: "'x crates_scheme \<Rightarrow> notification_guard \<Rightarrow> notification_entry \<Rightarrow> bool" where
  "is_duplicate c g e =
     (case seen_hashes g (key_of c e) of None \<Rightarrow> False | Some h \<Rightarrow> h = notification_hash c e)"

definition is_dismissed :: "notification_guard \<Rightarrow> string \<Rightarrow> string \<Rightarrow> bool" where
  "is_dismissed g origin_hex nid =
     (case states g (origin_hex, nid) of None \<Rightarrow> False | Some s \<Rightarrow> s = Dismissed)"

text \<open>Room in the ring for a key that has no hash.\<close>

definition evict :: "notification_guard \<Rightarrow> notification_guard" where
  "evict g =
     (if length (eviction_ring g) \<ge> RING_CAPACITY then
        (case eviction_ring g of
           [] \<Rightarrow> g
         | oldest # rest \<Rightarrow>
             g\<lparr>eviction_ring := rest, seen_hashes := (seen_hashes g)(oldest := None),
               states := (states g)(oldest := None)\<rparr>)
      else g)"

definition record_posted :: "'x crates_scheme \<Rightarrow> notification_entry \<Rightarrow> notification_guard \<Rightarrow> notification_guard" where
  "record_posted c e g =
     (let key = key_of c e;
          h = notification_hash c e;
          g1 = (if seen_hashes g key = None then
                  (let g0 = evict g in g0\<lparr>eviction_ring := eviction_ring g0 @ [key]\<rparr>)
                else g)
      in g1\<lparr>seen_hashes := (seen_hashes g1)(key \<mapsto> h), states := (states g1)(key \<mapsto> Active)\<rparr>)"

definition record_dismissed :: "string \<Rightarrow> string \<Rightarrow> notification_guard \<Rightarrow> notification_guard" where
  "record_dismissed origin_hex nid g =
     (let key = (origin_hex, nid);
          g1 = (case states g key of
                  None \<Rightarrow> g
                | Some _ \<Rightarrow> g\<lparr>states := (states g)(key \<mapsto> Dismissed)\<rparr>)
      in g1\<lparr>seen_hashes := (seen_hashes g1)(key := None)\<rparr>)"

definition record_clear_all :: "string \<Rightarrow> notification_guard \<Rightarrow> notification_guard" where
  "record_clear_all origin_hex g =
     g\<lparr>states := (\<lambda>k. if fst k = origin_hex then map_option (\<lambda>_. Dismissed) (states g k) else states g k),
       seen_hashes := (\<lambda>k. if fst k \<noteq> origin_hex then seen_hashes g k else None)\<rparr>"

definition guard_len :: "notification_guard \<Rightarrow> nat" where
  "guard_len g = card (dom (states g))"

definition guard_is_empty :: "notification_guard \<Rightarrow> bool" where
  "guard_is_empty g \<longleftrightarrow> states g = Map.empty"

section \<open>The engine\<close>

datatype notification_sync_event =
    Received notification_entry
  | EvDismissed string string
  | ClearedAll string
  | EvActionInvoked string string notification_action
  | PolicyBlocked string string

record notification_engine =
  ns_local_node_id :: node_id
  ns_guard :: notification_guard
  ns_policy :: notification_policy
  ns_active :: "string \<rightharpoonup> notification_entry list"
  ns_local_sequence :: u64
  ns_events :: "notification_sync_event list"

definition notification_engine_new :: "node_id \<Rightarrow> notification_policy \<Rightarrow> notification_engine" where
  "notification_engine_new n p =
     \<lparr>ns_local_node_id = n, ns_guard = notification_guard_new, ns_policy = p, ns_active = Map.empty,
      ns_local_sequence = 0, ns_events = []\<rparr>"

text \<open>The counter, at its width; reaching the last number takes \<open>2\<^sup>6\<^sup>4\<close> calls.\<close>

definition next_sequence :: "notification_engine \<Rightarrow> u64 \<times> notification_engine" where
  "next_sequence en =
     (let n = ns_local_sequence en + 1 in (n, en\<lparr>ns_local_sequence := n\<rparr>))"

definition notify :: "notification_sync_event \<Rightarrow> notification_engine \<Rightarrow> notification_engine" where
  "notify ev en = en\<lparr>ns_events := ns_events en @ [ev]\<rparr>"

definition store_active :: "string \<Rightarrow> notification_entry \<Rightarrow> notification_engine \<Rightarrow> notification_engine" where
  "store_active origin_hex e en =
     (let bucket = (case ns_active en origin_hex of None \<Rightarrow> [] | Some b \<Rightarrow> b);
          kept = filter (\<lambda>x. ne_notification_id x \<noteq> ne_notification_id e) bucket @ [e];
          stored = (if length kept > 256 then tl kept else kept)
      in en\<lparr>ns_active := (ns_active en)(origin_hex \<mapsto> stored)\<rparr>)"

text \<open>Marking the stored entries a predicate selects as dismissed.\<close>

definition dismiss_active :: "string \<Rightarrow> (notification_entry \<Rightarrow> bool) \<Rightarrow> notification_engine \<Rightarrow> notification_engine" where
  "dismiss_active origin_hex sel en =
     (case ns_active en origin_hex of
        None \<Rightarrow> en
      | Some bucket \<Rightarrow>
          en\<lparr>ns_active := (ns_active en)(origin_hex \<mapsto>
               map (\<lambda>x. if sel x then x\<lparr>ne_state := Dismissed\<rparr> else x) bucket)\<rparr>)"

definition handle_post :: "'x crates_scheme \<Rightarrow> notification_entry \<Rightarrow> notification_engine \<Rightarrow> notification_engine" where
  "handle_post c entry0 en =
     (let entry = enforce_size_limits c entry0;
          origin_hex = hex_encode c (node_bytes (ne_origin entry))
      in if should_block (ns_policy en) entry then
           notify (PolicyBlocked (ne_app_id entry) (ne_notification_id entry)) en
         else if is_duplicate c (ns_guard en) entry then en
         else if is_dismissed (ns_guard en) origin_hex (ne_notification_id entry) then en
         else notify (Received entry)
                (store_active origin_hex entry
                  (en\<lparr>ns_guard := record_posted c entry (ns_guard en)\<rparr>)))"

definition handle_message ::
    "'x crates_scheme \<Rightarrow> notification_message \<Rightarrow> (notification_engine, notification_error, unit) comp" where
  "handle_message c msg = (\<lambda>en.
     (Inr (),
      case msg of
        Post entry \<Rightarrow> handle_post c entry en
      | Dismiss origin nid _ \<Rightarrow>
          (let origin_hex = hex_encode c (node_bytes origin);
               en1 = en\<lparr>ns_guard := record_dismissed origin_hex nid (ns_guard en)\<rparr>;
               en2 = dismiss_active origin_hex (\<lambda>e. ne_notification_id e = nid) en1
           in notify (EvDismissed origin_hex nid) en2)
      | ClearAll origin _ \<Rightarrow>
          (let origin_hex = hex_encode c (node_bytes origin);
               en1 = en\<lparr>ns_guard := record_clear_all origin_hex (ns_guard en)\<rparr>;
               en2 = dismiss_active origin_hex (\<lambda>_. True) en1
           in notify (ClearedAll origin_hex) en2)
      | ActionInvoked origin nid _ action \<Rightarrow>
          (let origin_hex = hex_encode c (node_bytes origin);
               en2 = (if action = ActionDismiss then
                        dismiss_active origin_hex (\<lambda>e. ne_notification_id e = nid)
                          (en\<lparr>ns_guard := record_dismissed origin_hex nid (ns_guard en)\<rparr>)
                      else en)
           in notify (EvActionInvoked origin_hex nid action) en2)))"

definition notification_handle_frame ::
    "'x crates_scheme \<Rightarrow> notification_message postcard \<Rightarrow> data_frame \<Rightarrow>
     (notification_engine, notification_error, unit) comp" where
  "notification_handle_frame c pc fr =
     sbind (slift (notification_from_data_frame pc fr)) (handle_message c)"

definition build_post ::
    "'x crates_scheme \<Rightarrow> u64 \<Rightarrow> string \<Rightarrow> string \<Rightarrow> string \<Rightarrow> string \<Rightarrow> string \<Rightarrow> notification_urgency \<Rightarrow>
     (notification_engine, notification_error, notification_message option) comp" where
  "build_post c now_ms nid app_id app_name title text urgency = (\<lambda>en.
     case next_sequence en of
       (seq, en1) \<Rightarrow>
         let entry = enforce_size_limits c
               (notification_new now_ms (ns_local_node_id en1) seq nid app_id app_name title text urgency)
         in if should_block (ns_policy en1) entry then (Inr None, en1)
            else (Inr (Some (Post entry)), en1))"

definition build_dismiss :: "string \<Rightarrow> notification_engine \<Rightarrow> notification_message \<times> notification_engine" where
  "build_dismiss nid en =
     (case next_sequence en of (seq, en1) \<Rightarrow> (Dismiss (ns_local_node_id en1) nid seq, en1))"

definition build_clear_all :: "notification_engine \<Rightarrow> notification_message \<times> notification_engine" where
  "build_clear_all en =
     (case next_sequence en of (seq, en1) \<Rightarrow> (ClearAll (ns_local_node_id en1) seq, en1))"

definition build_action ::
    "string \<Rightarrow> notification_action \<Rightarrow> notification_engine \<Rightarrow> notification_message \<times> notification_engine" where
  "build_action nid action en =
     (case next_sequence en of
        (seq, en1) \<Rightarrow> (ActionInvoked (ns_local_node_id en1) nid seq action, en1))"

definition active_notifications :: "'x crates_scheme \<Rightarrow> node_id \<Rightarrow> notification_engine \<Rightarrow> notification_entry list" where
  "active_notifications c origin en =
     (case ns_active en (hex_encode c (node_bytes origin)) of
        None \<Rightarrow> []
      | Some bucket \<Rightarrow> filter (\<lambda>e. ne_state e = Active) bucket)"

section \<open>Truncation\<close>

lemma truncate_length [simp]: "length (truncate_str_bytes n s) \<le> n"
  using walk_back_le [of s n] by (simp add: truncate_str_bytes_def min_le_iff_disj)

lemma truncate_utf8:
  assumes "list_all utf8_char cs"
  shows "\<exists>k \<le> length cs. truncate_str_bytes n (concat cs) = concat (take k cs) \<and>
    (k = length cs \<or> n < length (concat (take (Suc k) cs)))"
  using walk_back_utf8 [OF assms, of n]
  by (cases "length (concat cs) \<le> n") (auto simp: truncate_str_bytes_def intro: exI [of _ "length cs"])

section \<open>The keywords\<close>

lemma keywords_ascii:
  "list_all (\<lambda>kw. kw \<noteq> [] \<and> list_all ascii kw) SENSITIVE_TITLE_KEYWORDS"
  "list_all (\<lambda>kw. kw \<noteq> [] \<and> list_all ascii kw) SENSITIVE_APP_IDS"
  by (simp_all add: SENSITIVE_TITLE_KEYWORDS_def SENSITIVE_APP_IDS_def ascii_def)

section \<open>The deduplication guard\<close>

definition notification_guard_inv :: "notification_guard \<Rightarrow> bool" where
  "notification_guard_inv g \<longleftrightarrow>
     length (eviction_ring g) \<le> RING_CAPACITY \<and> distinct (eviction_ring g) \<and>
     dom (states g) = set (eviction_ring g) \<and>
     (\<forall>k. seen_hashes g k \<noteq> None \<longleftrightarrow> states g k = Some Active) \<and>
     (\<forall>k. states g k \<noteq> Some Expired)"

lemma guard_inv_new [simp]: "notification_guard_inv notification_guard_new"
  by (simp add: notification_guard_inv_def notification_guard_new_def)

lemma evict_fields:
  assumes "notification_guard_inv g"
  shows "notification_guard_inv (evict g)" "length (eviction_ring (evict g)) < RING_CAPACITY"
    "eviction_ring (evict g) = (if length (eviction_ring g) < RING_CAPACITY then eviction_ring g
       else tl (eviction_ring g))"
    "k \<in> set (eviction_ring (evict g)) \<Longrightarrow> states (evict g) k = states g k \<and> seen_hashes (evict g) k = seen_hashes g k"
    "k \<notin> set (eviction_ring g) \<Longrightarrow> k \<notin> set (eviction_ring (evict g))"
  using assms by (cases "eviction_ring g"; auto simp: evict_def notification_guard_inv_def RING_CAPACITY_def)+

lemma guard_invD:
  assumes "notification_guard_inv g"
  shows "seen_hashes g k \<noteq> None \<longleftrightarrow> states g k = Some Active" "states g k \<noteq> Some Expired"
    "k \<in> set (eviction_ring g) \<longleftrightarrow> states g k \<noteq> None"
  using assms unfolding notification_guard_inv_def by (blast, blast, blast)

lemma untracked_key:
  assumes "notification_guard_inv g" "seen_hashes g k = None" "states g k \<noteq> Some Dismissed"
  shows "k \<notin> set (eviction_ring g)"
proof (cases "states g k")
  case None
  then show ?thesis using guard_invD(3) [OF assms(1)] by simp
next
  case (Some st)
  then show ?thesis using guard_invD(1,2) [OF assms(1), of k] assms(2,3) by (cases st) simp_all
qed

lemma is_dismissed_iff: "is_dismissed g o' nid \<longleftrightarrow> states g (o', nid) = Some Dismissed"
  by (auto simp: is_dismissed_def split: option.split)

lemma record_posted_inv:
  assumes inv: "notification_guard_inv g" and nd: "states g (key_of c e) \<noteq> Some Dismissed"
  shows "notification_guard_inv (record_posted c e g)"
proof (cases "seen_hashes g (key_of c e) = None")
  case True
  then have new: "key_of c e \<notin> set (eviction_ring (evict g))"
    using evict_fields(5) [OF inv] untracked_key [OF inv _ nd] by blast
  show ?thesis
    using evict_fields(1,2) [OF inv] True new
    unfolding notification_guard_inv_def record_posted_def Let_def by auto
next
  case False
  then show ?thesis
    using inv guard_invD(3) [OF inv, of "key_of c e"] guard_invD(1) [OF inv, of "key_of c e"]
    unfolding notification_guard_inv_def record_posted_def Let_def by auto
qed

lemma record_dismissed_inv:
  assumes "notification_guard_inv g"
  shows "notification_guard_inv (record_dismissed o' nid g)"
  using assms guard_invD(1) [OF assms, of "(o', nid)"] guard_invD(3) [OF assms, of "(o', nid)"]
  unfolding notification_guard_inv_def record_dismissed_def Let_def
  by (auto split: option.split)

lemma record_clear_all_inv:
  assumes "notification_guard_inv g"
  shows "notification_guard_inv (record_clear_all o' g)"
proof -
  have "dom (states (record_clear_all o' g)) = dom (states g)"
    by (auto simp: record_clear_all_def dom_def)
  moreover have "eviction_ring (record_clear_all o' g) = eviction_ring g"
    by (simp add: record_clear_all_def)
  moreover have "seen_hashes (record_clear_all o' g) k \<noteq> None \<longleftrightarrow> states (record_clear_all o' g) k = Some Active"
    "states (record_clear_all o' g) k \<noteq> Some Expired" for k
    using guard_invD(1,2) [OF assms, of k] by (cases "states g k"; simp add: record_clear_all_def)+
  ultimately show ?thesis using assms unfolding notification_guard_inv_def by simp
qed

section \<open>The engine's invariant\<close>

definition wire_bounded :: "notification_entry \<Rightarrow> bool" where
  "wire_bounded e \<longleftrightarrow> length (ne_title e) \<le> 256 \<and> length (ne_text e) \<le> 4096 \<and>
     (case ne_icon_data e of None \<Rightarrow> True | Some b \<Rightarrow> length b \<le> 65536)"

definition cleared :: "notification_policy \<Rightarrow> notification_entry \<Rightarrow> bool" where
  "cleared p e \<longleftrightarrow> wire_bounded e \<and> \<not> should_block p e"

lemma cleared_state [simp]: "cleared p (e\<lparr>ne_state := st\<rparr>) = cleared p e"
  by (simp add: cleared_def wire_bounded_def should_block_def has_sensitive_keywords_def)

lemma enforce_size_limits_bounded: "wire_bounded (enforce_size_limits c e)"
  by (auto simp: enforce_size_limits_def wire_bounded_def Let_def split: option.split)

lemma enforce_size_limits_fields [simp]:
  "ne_origin (enforce_size_limits c e) = ne_origin e"
  "ne_notification_id (enforce_size_limits c e) = ne_notification_id e"
  "ne_state (enforce_size_limits c e) = ne_state e"
  by (simp_all add: enforce_size_limits_def Let_def split: option.split)

definition bucket_ok ::
    "'x crates_scheme \<Rightarrow> notification_policy \<Rightarrow> string \<Rightarrow> notification_entry list \<Rightarrow> bool" where
  "bucket_ok c p origin_hex b \<longleftrightarrow>
     length b \<le> 256 \<and> distinct (map ne_notification_id b) \<and>
     list_all (\<lambda>e. cleared p e \<and> hex_encode c (node_bytes (ne_origin e)) = origin_hex) b"

fun event_ok :: "notification_policy \<Rightarrow> notification_sync_event \<Rightarrow> bool" where
  "event_ok p (Received e) = cleared p e"
| "event_ok p _ = True"

definition notification_engine_inv :: "'x crates_scheme \<Rightarrow> notification_engine \<Rightarrow> bool" where
  "notification_engine_inv c en \<longleftrightarrow>
     notification_guard_inv (ns_guard en) \<and>
     (\<forall>h b. ns_active en h = Some b \<longrightarrow> bucket_ok c (ns_policy en) h b) \<and>
     list_all (event_ok (ns_policy en)) (ns_events en)"

lemma notification_inv_new [simp]: "notification_engine_inv c (notification_engine_new n p)"
  by (simp add: notification_engine_inv_def notification_engine_new_def)

lemma notify_fields [simp]:
  "ns_guard (notify ev en) = ns_guard en" "ns_active (notify ev en) = ns_active en"
  "ns_policy (notify ev en) = ns_policy en" "ns_events (notify ev en) = ns_events en @ [ev]"
  by (simp_all add: notify_def)

lemma engine_inv_notify [simp]:
  "notification_engine_inv c (notify ev en) \<longleftrightarrow>
     notification_engine_inv c en \<and> event_ok (ns_policy en) ev"
  by (auto simp: notification_engine_inv_def)

lemma engine_inv_guard:
  "\<lbrakk>notification_engine_inv c en; notification_guard_inv g\<rbrakk> \<Longrightarrow>
     notification_engine_inv c (en\<lparr>ns_guard := g\<rparr>)"
  by (simp add: notification_engine_inv_def)

lemma bucket_ok_dismiss:
  assumes "bucket_ok c p h b"
  shows "bucket_ok c p h (map (\<lambda>x. if sel x then x\<lparr>ne_state := Dismissed\<rparr> else x) b)"
proof -
  have "map ne_notification_id (map (\<lambda>x. if sel x then x\<lparr>ne_state := Dismissed\<rparr> else x) b) =
      map ne_notification_id b" by simp
  then show ?thesis using assms
    by (auto simp: bucket_ok_def list_all_iff simp del: map_map)
qed

lemma engine_inv_dismiss:
  "notification_engine_inv c en \<Longrightarrow> notification_engine_inv c (dismiss_active h sel en)"
  by (auto simp: notification_engine_inv_def dismiss_active_def bucket_ok_dismiss split: option.split)

lemma bucket_ok_store:
  assumes "bucket_ok c p h b" "cleared p e" "hex_encode c (node_bytes (ne_origin e)) = h"
  defines "kept \<equiv> filter (\<lambda>x. ne_notification_id x \<noteq> ne_notification_id e) b @ [e]"
  shows "bucket_ok c p h (if length kept > 256 then tl kept else kept)"
proof -
  have ids: "distinct (map ne_notification_id kept)"
    using assms(1) by (auto simp: kept_def bucket_ok_def distinct_map inj_on_def)
  have all: "list_all (\<lambda>e. cleared p e \<and> hex_encode c (node_bytes (ne_origin e)) = h) kept"
    using assms(1-3) by (auto simp: kept_def bucket_ok_def list_all_iff)
  have len: "length kept \<le> 257"
    using assms(1) order_trans [OF length_filter_le [of _ b]] by (simp add: kept_def bucket_ok_def)
  have "distinct (map ne_notification_id (tl kept))" using ids by (simp add: map_tl distinct_tl)
  moreover have "list_all (\<lambda>e. cleared p e \<and> hex_encode c (node_bytes (ne_origin e)) = h) (tl kept)"
    using all by (cases kept) auto
  moreover have "length (tl kept) \<le> 256" using len by simp
  ultimately show ?thesis using ids all by (simp add: bucket_ok_def)
qed

lemma engine_inv_store:
  assumes "notification_engine_inv c en" "cleared (ns_policy en) e"
  shows "notification_engine_inv c (store_active (hex_encode c (node_bytes (ne_origin e))) e en)"
proof -
  let ?h = "hex_encode c (node_bytes (ne_origin e))"
  have "bucket_ok c (ns_policy en) ?h (case ns_active en ?h of None \<Rightarrow> [] | Some b \<Rightarrow> b)"
    using assms(1) by (auto simp: notification_engine_inv_def bucket_ok_def split: option.split)
  from bucket_ok_store [OF this assms(2) refl] assms(1) show ?thesis
    by (auto simp: notification_engine_inv_def store_active_def Let_def)
qed

lemma handle_post_inv:
  assumes "notification_engine_inv c en"
  shows "notification_engine_inv c (handle_post c e en)"
proof -
  let ?e = "enforce_size_limits c e"
  let ?h = "hex_encode c (node_bytes (ne_origin ?e))"
  have g: "notification_guard_inv (ns_guard en)" using assms by (simp add: notification_engine_inv_def)
  consider "should_block (ns_policy en) ?e" | "is_duplicate c (ns_guard en) ?e"
    | "is_dismissed (ns_guard en) ?h (ne_notification_id ?e)"
    | (new) "\<not> should_block (ns_policy en) ?e" "\<not> is_duplicate c (ns_guard en) ?e"
      "\<not> is_dismissed (ns_guard en) ?h (ne_notification_id ?e)" by blast
  then show ?thesis
  proof cases
    case new
    then have "notification_guard_inv (record_posted c ?e (ns_guard en))"
      by (intro record_posted_inv [OF g]) (simp add: is_dismissed_iff key_of_def)
    then have "notification_engine_inv c (en\<lparr>ns_guard := record_posted c ?e (ns_guard en)\<rparr>)"
      using assms by (rule_tac engine_inv_guard)
    moreover have clear: "cleared (ns_policy en) ?e"
      using new(1) by (simp add: cleared_def enforce_size_limits_bounded)
    ultimately have "notification_engine_inv c (store_active ?h ?e
        (en\<lparr>ns_guard := record_posted c ?e (ns_guard en)\<rparr>))"
      by (intro engine_inv_store) simp_all
    then show ?thesis using new clear
      by (simp add: handle_post_def Let_def) (simp add: store_active_def Let_def)
  qed (use assms in \<open>simp_all add: handle_post_def Let_def\<close>)
qed

lemma handle_message_inv:
  assumes "notification_engine_inv c en"
  shows "notification_engine_inv c (snd (handle_message c m en))"
proof (cases m)
  case (Post e)
  then show ?thesis using assms by (simp add: handle_message_def handle_post_inv)
qed (use assms in \<open>auto simp: handle_message_def Let_def notification_engine_inv_def [of _ en]
      intro!: engine_inv_dismiss engine_inv_guard record_dismissed_inv record_clear_all_inv\<close>)

text \<open>A history: the messages handled one after the other.\<close>

definition mirror :: "'x crates_scheme \<Rightarrow> notification_message list \<Rightarrow> notification_engine \<Rightarrow> notification_engine" where
  "mirror c ms en = fold (\<lambda>m en. snd (handle_message c m en)) ms en"

lemma mirror_simps [simp]:
  "mirror c [] en = en" "mirror c (m # ms) en = mirror c ms (snd (handle_message c m en))"
  by (simp_all add: mirror_def)

lemma mirror_inv: "notification_engine_inv c en \<Longrightarrow> notification_engine_inv c (mirror c ms en)"
  by (induction ms arbitrary: en) (simp_all add: handle_message_inv)

lemma mirror_policy [simp]: "ns_policy (mirror c ms en) = ns_policy en"
proof (induction ms arbitrary: en)
  case (Cons m ms)
  have "ns_policy (snd (handle_message c m en)) = ns_policy en"
    by (auto simp: handle_message_def handle_post_def dismiss_active_def store_active_def Let_def
        split: notification_message.split option.split)
  then show ?case using Cons by simp
qed simp

section \<open>How long a notification is remembered\<close>

text \<open>\<open>tracked k j g\<close>: the key is in the ring and at most \<open>j\<close> keys are younger.\<close>

definition tracked :: "notification_key \<Rightarrow> nat \<Rightarrow> notification_guard \<Rightarrow> bool" where
  "tracked k j g \<longleftrightarrow> (\<exists>pre post. eviction_ring g = pre @ k # post \<and> length post \<le> j)"

lemma trackedI: "eviction_ring g = pre @ k # post \<Longrightarrow> length post \<le> j \<Longrightarrow> tracked k j g"
  unfolding tracked_def by blast

lemma tracked_mono: "tracked k i g \<Longrightarrow> i \<le> j \<Longrightarrow> tracked k j g"
  unfolding tracked_def by (meson le_trans)

lemma tracked_in_ring: "tracked k j g \<Longrightarrow> k \<in> set (eviction_ring g)"
  unfolding tracked_def by auto

lemma tracked_evict:
  assumes "notification_guard_inv g" "tracked k j g" "Suc j < RING_CAPACITY"
  shows "tracked k j (evict g)"
proof -
  obtain pre post where ring: "eviction_ring g = pre @ k # post" "length post \<le> j"
    using assms(2) unfolding tracked_def by blast
  show ?thesis
  proof (cases "length (eviction_ring g) < RING_CAPACITY")
    case True
    then show ?thesis using ring evict_fields(3) [OF assms(1)] by (simp add: trackedI)
  next
    case False
    then have "pre \<noteq> []" using ring assms(3) by auto
    then have "eviction_ring (evict g) = tl pre @ k # post"
      using False ring evict_fields(3) [OF assms(1)] by simp
    then show ?thesis using ring(2) by (rule trackedI)
  qed
qed

lemma tracked_posted:
  assumes "notification_guard_inv g" "tracked k j g" "Suc j < RING_CAPACITY"
  shows "tracked k (Suc j) (record_posted c e g)"
proof (cases "seen_hashes g (key_of c e) = None")
  case True
  obtain pre post where "eviction_ring (evict g) = pre @ k # post" "length post \<le> j"
    using tracked_evict [OF assms] unfolding tracked_def by blast
  then have "eviction_ring (record_posted c e g) = pre @ k # (post @ [key_of c e])" "length (post @ [key_of c e]) \<le> Suc j"
    using True by (simp_all add: record_posted_def Let_def)
  then show ?thesis by (rule trackedI)
next
  case False
  then have "eviction_ring (record_posted c e g) = eviction_ring g" by (auto simp: record_posted_def Let_def)
  then have "tracked k j (record_posted c e g)" using assms(2) by (simp add: tracked_def)
  then show ?thesis by (rule tracked_mono) simp
qed

lemma posted_other_key:
  assumes "notification_guard_inv g" "tracked k j g" "Suc j < RING_CAPACITY" "k \<noteq> key_of c e"
  shows "states (record_posted c e g) k = states g k" "seen_hashes (record_posted c e g) k = seen_hashes g k"
proof -
  have "states (evict g) k = states g k \<and> seen_hashes (evict g) k = seen_hashes g k"
    using evict_fields(4) [OF assms(1)] tracked_in_ring [OF tracked_evict [OF assms(1-3)]] by blast
  then show "states (record_posted c e g) k = states g k" "seen_hashes (record_posted c e g) k = seen_hashes g k"
    using assms(4) by (simp_all add: record_posted_def Let_def)
qed

text \<open>What a message does to the guard.\<close>

lemma handle_post_guard:
  "ns_guard (handle_post c e en) = ns_guard en \<or>
   (states (ns_guard en) (key_of c e) \<noteq> Some Dismissed \<and>
    ns_guard (handle_post c e en) = record_posted c (enforce_size_limits c e) (ns_guard en))"
  by (auto simp: handle_post_def Let_def is_dismissed_iff key_of_def store_active_def)

lemma key_of_enforce [simp]: "key_of c (enforce_size_limits c e) = key_of c e"
  by (simp add: key_of_def)

lemma dismiss_active_guard [simp]: "ns_guard (dismiss_active h sel en) = ns_guard en"
  by (simp add: dismiss_active_def split: option.split)

fun is_post :: "notification_message \<Rightarrow> bool" where
  "is_post (Post _) = True"
| "is_post _ = False"

lemma message_guard_cases:
  obtains (same) "ns_guard (snd (handle_message c m en)) = ns_guard en"
  | (posted) e where "m = Post e" "states (ns_guard en) (key_of c e) \<noteq> Some Dismissed"
      "ns_guard (snd (handle_message c m en)) = record_posted c (enforce_size_limits c e) (ns_guard en)"
  | (dismissed) nid where "(\<exists>q. m = Dismiss (message_origin m) nid q) \<or> (\<exists>q. m = ActionInvoked (message_origin m) nid q ActionDismiss)"
      "ns_guard (snd (handle_message c m en)) =
        record_dismissed (hex_encode c (node_bytes (message_origin m))) nid (ns_guard en)"
  | (wiped) q where "m = ClearAll (message_origin m) q"
      "ns_guard (snd (handle_message c m en)) =
        record_clear_all (hex_encode c (node_bytes (message_origin m))) (ns_guard en)"
proof (cases m)
  case (Post e)
  then show ?thesis using handle_post_guard [of c e en] same posted by (auto simp: handle_message_def)
next
  case (Dismiss n nid q)
  then show ?thesis using dismissed [of nid] by (simp add: handle_message_def Let_def)
next
  case (ActionInvoked n nid q a)
  then show ?thesis using dismissed [of nid] same
    by (cases "a = ActionDismiss") (simp_all add: handle_message_def Let_def)
next
  case (ClearAll n q)
  then show ?thesis using wiped [of q] by (simp add: handle_message_def Let_def)
qed

lemma tracked_message:
  assumes "notification_guard_inv (ns_guard en)" "tracked k j (ns_guard en)" "is_post m \<Longrightarrow> Suc j < RING_CAPACITY"
  shows "tracked k (if is_post m then Suc j else j) (ns_guard (snd (handle_message c m en)))"
proof (cases rule: message_guard_cases [of c m en])
  case same
  then show ?thesis using assms(2) by (auto intro: tracked_mono)
next
  case (posted e)
  then show ?thesis using tracked_posted [OF assms(1,2)] assms(3) by simp
next
  case (dismissed nid)
  then have "eviction_ring (ns_guard (snd (handle_message c m en))) = eviction_ring (ns_guard en)" "\<not> is_post m"
    by (auto simp: record_dismissed_def Let_def split: option.split dest: arg_cong [where f = is_post])
  then show ?thesis using assms(2) by (simp add: tracked_def)
next
  case (wiped q)
  then have "eviction_ring (ns_guard (snd (handle_message c m en))) = eviction_ring (ns_guard en)" "\<not> is_post m"
    by (auto simp: record_clear_all_def dest: arg_cong [where f = is_post])
  then show ?thesis using assms(2) by (simp add: tracked_def)
qed

lemma dismissed_message:
  assumes "notification_guard_inv (ns_guard en)" "tracked k j (ns_guard en)" "is_post m \<Longrightarrow> Suc j < RING_CAPACITY"
    and "states (ns_guard en) k = Some Dismissed"
  shows "states (ns_guard (snd (handle_message c m en))) k = Some Dismissed"
proof (cases rule: message_guard_cases [of c m en])
  case same
  then show ?thesis using assms(4) by simp
next
  case (posted e)
  then have "k \<noteq> key_of c (enforce_size_limits c e)" using assms(4) by auto
  then show ?thesis using posted posted_other_key(1) [OF assms(1,2), of c "enforce_size_limits c e"] assms(3,4) by simp
next
  case (dismissed nid)
  then show ?thesis using assms(4) by (auto simp: record_dismissed_def Let_def split: option.split)
next
  case (wiped q)
  then show ?thesis using assms(4) by (simp add: record_clear_all_def)
qed

lemma mirror_dismissed:
  assumes "notification_engine_inv c en" "tracked k j (ns_guard en)"
    "states (ns_guard en) k = Some Dismissed" "j + length (filter is_post ms) < RING_CAPACITY"
  shows "states (ns_guard (mirror c ms en)) k = Some Dismissed"
  using assms
proof (induction ms arbitrary: en j)
  case (Cons m ms)
  have g: "notification_guard_inv (ns_guard en)" using Cons.prems(1) by (simp add: notification_engine_inv_def)
  have room: "is_post m \<Longrightarrow> Suc j < RING_CAPACITY" using Cons.prems(4) by simp
  have "(if is_post m then Suc j else j) + length (filter is_post ms) < RING_CAPACITY"
    using Cons.prems(4) by (simp split: if_splits)
  from Cons.IH [OF handle_message_inv [OF Cons.prems(1)] tracked_message [OF g Cons.prems(2) room]
      dismissed_message [OF g Cons.prems(2) room Cons.prems(3)] this]
  show ?case by simp
qed simp

text \<open>Messages that concern a key.\<close>

fun touches :: "'x crates_scheme \<Rightarrow> notification_key \<Rightarrow> notification_message \<Rightarrow> bool" where
  "touches c k (Post e) = (key_of c e = k)"
| "touches c k (Dismiss n nid _) = ((hex_encode c (node_bytes n), nid) = k)"
| "touches c k (ActionInvoked n nid _ a) = (a = ActionDismiss \<and> (hex_encode c (node_bytes n), nid) = k)"
| "touches c k (ClearAll n _) = (hex_encode c (node_bytes n) = fst k)"

lemma hash_message:
  assumes "notification_guard_inv (ns_guard en)" "tracked k j (ns_guard en)" "is_post m \<Longrightarrow> Suc j < RING_CAPACITY"
    and "\<not> touches c k m"
  shows "seen_hashes (ns_guard (snd (handle_message c m en))) k = seen_hashes (ns_guard en) k"
proof (cases rule: message_guard_cases [of c m en])
  case (posted e)
  then have "k \<noteq> key_of c (enforce_size_limits c e)" using assms(4) by auto
  then show ?thesis
    using posted posted_other_key(2) [OF assms(1,2), of c "enforce_size_limits c e"] assms(3) by simp
next
  case (dismissed nid)
  then have "k \<noteq> (hex_encode c (node_bytes (message_origin m)), nid)" using assms(4) by (cases m) auto
  then show ?thesis using dismissed(2) by (simp add: record_dismissed_def Let_def split: option.split)
next
  case (wiped q)
  then have "fst k \<noteq> hex_encode c (node_bytes (message_origin m))" using assms(4) by (cases m) auto
  then show ?thesis using wiped(2) by (simp add: record_clear_all_def)
qed simp

lemma mirror_hash:
  assumes "notification_engine_inv c en" "tracked k j (ns_guard en)"
    "j + length (filter is_post ms) < RING_CAPACITY" "list_all (\<lambda>m. \<not> touches c k m) ms"
  shows "seen_hashes (ns_guard (mirror c ms en)) k = seen_hashes (ns_guard en) k"
  using assms
proof (induction ms arbitrary: en j)
  case (Cons m ms)
  have g: "notification_guard_inv (ns_guard en)" using Cons.prems(1) by (simp add: notification_engine_inv_def)
  have room: "is_post m \<Longrightarrow> Suc j < RING_CAPACITY" using Cons.prems(3) by simp
  have room': "(if is_post m then Suc j else j) + length (filter is_post ms) < RING_CAPACITY"
    using Cons.prems(3) by (simp split: if_splits)
  have un: "\<not> touches c k m" "list_all (\<lambda>m. \<not> touches c k m) ms" using Cons.prems(4) by simp_all
  from Cons.IH [OF handle_message_inv [OF Cons.prems(1)] tracked_message [OF g Cons.prems(2) room] room' un(2)]
    hash_message [OF g Cons.prems(2) room un(1)]
  show ?case by simp
qed simp

lemma posted_first:
  assumes "notification_guard_inv g" "seen_hashes g (key_of c e) = None"
  shows "tracked (key_of c e) 0 (record_posted c e g)"
    "seen_hashes (record_posted c e g) (key_of c e) = Some (notification_hash c e)"
  using assms(2) by (auto simp: record_posted_def Let_def intro!: trackedI [where pre = "eviction_ring (evict g)" and post = "[]"])

lemma duplicate_dropped:
  assumes "seen_hashes (ns_guard en) (key_of c e) = Some (notification_hash c (enforce_size_limits c e))"
    "\<not> should_block (ns_policy en) (enforce_size_limits c e)"
  shows "handle_post c e en = en"
  using assms by (simp add: handle_post_def is_duplicate_def Let_def)

section \<open>Properties\<close>

text \<open>C17: privacy and memory bounds of notification mirroring. Whatever messages arrive, in
  whatever order, everything delivered to the application has passed the policy and respects
  the size limits, the duplicate guard remembers at most 256 notifications, and the active
  list of an origin holds at most 256 entries, one per notification identifier, all of them
  active, within the size limits and allowed by the policy.\<close>

theorem notification_history_safe:
  "let en = mirror c ms (notification_engine_new n p); shown = active_notifications c origin en in
   list_all (\<lambda>ev. case ev of Received e \<Rightarrow> wire_bounded e \<and> \<not> should_block p e | _ \<Rightarrow> True) (ns_events en) \<and>
   guard_len (ns_guard en) \<le> RING_CAPACITY \<and>
   length shown \<le> 256 \<and> distinct (map ne_notification_id shown) \<and>
   list_all (\<lambda>e. wire_bounded e \<and> \<not> should_block p e \<and> ne_state e = Active) shown"
proof -
  define en where "en = mirror c ms (notification_engine_new n p)"
  have inv: "notification_engine_inv c en" unfolding en_def by (rule mirror_inv) simp
  have pol: "ns_policy en = p" by (simp add: en_def notification_engine_new_def)
  let ?h = "hex_encode c (node_bytes origin)"
  have ev: "list_all (\<lambda>ev. case ev of Received e \<Rightarrow> wire_bounded e \<and> \<not> should_block p e | _ \<Rightarrow> True) (ns_events en)"
    using inv pol by (auto simp: notification_engine_inv_def cleared_def list_all_iff split: notification_sync_event.split)
  have "dom (states (ns_guard en)) = set (eviction_ring (ns_guard en))"
      "length (eviction_ring (ns_guard en)) \<le> RING_CAPACITY"
    using inv by (simp_all add: notification_engine_inv_def notification_guard_inv_def)
  then have len: "guard_len (ns_guard en) \<le> RING_CAPACITY"
    using card_length [of "eviction_ring (ns_guard en)"] by (simp add: guard_len_def)
  have "bucket_ok c p ?h (case ns_active en ?h of None \<Rightarrow> [] | Some b \<Rightarrow> b)"
    using inv pol by (auto simp: notification_engine_inv_def bucket_ok_def split: option.split)
  then have "length (active_notifications c origin en) \<le> 256 \<and>
      distinct (map ne_notification_id (active_notifications c origin en)) \<and>
      list_all (\<lambda>e. wire_bounded e \<and> \<not> should_block p e \<and> ne_state e = Active) (active_notifications c origin en)"
    by (auto simp: active_notifications_def bucket_ok_def cleared_def list_all_iff distinct_map inj_on_def
        intro: order_trans [OF length_filter_le] split: option.split)
  then show ?thesis using ev len by (simp add: en_def [symmetric] Let_def)
qed


text \<open>C32: truncation keeps whole characters. The title that is put on the wire is the longest
  prefix of complete UTF-8 characters that fits in 256 bytes.\<close>

theorem title_truncation:
  assumes "list_all utf8_char cs" "ne_title e = concat cs"
  shows "\<exists>k \<le> length cs. ne_title (enforce_size_limits c e) = concat (take k cs) \<and>
    length (concat (take k cs)) \<le> 256 \<and> (k = length cs \<or> 256 < length (concat (take (Suc k) cs)))"
proof -
  have title: "ne_title (enforce_size_limits c e) = truncate_str_bytes 256 (concat cs)"
    using assms(2) by (simp add: enforce_size_limits_def Let_def split: option.split)
  obtain k where "k \<le> length cs" "truncate_str_bytes 256 (concat cs) = concat (take k cs)"
      "k = length cs \<or> 256 < length (concat (take (Suc k) cs))"
    using truncate_utf8 [OF assms(1)] by blast
  then show ?thesis using title truncate_length [of 256 "concat cs"] by (intro exI [of _ k]) simp
qed


text \<open>A notification is shown once. After a new notification was accepted, a post with the
  same key and the same content hash changes nothing, as long as no message about this
  notification and fewer than 256 posts came in between; as the hash covers the mere
  concatenation of application, title and text, this includes a post that only moves text
  from the title to the body.\<close>

theorem duplicate_post_silent:
  assumes "notification_engine_inv c en" "seen_hashes (ns_guard en) (key_of c e) = None"
    and "ns_events (snd (handle_message c (Post e) en)) = ns_events en @ [Received e0]"
    and "length (filter is_post ms) < RING_CAPACITY" "list_all (\<lambda>m. \<not> touches c (key_of c e) m) ms"
    and "key_of c e' = key_of c e"
      "notification_hash c (enforce_size_limits c e') = notification_hash c (enforce_size_limits c e)"
      "\<not> should_block (ns_policy en) (enforce_size_limits c e')"
  shows "mirror c (Post e # ms @ [Post e']) en = mirror c (Post e # ms) en"
proof -
  let ?en1 = "snd (handle_message c (Post e) en)"
  let ?e = "enforce_size_limits c e"
  have g: "notification_guard_inv (ns_guard en)" using assms(1) by (simp add: notification_engine_inv_def)
  have en1: "ns_guard ?en1 = record_posted c ?e (ns_guard en)"
    using assms(3) by (auto simp: handle_message_def handle_post_def Let_def store_active_def split: if_splits)
  have first: "tracked (key_of c e) 0 (ns_guard ?en1)"
    "seen_hashes (ns_guard ?en1) (key_of c e) = Some (notification_hash c ?e)"
    using posted_first [OF g, of c ?e] assms(2) en1 by simp_all
  have "seen_hashes (ns_guard (mirror c ms ?en1)) (key_of c e) = Some (notification_hash c ?e)"
    using mirror_hash [OF handle_message_inv [OF assms(1)] first(1) _ assms(5)] assms(4) first(2) by simp
  moreover have "ns_policy (mirror c ms ?en1) = ns_policy en"
    using mirror_policy [of c "Post e # ms" en] by simp
  ultimately have "handle_post c e' (mirror c ms ?en1) = mirror c ms ?en1"
    using assms(6-8) by (intro duplicate_dropped) simp_all
  then show ?thesis by (simp add: mirror_def handle_message_def)
qed

text \<open>Dismissing a mirrored notification has no effect. The message a device builds when
  its user acts on a mirrored notification names that device as the origin and not the device
  that posted the notification: the poster, which mirrors nothing from it, keeps its state as
  it was, and the device itself goes on showing its copy.\<close>

theorem mirrored_dismiss_lost:
  assumes "build_action nid ActionDismiss acting = (m, acting')"
    and "ns_active poster (hex_encode c (node_bytes (ns_local_node_id acting))) = None"
    and "states (ns_guard poster) (hex_encode c (node_bytes (ns_local_node_id acting)), nid) = None"
    and "notification_guard_inv (ns_guard poster)"
  shows "ns_guard (mirror c [m] poster) = ns_guard poster \<and> ns_active (mirror c [m] poster) = ns_active poster \<and>
    active_notifications c origin acting' = active_notifications c origin acting"
proof -
  let ?k = "(hex_encode c (node_bytes (ns_local_node_id acting)), nid)"
  have "seen_hashes (ns_guard poster) ?k = None"
    using assms(3) guard_invD(1) [OF assms(4), of ?k] by auto
  then have "record_dismissed (fst ?k) nid (ns_guard poster) = ns_guard poster"
    using assms(3) by (simp add: record_dismissed_def Let_def fun_upd_idem)
  moreover have "m = ActionInvoked (ns_local_node_id acting) nid (ns_local_sequence acting + 1) ActionDismiss"
      "acting' = acting\<lparr>ns_local_sequence := ns_local_sequence acting + 1\<rparr>"
    using assms(1) by (auto simp: build_action_def next_sequence_def Let_def)
  ultimately show ?thesis
    using assms(2) by (simp add: handle_message_def Let_def dismiss_active_def active_notifications_def)
qed

section \<open>Witnesses\<close>

definition hello_note :: notification_entry where
  "hello_note = notification_new 5 (NodeId [1]) 1 ''n1'' ''chat'' ''Chat'' ''hi'' ''lunch?'' Normal"

definition first_engine :: notification_engine where
  "first_engine = mirror sample_crates [Post hello_note] (notification_engine_new (NodeId [2]) default_notification_policy)"

lemma hello_limits: "enforce_size_limits sample_crates hello_note = hello_note"
  by (simp add: enforce_size_limits_def hello_note_def notification_new_def truncate_str_bytes_def)

lemma hello_lowercase:
  "to_lowercase ''hi'' = ''hi''" "to_lowercase ''lunch?'' = ''lunch?''" "to_lowercase ''chat'' = ''chat''"
  by (simp_all add: to_lowercase.simps lower_char_def)

lemma hello_keywords:
  "list_all (\<lambda>kw. \<not> str_contains ''hi'' kw) SENSITIVE_TITLE_KEYWORDS"
  "list_all (\<lambda>kw. \<not> str_contains ''lunch?'' kw) SENSITIVE_TITLE_KEYWORDS"
  "list_all (\<lambda>kw. \<not> str_contains ''chat'' kw) SENSITIVE_APP_IDS"
  by (simp_all add: SENSITIVE_TITLE_KEYWORDS_def SENSITIVE_APP_IDS_def)

lemma hello_allowed: "\<not> should_block default_notification_policy hello_note"
  using hello_keywords
  by (auto simp: should_block_def hello_note_def notification_new_def default_notification_policy_def
      less_notification_urgency_def is_sensitive_app_def has_sensitive_keywords_def hello_lowercase
      list_ex_iff list_all_iff)

lemma first_engine_inv: "notification_engine_inv sample_crates first_engine"
  unfolding first_engine_def by (rule mirror_inv) simp

lemma first_engine_guard:
  "ns_guard first_engine = record_posted sample_crates hello_note notification_guard_new"
  "ns_policy first_engine = default_notification_policy"
  by (simp_all add: first_engine_def handle_message_def handle_post_def hello_limits hello_allowed
      notification_engine_new_def is_duplicate_def is_dismissed_def notification_guard_new_def Let_def
      store_active_def)

lemma hello_key: "key_of sample_crates hello_note = (hex_encode sample_crates (node_bytes (NodeId [1])), ''n1'')"
  by (simp add: key_of_def hello_note_def notification_new_def)

lemma new_guard_blank [simp]:
  "seen_hashes notification_guard_new k = None" "states notification_guard_new k = None"
  by (simp_all add: notification_guard_new_def)

lemma login_code: "to_ascii_lowercase ''LOGIN Code'' = ''login code''"
  by code_simp


theorem title_truncation_witness:
  "\<exists>k \<le> length [''h'', ''i'']. ne_title (enforce_size_limits sample_crates (hello_note\<lparr>ne_title := ''hi''\<rparr>)) =
     concat (take k [''h'', ''i''])"
proof -
  have "list_all utf8_char [''h'', ''i'']" by (simp add: utf8_char_def continuation_def)
  moreover have "ne_title (hello_note\<lparr>ne_title := ''hi''\<rparr>) = concat [''h'', ''i'']" by simp
  ultimately show ?thesis using title_truncation by blast
qed


lemma hello_received:
  "ns_events (snd (handle_message sample_crates (Post hello_note)
      (notification_engine_new n default_notification_policy))) =
   ns_events (notification_engine_new n default_notification_policy) @ [Received hello_note]"
  by (simp add: handle_message_def handle_post_def hello_limits hello_allowed notification_engine_new_def
      is_duplicate_def is_dismissed_def Let_def store_active_def)

theorem duplicate_post_silent_witness:
  "mirror sample_crates (Post hello_note # [] @ [Post hello_note])
     (notification_engine_new (NodeId [2]) default_notification_policy) =
   mirror sample_crates [Post hello_note] (notification_engine_new (NodeId [2]) default_notification_policy)"
proof -
  let ?en = "notification_engine_new (NodeId [2]) default_notification_policy"
  have blank: "seen_hashes (ns_guard ?en) (key_of sample_crates hello_note) = None"
      "\<not> should_block (ns_policy ?en) (enforce_size_limits sample_crates hello_note)"
    by (simp_all add: notification_engine_new_def hello_limits hello_allowed)
  have "length (filter is_post []) < RING_CAPACITY" by (simp add: RING_CAPACITY_def)
  from duplicate_post_silent [OF notification_inv_new blank(1) hello_received this _ refl refl blank(2)]
  show ?thesis by (simp only: list.pred_inject append_Nil simp_thms)
qed

theorem mirrored_dismiss_lost_witness:
  "ns_guard (mirror sample_crates [fst (build_action ''n1'' ActionDismiss first_engine)]
     (notification_engine_new (NodeId [1]) default_notification_policy)) =
   ns_guard (notification_engine_new (NodeId [1]) default_notification_policy) \<and>
   active_notifications sample_crates (NodeId [1]) (snd (build_action ''n1'' ActionDismiss first_engine)) =
   active_notifications sample_crates (NodeId [1]) first_engine"
  using mirrored_dismiss_lost [of "''n1''" first_engine "fst (build_action ''n1'' ActionDismiss first_engine)"
      "snd (build_action ''n1'' ActionDismiss first_engine)"
      "notification_engine_new (NodeId [1]) default_notification_policy" sample_crates "NodeId [1]"]
  by (simp add: notification_engine_new_def)

end
