(* ===== verification/Utf16_Text.thy ===== *)
theory Utf16_Text
  imports Utf8_Text
begin

text \<open>
  What the code uses of UTF-16 on Rust strings: \<open>str::encode_utf16\<close> and
  \<open>String::from_utf16_lossy\<close>, which the Windows clipboard backend
  (\<open>crates/bridge-clipboard/src/backend/windows.rs\<close>) applies to what it writes and reads.
\<close>

section \<open>Scalar values and their encodings\<close>

definition scalar_ok :: "nat \<Rightarrow> bool" where
  "scalar_ok cp \<longleftrightarrow> cp < 0xD800 \<or> 0xE000 \<le> cp \<and> cp < 0x110000"

definition utf8_of :: "nat \<Rightarrow> nat list" where
  "utf8_of cp =
     (if cp < 0x80 then [cp]
      else if cp < 0x800 then [192 + cp div 64, 128 + cp mod 64]
      else if cp < 0x10000 then [224 + cp div 4096, 128 + cp div 64 mod 64, 128 + cp mod 64]
      else [240 + cp div 262144, 128 + cp div 4096 mod 64, 128 + cp div 64 mod 64, 128 + cp mod 64])"

definition scalar_of :: "nat list \<Rightarrow> nat" where
  "scalar_of bs =
     (case bs of
        [a] \<Rightarrow> a
      | [a, b] \<Rightarrow> (a - 192) * 64 + (b - 128)
      | [a, b, c] \<Rightarrow> (a - 224) * 4096 + (b - 128) * 64 + (c - 128)
      | [a, b, c, d] \<Rightarrow> (a - 240) * 262144 + (b - 128) * 4096 + (c - 128) * 64 + (d - 128)
      | _ \<Rightarrow> 0)"

text \<open>The scalar values of a string; the bytes of a Rust string are always valid.\<close>

function scalars :: "nat list \<Rightarrow> nat list" where
  "scalars bs =
     (if bs = [] then []
      else case utf8_head bs of
        None \<Rightarrow> []
      | Some n \<Rightarrow> scalar_of (take n bs) # scalars (drop n bs))"
  by pat_completeness auto
termination
  by (relation "measure length") (auto dest: utf8_head_bounds)

declare scalars.simps [simp del]

definition utf16_of :: "nat \<Rightarrow> nat list" where
  "utf16_of cp =
     (if cp < 0x10000 then [cp]
      else [0xD800 + (cp - 0x10000) div 0x400, 0xDC00 + (cp - 0x10000) mod 0x400])"

definition low_surrogate :: "nat \<Rightarrow> bool" where
  "low_surrogate u \<longleftrightarrow> 0xDC00 \<le> u \<and> u < 0xE000"

definition high_surrogate :: "nat \<Rightarrow> bool" where
  "high_surrogate u \<longleftrightarrow> 0xD800 \<le> u \<and> u < 0xDC00"

text \<open>A surrogate without its partner becomes the replacement character U+FFFD.\<close>

fun decode_utf16 :: "nat list \<Rightarrow> nat list" where
  "decode_utf16 [] = []"
| "decode_utf16 [u] = [if high_surrogate u \<or> low_surrogate u then 0xFFFD else u]"
| "decode_utf16 (u # u2 # us) =
     (if high_surrogate u \<and> low_surrogate u2 then
        (0x10000 + (u - 0xD800) * 0x400 + (u2 - 0xDC00)) # decode_utf16 us
      else (if high_surrogate u \<or> low_surrogate u then 0xFFFD else u) # decode_utf16 (u2 # us))"

definition encode_utf16 :: "string \<Rightarrow> u16 list" where
  "encode_utf16 s = map of_nat (concat (map utf16_of (scalars (codes s))))"

definition from_utf16_lossy :: "u16 list \<Rightarrow> string" where
  "from_utf16_lossy us = map char_of (concat (map utf8_of (decode_utf16 (map unat us))))"

section \<open>Decoding UTF-8\<close>

lemma base64_digit:
  fixes k z :: nat
  assumes "z < 64"
  shows "(k * 64 + z) div 64 = k" "(k * 64 + z) mod 64 = z"
  using assms by simp_all

lemma div_4096: "n div 4096 = n div 64 div 64" and div_262144: "n div 262144 = n div 64 div 64 div 64" for n :: nat
  by (simp_all flip: div_mult2_eq)

lemma base64_digits:
  fixes x y z w :: nat
  assumes "y < 64" "z < 64" "w < 64"
  shows "(x * 4096 + y * 64 + z) div 4096 = x" "(x * 4096 + y * 64 + z) div 64 mod 64 = y" "(x * 4096 + y * 64 + z) mod 64 = z"
    "(x * 262144 + y * 4096 + z * 64 + w) div 262144 = x" "(x * 262144 + y * 4096 + z * 64 + w) div 4096 mod 64 = y"
    "(x * 262144 + y * 4096 + z * 64 + w) div 64 mod 64 = z" "(x * 262144 + y * 4096 + z * 64 + w) mod 64 = w"
proof -
  have e: "x * 4096 + y * 64 + z = (x * 64 + y) * 64 + z"
    "x * 262144 + y * 4096 + z * 64 + w = ((x * 64 + y) * 64 + z) * 64 + w" by simp_all
  show "(x * 4096 + y * 64 + z) div 4096 = x" "(x * 4096 + y * 64 + z) div 64 mod 64 = y" "(x * 4096 + y * 64 + z) mod 64 = z"
    "(x * 262144 + y * 4096 + z * 64 + w) div 262144 = x" "(x * 262144 + y * 4096 + z * 64 + w) div 4096 mod 64 = y"
    "(x * 262144 + y * 4096 + z * 64 + w) div 64 mod 64 = z" "(x * 262144 + y * 4096 + z * 64 + w) mod 64 = w"
    unfolding e div_4096 div_262144 base64_digit [OF assms(1)] base64_digit [OF assms(2)] base64_digit [OF assms(3)] by (rule refl)+
qed

lemma utf8_two:
  fixes x y :: nat
  assumes "2 \<le> x" "x < 32" "y < 64"
  shows "utf8_of (x * 64 + y) = [192 + x, 128 + y]" "scalar_ok (x * 64 + y)"
proof -
  have "0x80 \<le> x * 64 + y" "x * 64 + y < 0x800" using assms by linarith+
  then show "utf8_of (x * 64 + y) = [192 + x, 128 + y]" "scalar_ok (x * 64 + y)"
    using base64_digit [of y x] assms by (simp_all add: utf8_of_def scalar_ok_def)
qed

lemma utf8_three:
  fixes x y z :: nat
  assumes "x < 16" "y < 64" "z < 64" "x = 0 \<longrightarrow> 32 \<le> y" "x = 13 \<longrightarrow> y < 32"
  shows "utf8_of (x * 4096 + y * 64 + z) = [224 + x, 128 + y, 128 + z]" "scalar_ok (x * 4096 + y * 64 + z)"
proof -
  let ?cp = "x * 4096 + y * 64 + z"
  have "0x800 \<le> ?cp" "?cp < 0x10000" using assms by (cases "x = 0"; linarith)+
  then show "utf8_of ?cp = [224 + x, 128 + y, 128 + z]"
    using base64_digits(1-3) [of y z z x] assms by (simp add: utf8_of_def)
  have "?cp < 0xD800 \<or> 0xE000 \<le> ?cp"
  proof (cases "x = 13")
    case True
    then show ?thesis using assms by simp
  next
    case False
    then have "x < 13 \<or> 14 \<le> x" by linarith
    then show ?thesis using assms by linarith
  qed
  then show "scalar_ok ?cp" using \<open>?cp < 0x10000\<close> by (auto simp: scalar_ok_def)
qed

lemma utf8_four:
  fixes x y z w :: nat
  assumes "x < 5" "y < 64" "z < 64" "w < 64" "x = 0 \<longrightarrow> 16 \<le> y" "x = 4 \<longrightarrow> y < 16"
  shows "utf8_of (x * 262144 + y * 4096 + z * 64 + w) = [240 + x, 128 + y, 128 + z, 128 + w]"
    "scalar_ok (x * 262144 + y * 4096 + z * 64 + w)"
proof -
  let ?cp = "x * 262144 + y * 4096 + z * 64 + w"
  have "0x10000 \<le> ?cp" using assms by (cases "x = 0"; linarith)
  moreover have "?cp < 0x110000" using assms by (cases "x = 4"; linarith)
  ultimately show "utf8_of ?cp = [240 + x, 128 + y, 128 + z, 128 + w]" "scalar_ok ?cp"
    using base64_digits(4-7) [of y z w x] assms by (simp_all add: utf8_of_def scalar_ok_def)
qed

lemma is_contE:
  assumes "is_cont b"
  obtains y where "b = 128 + y" "y < 64"
  using assms that [of "b - 128"] by (auto simp: is_cont_def)

lemma scalar_of_head:
  assumes "utf8_head bs = Some n"
  shows "utf8_of (scalar_of (take n bs)) = take n bs \<and> scalar_ok (scalar_of (take n bs))"
proof -
  obtain a r where bs: "bs = a # r" and w: "utf8_width a = Some n" and len: "n \<le> Suc (length r)"
      and cont: "list_all is_cont (take (n - 1) r)" and second: "n = 1 \<or> utf8_second_ok a (hd r)"
    using assms by (auto simp: utf8_head_Some)
  consider "n = 1" "a < 128" | "n = 2" "194 \<le> a" "a < 224" | "n = 3" "224 \<le> a" "a < 240" | "n = 4" "240 \<le> a" "a < 245"
    using w by (auto simp: utf8_width_def split: if_splits)
  then show ?thesis
  proof cases
    case 1
    then show ?thesis by (simp add: bs scalar_of_def utf8_of_def scalar_ok_def)
  next
    case 2
    then obtain b r' where r: "r = b # r'" using len by (cases r) auto
    obtain y where y: "b = 128 + y" "y < 64" using cont 2(1) r by (auto elim: is_contE)
    obtain x where x: "a = 192 + x" "2 \<le> x" using 2(2) le_Suc_ex [of 194 a] by auto
    then show ?thesis using utf8_two [of x y] 2 y by (simp add: bs r scalar_of_def)
  next
    case 3
    then obtain b c r' where r: "r = b # c # r'" using len by (cases r; cases "tl r") auto
    obtain y where y: "b = 128 + y" "y < 64" using cont 3(1) r by (auto elim: is_contE)
    obtain z where z: "c = 128 + z" "z < 64" using cont 3(1) r by (auto elim: is_contE)
    obtain x where x: "a = 224 + x" using 3(2) le_Suc_ex by blast
    have "x = 0 \<longrightarrow> 32 \<le> y" "x = 13 \<longrightarrow> y < 32"
      using second 3(1) x y by (auto simp: r utf8_second_ok_def)
    then show ?thesis using utf8_three [of x y z] 3 x y z by (simp add: bs r scalar_of_def)
  next
    case 4
    then obtain b c d r' where r: "r = b # c # d # r'" using len by (cases r; cases "tl r"; cases "tl (tl r)") auto
    obtain y where y: "b = 128 + y" "y < 64" using cont 4(1) r by (auto elim: is_contE)
    obtain z where z: "c = 128 + z" "z < 64" using cont 4(1) r by (auto elim: is_contE)
    obtain v where v: "d = 128 + v" "v < 64" using cont 4(1) r by (auto elim: is_contE)
    obtain x where x: "a = 240 + x" using 4(2) le_Suc_ex by blast
    have "x = 0 \<longrightarrow> 16 \<le> y" "x = 4 \<longrightarrow> y < 16"
      using second 4(1) x y by (auto simp: r utf8_second_ok_def)
    then show ?thesis using utf8_four [of x y z v] 4 x y z v by (simp add: bs r scalar_of_def)
  qed
qed

lemma scalars_utf8:
  "utf8_codes bs \<Longrightarrow> concat (map utf8_of (scalars bs)) = bs \<and> list_all scalar_ok (scalars bs)"
proof (induction bs rule: utf8_codes.induct)
  case (1 bs)
  show ?case
  proof (cases "bs = []")
    case True
    then show ?thesis by (simp add: scalars.simps)
  next
    case False
    then obtain n where n: "utf8_head bs = Some n" "utf8_codes (drop n bs)"
      using "1.prems" by (auto simp: utf8_codes.simps [of bs] split: option.splits)
    then show ?thesis using "1.IH" [OF False n] scalar_of_head [OF n(1)] False
      by (simp add: scalars.simps [of bs])
  qed
qed

section \<open>The round trip\<close>

lemma decode_utf16_of:
  assumes "scalar_ok cp"
  shows "decode_utf16 (utf16_of cp @ us) = cp # decode_utf16 us"
proof (cases "cp < 0x10000")
  case True
  then have "\<not> high_surrogate cp" "\<not> low_surrogate cp"
    using assms by (auto simp: scalar_ok_def high_surrogate_def low_surrogate_def)
  then show ?thesis using True by (cases us) (simp_all add: utf16_of_def)
next
  case False
  define d where "d = cp - 0x10000"
  have d: "d < 0x100000" "cp = 0x10000 + d" using assms False by (auto simp: scalar_ok_def d_def)
  then have "d div 0x400 < 0x400" by (simp add: div_less_iff_less_mult)
  then have "high_surrogate (0xD800 + d div 0x400)" "low_surrogate (0xDC00 + d mod 0x400)"
    by (simp_all add: high_surrogate_def low_surrogate_def)
  then show ?thesis using False by (simp add: utf16_of_def d(2))
qed

lemma decode_utf16_concat:
  "list_all scalar_ok cps \<Longrightarrow> decode_utf16 (concat (map utf16_of cps)) = cps"
  by (induction cps) (simp_all add: decode_utf16_of)

lemma takeWhile_concat:
  assumes "\<And>x. Q x \<Longrightarrow> list_all P (f x)" "\<And>x. \<not> Q x \<Longrightarrow> f x \<noteq> [] \<and> \<not> P (hd (f x))"
  shows "takeWhile P (concat (map f xs)) = concat (map f (takeWhile Q xs))"
proof (induction xs)
  case (Cons x xs)
  then show ?case
  proof (cases "Q x")
    case True
    then show ?thesis using Cons assms(1) [OF True] by (simp add: list_all_iff takeWhile_append2)
  next
    case False
    then show ?thesis using assms(2) [OF False] by (cases "f x") auto
  qed
qed simp

lemma utf16_of_unit: "scalar_ok cp \<Longrightarrow> u \<in> set (utf16_of cp) \<Longrightarrow> u < 0x10000"
  by (auto simp: utf16_of_def scalar_ok_def split: if_splits)

lemma codes_chars: "map char_of (codes s) = s"
  by (simp add: codes_def comp_def)

lemma of_char_zero: "(of_char ch :: nat) = 0 \<longleftrightarrow> ch = CHR 0x00"
proof
  assume "(of_char ch :: nat) = 0"
  then have "(of_char ch :: nat) = of_char (CHR 0x00)" by simp
  then show "ch = CHR 0x00" by (simp only: of_char_eq_iff)
qed simp

lemma from_encode_utf16:
  assumes "utf8_valid s"
  shows "from_utf16_lossy (takeWhile (\<lambda>u. u \<noteq> 0) (encode_utf16 s)) = takeWhile (\<lambda>ch. ch \<noteq> CHR 0x00) s"
proof -
  let ?cps = "scalars (codes s)" and ?nz = "\<lambda>n :: nat. n \<noteq> 0"
  define us where "us = concat (map utf16_of ?cps)"
  have ok: "list_all scalar_ok ?cps" and utf8: "concat (map utf8_of ?cps) = codes s"
    using scalars_utf8 assms by (auto simp: utf8_valid_def)
  have ok_prefix: "list_all scalar_ok (takeWhile ?nz ?cps)"
    using ok by (auto simp: list_all_iff dest: set_takeWhileD)
  have unit: "unat (of_nat u :: u16) = u" if "u \<in> set us" for u
  proof -
    have "u < 0x10000" using that ok utf16_of_unit by (auto simp: us_def list_all_iff)
    then show ?thesis by (simp add: unat_of_nat)
  qed
  have zero: "((of_nat u :: u16) \<noteq> 0) = (u \<noteq> 0)" if "u \<in> set us" for u
    using unit [OF that] by (cases "u = 0") auto
  have "takeWhile (\<lambda>u. (of_nat u :: u16) \<noteq> 0) us = takeWhile ?nz us"
    by (rule takeWhile_cong) (simp_all only: zero)
  then have "takeWhile (\<lambda>u. u \<noteq> 0) (encode_utf16 s) = map of_nat (takeWhile ?nz us)"
    unfolding encode_utf16_def us_def [symmetric] takeWhile_map comp_def by (rule arg_cong)
  moreover have "map (\<lambda>u. unat (of_nat u :: u16)) (takeWhile ?nz us) = takeWhile ?nz us"
    by (rule map_idI) (blast dest: set_takeWhileD intro: unit)
  ultimately have "map unat (takeWhile (\<lambda>u. u \<noteq> 0) (encode_utf16 s)) = takeWhile ?nz us"
    by (simp only: map_map comp_def)
  also have "\<dots> = concat (map utf16_of (takeWhile ?nz ?cps))"
    unfolding us_def by (rule takeWhile_concat) (auto simp: utf16_of_def)
  finally have "decode_utf16 (map unat (takeWhile (\<lambda>u. u \<noteq> 0) (encode_utf16 s))) = takeWhile ?nz ?cps"
    using decode_utf16_concat [OF ok_prefix] by (simp only:)
  moreover have "concat (map utf8_of (takeWhile ?nz ?cps)) = takeWhile ?nz (codes s)"
    using takeWhile_concat [of ?nz ?nz utf8_of ?cps] utf8 by (simp add: utf8_of_def)
  moreover have "takeWhile ?nz (codes s) = codes (takeWhile (\<lambda>ch. ch \<noteq> CHR 0x00) s)"
    unfolding codes_def takeWhile_map comp_def of_char_zero ..
  ultimately show ?thesis by (simp add: from_utf16_lossy_def codes_chars)
qed

section \<open>Every decoded text is a valid string\<close>

lemma utf8_head_of:
  assumes "scalar_ok cp"
  shows "utf8_head (utf8_of cp @ bs) = Some (length (utf8_of cp))"
proof -
  define q where "q = cp div 64"
  have cp: "cp = 64 * q + cp mod 64" "cp mod 64 < 64" by (simp_all add: q_def)
  consider "cp < 0x80" | "0x80 \<le> cp" "cp < 0x800" | "0x800 \<le> cp" "cp < 0x10000" | "0x10000 \<le> cp" "cp < 0x110000"
    using assms unfolding scalar_ok_def by atomize_elim linarith
  then show ?thesis
  proof cases
    case 1
    then show ?thesis by (simp add: utf8_of_def utf8_head_def utf8_width_def)
  next
    case 2
    then have "2 \<le> q" "q < 32" by (simp_all add: q_def div_less_iff_less_mult less_eq_div_iff_mult_less_eq)
    then show ?thesis using 2
      by (simp add: utf8_of_def utf8_head_def utf8_width_def is_cont_def utf8_second_ok_def flip: q_def)
  next
    case 3
    define x where "x = q div 64"
    have "q = 64 * x + q mod 64" by (simp add: x_def)
    then have x: "x < 16" "x = 0 \<Longrightarrow> 32 \<le> q mod 64" "x = 13 \<Longrightarrow> q mod 64 < 32"
      using 3 assms cp unfolding scalar_ok_def by linarith+
    have e: "utf8_of cp = [224 + x, 128 + q mod 64, 128 + cp mod 64]"
      using 3 by (simp add: utf8_of_def div_4096 x_def q_def)
    show ?thesis using x
      by (auto simp: e utf8_head_def utf8_width_def is_cont_def utf8_second_ok_def)
  next
    case 4
    define x where "x = q div 64 div 64"
    define y where "y = q div 64 mod 64"
    have "q = 64 * (q div 64) + q mod 64" "q mod 64 < 64" "q div 64 = 64 * x + y" "y < 64"
      by (simp_all add: x_def y_def)
    then have x: "x < 5" "x = 0 \<Longrightarrow> 16 \<le> y" "x = 4 \<Longrightarrow> y < 16"
      using 4 cp by linarith+
    have e: "utf8_of cp = [240 + x, 128 + y, 128 + q mod 64, 128 + cp mod 64]"
      using 4 by (simp add: utf8_of_def div_4096 div_262144 x_def y_def q_def)
    have "y < 64" by (simp add: y_def)
    then show ?thesis using x
      by (auto simp: e utf8_head_def utf8_width_def is_cont_def utf8_second_ok_def)
  qed
qed

lemma utf8_codes_of: "list_all scalar_ok cps \<Longrightarrow> utf8_codes (concat (map utf8_of cps))"
proof (induction cps)
  case Nil
  then show ?case by (simp add: utf8_codes.simps)
next
  case (Cons cp cps)
  then show ?case using utf8_head_of [of cp "concat (map utf8_of cps)"] utf8_head_bounds
    by (auto simp: utf8_codes.simps [of "utf8_of cp @ _"])
qed

lemma decode_utf16_ok: "list_all (\<lambda>u. u < 0x10000) us \<Longrightarrow> list_all scalar_ok (decode_utf16 us)"
  by (induction us rule: decode_utf16.induct)
    (auto simp: scalar_ok_def high_surrogate_def low_surrogate_def)

lemma utf8_of_byte: "scalar_ok cp \<Longrightarrow> list_all (\<lambda>b. b < 256) (utf8_of cp)"
  by (auto simp: utf8_of_def scalar_ok_def less_mult_imp_div_less trans_less_add1 div_less_iff_less_mult)

lemma from_utf16_valid: "utf8_valid (from_utf16_lossy us)"
proof -
  let ?cps = "decode_utf16 (map unat us)"
  have "unat u < 0x10000" for u :: u16 using unsigned_less [of u] by simp
  then have "list_all (\<lambda>u. u < 0x10000) (map unat us)" by (simp add: list_all_iff)
  then have ok: "list_all scalar_ok ?cps" by (rule decode_utf16_ok)
  then have "list_all (\<lambda>b. b < 256) (concat (map utf8_of ?cps))"
    using utf8_of_byte by (fastforce simp: list_all_iff)
  then have "codes (from_utf16_lossy us) = concat (map utf8_of ?cps)"
    unfolding from_utf16_lossy_def codes_def map_map
    by (intro map_idI) (auto simp: list_all_iff of_char_of)
  then show ?thesis using utf8_codes_of [OF ok] by (simp add: utf8_valid_def)
qed

end
