(* ===== verification/Windows_Clipboard.thy ===== *)
theory Windows_Clipboard
  imports Clipboard Utf16_Text
begin

text \<open>
  The native backend of \<open>crates/bridge-clipboard/src/backend/windows.rs\<close>: reading and writing
  the Windows clipboard as UTF-16 text, the retry when another application holds it, and the
  listener thread that reports changes. The Win32 functions are a parameter; the mutex
  \<open>sync_lock\<close> makes every operation one step.
\<close>

section \<open>The Win32 functions\<close>

text \<open>
  A handle of global memory or of a window is a number; a null handle is \<open>None\<close>, a zero
  \<open>BOOL\<close> is \<open>False\<close>. \<open>w_word\<close> reads a unit through the locked pointer, \<open>w_copy\<close> is
  \<open>copy_nonoverlapping\<close> into it, \<open>w_sleep\<close> takes milliseconds. The calls that run the window
  procedure of the class, \<open>DispatchMessageW\<close> and \<open>DestroyWindow\<close>, take it as an argument.
\<close>

datatype win_message = WmClipboardUpdate | WmClose | WmDestroy | WmOther u32

record 'w win32 =
  w_available :: "'w \<Rightarrow> bool \<times> 'w"
  w_open :: "'w \<Rightarrow> bool \<times> 'w"
  w_close :: "'w \<Rightarrow> 'w"
  w_empty :: "'w \<Rightarrow> bool \<times> 'w"
  w_get_data :: "'w \<Rightarrow> nat option \<times> 'w"
  w_set_data :: "nat \<Rightarrow> 'w \<Rightarrow> bool \<times> 'w"
  w_alloc :: "nat \<Rightarrow> 'w \<Rightarrow> nat option \<times> 'w"
  w_free :: "nat \<Rightarrow> 'w \<Rightarrow> 'w"
  w_lock :: "nat \<Rightarrow> 'w \<Rightarrow> bool \<times> 'w"
  w_unlock :: "nat \<Rightarrow> 'w \<Rightarrow> 'w"
  w_size :: "nat \<Rightarrow> 'w \<Rightarrow> nat"
  w_word :: "nat \<Rightarrow> nat \<Rightarrow> 'w \<Rightarrow> u16"
  w_copy :: "nat \<Rightarrow> u16 list \<Rightarrow> 'w \<Rightarrow> 'w"
  w_last_error :: "'w \<Rightarrow> u32"
  w_sleep :: "u64 \<Rightarrow> 'w \<Rightarrow> 'w"
  w_register_class :: "string \<Rightarrow> 'w \<Rightarrow> bool \<times> 'w"
  w_unregister_class :: "string \<Rightarrow> 'w \<Rightarrow> 'w"
  w_create_window :: "string \<Rightarrow> 'w \<Rightarrow> nat option \<times> 'w"
  w_destroy_window :: "(win_message \<Rightarrow> 'w \<Rightarrow> 'w) \<Rightarrow> nat \<Rightarrow> 'w \<Rightarrow> 'w"
  w_add_listener :: "nat \<Rightarrow> 'w \<Rightarrow> bool \<times> 'w"
  w_remove_listener :: "nat \<Rightarrow> 'w \<Rightarrow> 'w"
  w_translate :: "win_message \<Rightarrow> 'w \<Rightarrow> 'w"
  w_dispatch :: "(win_message \<Rightarrow> 'w \<Rightarrow> 'w) \<Rightarrow> win_message \<Rightarrow> 'w \<Rightarrow> 'w"
  w_post_quit :: "'w \<Rightarrow> 'w"
  w_def_window_proc :: "win_message \<Rightarrow> 'w \<Rightarrow> 'w"

section \<open>Opening the clipboard\<close>

definition CLIPBOARD_RETRY_COUNT :: nat where
  "CLIPBOARD_RETRY_COUNT = 10"

definition BASE_RETRY_DELAY_MS :: u64 where
  "BASE_RETRY_DELAY_MS = 10"

definition retry_delay :: "nat \<Rightarrow> u64" where
  "retry_delay attempt = BASE_RETRY_DELAY_MS * push_bit (min attempt 5) 1"

definition busy_error :: clipboard_error where
  "busy_error = BackendError ''Failed to open Windows clipboard: access locked by another application''"

fun open_attempts :: "'w win32 \<Rightarrow> nat list \<Rightarrow> ('w, clipboard_error, unit) comp" where
  "open_attempts api [] = sfail busy_error"
| "open_attempts api (attempt # attempts) = (\<lambda>w.
     case w_open api w of
       (True, w') \<Rightarrow> (Inr (), w')
     | (False, w') \<Rightarrow> open_attempts api attempts (w_sleep api (retry_delay attempt) w'))"

definition open_clipboard_with_retry :: "'w win32 \<Rightarrow> ('w, clipboard_error, unit) comp" where
  "open_clipboard_with_retry api = open_attempts api [0..<CLIPBOARD_RETRY_COUNT]"

text \<open>The \<open>ClipboardGuard\<close>: once opened, the clipboard is closed on every way out.\<close>

definition with_clipboard :: "'w win32 \<Rightarrow> ('w, clipboard_error, 'a) comp \<Rightarrow> ('w, clipboard_error, 'a) comp" where
  "with_clipboard api m =
     sbind (open_clipboard_with_retry api) (\<lambda>_ w. case m w of (r, w') \<Rightarrow> (r, w_close api w'))"

section \<open>Reading\<close>

function scan_text :: "'w win32 \<Rightarrow> nat \<Rightarrow> nat \<Rightarrow> 'w \<Rightarrow> nat \<Rightarrow> nat" where
  "scan_text api h max_elements w len =
     (if len < max_elements then
        if w_word api h len w = 0 then len else scan_text api h max_elements w (len + 1)
      else len)"
  by pat_completeness auto
termination by (relation "measure (\<lambda>(api, h, max_elements, w, len). max_elements - len)") auto

declare scan_text.simps [simp del]

definition read_locked :: "'w win32 \<Rightarrow> nat \<Rightarrow> ('w, clipboard_error, clipboard_content option) comp" where
  "read_locked api h = (\<lambda>w.
     let len = scan_text api h (w_size api h w div 2) w 0;
         text = from_utf16_lossy (map (\<lambda>i. w_word api h i w) [0..<len])
     in (Inr (Some (Text text)), w_unlock api h w))"

definition read_open :: "'w win32 \<Rightarrow> ('w, clipboard_error, clipboard_content option) comp" where
  "read_open api = (\<lambda>w.
     case w_get_data api w of
       (None, w1) \<Rightarrow> (Inr None, w1)
     | (Some h, w1) \<Rightarrow>
         (case w_lock api h w1 of
            (False, w2) \<Rightarrow> (Inr None, w2)
          | (True, w2) \<Rightarrow> read_locked api h w2))"

definition win_get_content :: "'w win32 \<Rightarrow> ('w, clipboard_error, clipboard_content option) comp" where
  "win_get_content api = (\<lambda>w.
     case w_available api w of
       (False, w1) \<Rightarrow> (Inr None, w1)
     | (True, w1) \<Rightarrow> with_clipboard api (read_open api) w1)"

text \<open>The listener's copy of the same code.\<close>

definition read_clipboard_text_direct :: "'w win32 \<Rightarrow> ('w, clipboard_error, clipboard_content option) comp" where
  "read_clipboard_text_direct api = (\<lambda>w.
     case w_available api w of
       (False, w1) \<Rightarrow> (Inr None, w1)
     | (True, w1) \<Rightarrow> with_clipboard api (read_open api) w1)"

section \<open>Writing\<close>

definition text_to_write :: "clipboard_content \<Rightarrow> clipboard_error + string" where
  "text_to_write content =
     (case content of
        Text t \<Rightarrow> Inr t
      | Html html _ \<Rightarrow> Inr html
      | Image _ _ _ _ \<Rightarrow>
          Inl (UnsupportedFormat
            ''Image clipboard writing is not yet implemented in WindowsClipboardBackend''))"

text \<open>With the clipboard open: empty it and hand the block over, or free the block.\<close>

definition publish :: "'w win32 \<Rightarrow> nat \<Rightarrow> ('w, clipboard_error, unit) comp" where
  "publish api h = (\<lambda>w.
     case w_empty api w of
       (False, w1) \<Rightarrow>
         (Inl (BackendError (''Failed to empty Windows clipboard (GetLastError='' @
            show_nat (unat (w_last_error api w1)) @ '')'')), w_free api h w1)
     | (True, w1) \<Rightarrow>
         (case w_set_data api h w1 of
            (False, w2) \<Rightarrow> (Inl (BackendError ''Failed to set Windows clipboard data''), w_free api h w2)
          | (True, w2) \<Rightarrow> (Inr (), w2)))"

definition win_set_content :: "'w win32 \<Rightarrow> clipboard_content \<Rightarrow> ('w, clipboard_error, unit) comp" where
  "win_set_content api content =
     sbind (slift (text_to_write content)) (\<lambda>text w.
     let utf16 = encode_utf16 text @ [0] in
     case w_alloc api (length utf16 * 2) w of
       (None, w1) \<Rightarrow> (Inl (BackendError ''Failed to allocate global memory for Windows clipboard''), w1)
     | (Some h, w1) \<Rightarrow>
         (case w_lock api h w1 of
            (False, w2) \<Rightarrow> (Inl (BackendError ''Failed to lock allocated global memory''), w_free api h w2)
          | (True, w2) \<Rightarrow> with_clipboard api (publish api h) (w_unlock api h (w_copy api h utf16 w2))))"

definition win_clear :: "'w win32 \<Rightarrow> ('w, clipboard_error, unit) comp" where
  "win_clear api =
     with_clipboard api (\<lambda>w.
       case w_empty api w of
         (False, w1) \<Rightarrow> (Inl (BackendError ''Failed to clear Windows clipboard''), w1)
       | (True, w1) \<Rightarrow> (Inr (), w1))"

section \<open>The listener thread\<close>

definition listener_wnd_proc :: "'w win32 \<Rightarrow> win_message \<Rightarrow> 'w \<Rightarrow> 'w" where
  "listener_wnd_proc api msg =
     (if msg = WmDestroy then w_post_quit api else w_def_window_proc api msg)"

definition dispatched :: "'w win32 \<Rightarrow> win_message \<Rightarrow> 'w \<Rightarrow> 'w" where
  "dispatched api msg w = w_dispatch api (listener_wnd_proc api) msg (w_translate api msg w)"

text \<open>
  One round of the message pump: the flag \<open>is_running\<close> was down, \<open>GetMessageW\<close> returned no
  message (0 or -1), or it returned one.
\<close>

datatype pump_input = NotRunning | NoMessage | Message win_message

text \<open>The contents broadcast, the state, and whether the loop has ended.\<close>

fun message_pump :: "'w win32 \<Rightarrow> pump_input list \<Rightarrow> 'w \<Rightarrow> clipboard_content list \<times> 'w \<times> bool" where
  "message_pump api [] w = ([], w, False)"
| "message_pump api (NotRunning # ms) w = ([], w, True)"
| "message_pump api (NoMessage # ms) w = ([], w, True)"
| "message_pump api (Message m # ms) w =
     (case m of
        WmClose \<Rightarrow> ([], w, True)
      | WmClipboardUpdate \<Rightarrow>
          (case read_clipboard_text_direct api w of
             (r, w1) \<Rightarrow>
               (case message_pump api ms (dispatched api m w1) of
                  (sent, w2, over) \<Rightarrow>
                    ((case r of Inr (Some (Text text)) \<Rightarrow> [Text text] | _ \<Rightarrow> []) @ sent, w2, over)))
      | _ \<Rightarrow> message_pump api ms (dispatched api m w))"

text \<open>
  The whole thread: the contents it broadcast, the value of \<open>hwnd_out\<close> and whether it has
  ended. \<open>class_name\<close> carries the time in nanoseconds.
\<close>

record listener =
  ls_sent :: "clipboard_content list"
  ls_hwnd :: nat
  ls_ended :: bool

definition run_clipboard_listener_loop :: "'w win32 \<Rightarrow> string \<Rightarrow> pump_input list \<Rightarrow> 'w \<Rightarrow> listener \<times> 'w" where
  "run_clipboard_listener_loop api class_name ms w =
     (case w_register_class api class_name w of
        (False, w1) \<Rightarrow> (\<lparr>ls_sent = [], ls_hwnd = 0, ls_ended = True\<rparr>, w1)
      | (True, w1) \<Rightarrow>
          (case w_create_window api class_name w1 of
             (None, w2) \<Rightarrow> (\<lparr>ls_sent = [], ls_hwnd = 0, ls_ended = True\<rparr>, w_unregister_class api class_name w2)
           | (Some hwnd, w2) \<Rightarrow>
               (case w_add_listener api hwnd w2 of
                  (False, w3) \<Rightarrow>
                    (\<lparr>ls_sent = [], ls_hwnd = 0, ls_ended = True\<rparr>,
                     w_unregister_class api class_name (w_destroy_window api (listener_wnd_proc api) hwnd w3))
                | (True, w3) \<Rightarrow>
                    (case message_pump api ms w3 of
                       (sent, w4, over) \<Rightarrow>
                         if over then
                           (\<lparr>ls_sent = sent, ls_hwnd = 0, ls_ended = True\<rparr>,
                            w_unregister_class api class_name
                              (w_destroy_window api (listener_wnd_proc api) hwnd (w_remove_listener api hwnd w4)))
                         else (\<lparr>ls_sent = sent, ls_hwnd = hwnd, ls_ended = False\<rparr>, w4)))))"

section \<open>The backend\<close>

record 'w windows_backend =
  wb_os :: 'w
  wb_hwnd :: nat
  wb_is_running :: bool
  wb_listener_thread :: bool

text \<open>
  \<open>spawned\<close> is the outcome of starting the thread. Each round of the wait loads the atomic and
  reads the elapsed milliseconds; the loop ends at the first window, or after one second.
\<close>

fun await_window :: "(nat \<times> nat) list \<Rightarrow> nat" where
  "await_window [] = 0"
| "await_window ((hwnd, elapsed) # rounds) =
     (if hwnd = 0 \<and> elapsed < 1000 then await_window rounds else hwnd)"

definition windows_new ::
  "string + unit \<Rightarrow> (nat \<times> nat) list \<Rightarrow> 'w \<Rightarrow> clipboard_error + 'w windows_backend" where
  "windows_new spawned rounds w =
     rbind (map_err (\<lambda>e. BackendError (''Failed to spawn listener thread: '' @ e)) spawned) (\<lambda>_.
     Inr \<lparr>wb_os = w, wb_hwnd = await_window rounds, wb_is_running = True, wb_listener_thread = True\<rparr>)"

text \<open>Dropping the backend: the messages posted to the listener, and the state when it has joined.\<close>

definition windows_drop :: "'w windows_backend \<Rightarrow> win_message list \<times> 'w windows_backend" where
  "windows_drop b =
     ((if wb_hwnd b \<noteq> 0 then [WmClose] else []), b\<lparr>wb_is_running := False, wb_listener_thread := False\<rparr>)"

definition on_os :: "('w, 'e, 'a) comp \<Rightarrow> ('w windows_backend, 'e, 'a) comp" where
  "on_os m = (\<lambda>b. case m (wb_os b) of (r, w) \<Rightarrow> (r, b\<lparr>wb_os := w\<rparr>))"

definition windows_clipboard :: "'w win32 \<Rightarrow> 'w windows_backend clipboard_backend" where
  "windows_clipboard api =
     \<lparr>cb_get_content = on_os (win_get_content api),
      cb_set_content = (\<lambda>content. on_os (win_set_content api content)),
      cb_clear = on_os (win_clear api)\<rparr>"

end
