(* ===== verification/Windows_Behaviour.thy ===== *)
theory Windows_Behaviour
  imports Windows_Clipboard
begin

text \<open>
  What the Windows backend does with the Win32 functions. What these are documented to do is
  stated as named hypotheses: which resources a call takes and gives back, and what the
  clipboard shows. A small desktop that satisfies them is at the end.
\<close>

named_theorems win_simps "facts about the Win32 calls of an operation"

section \<open>Retrying\<close>

text \<open>The state after a number of failed attempts.\<close>

primrec waits :: "'w win32 \<Rightarrow> nat \<Rightarrow> 'w \<Rightarrow> 'w" where
  "waits api 0 w = w"
| "waits api (Suc k) w = w_sleep api (retry_delay k) (snd (w_open api (waits api k w)))"

lemma open_attempts_outcome:
  "(\<exists>k. j \<le> k \<and> k < j + n \<and> (\<forall>i. j \<le> i \<and> i < k \<longrightarrow> \<not> fst (w_open api (waits api i w))) \<and>
      fst (w_open api (waits api k w)) \<and>
      open_attempts api [j..<j + n] (waits api j w) = (Inr (), snd (w_open api (waits api k w)))) \<or>
   (\<forall>i. j \<le> i \<and> i < j + n \<longrightarrow> \<not> fst (w_open api (waits api i w))) \<and>
      open_attempts api [j..<j + n] (waits api j w) = (Inl busy_error, waits api (j + n) w)"
proof (induction n arbitrary: j)
  case 0
  then show ?case by (auto simp: sfail_def)
next
  case (Suc n)
  obtain ok w1 where o: "w_open api (waits api j w) = (ok, w1)" by fastforce
  have l: "[j..<j + Suc n] = j # [Suc j..<Suc j + n]" by (simp add: upt_conv_Cons)
  show ?case
  proof (cases ok)
    case True
    then have "open_attempts api [j..<j + Suc n] (waits api j w) = (Inr (), w1)" unfolding l by (simp add: o)
    then show ?thesis using o True by (intro disjI1 exI [of _ j]) (auto simp del: upt_Suc)
  next
    case False
    then have r: "open_attempts api [j..<j + Suc n] (waits api j w) =
        open_attempts api [Suc j..<Suc j + n] (waits api (Suc j) w)"
      unfolding l by (simp add: o)
    have ext: "\<forall>i. j \<le> i \<and> i < m \<longrightarrow> \<not> fst (w_open api (waits api i w))"
      if "\<forall>i. Suc j \<le> i \<and> i < m \<longrightarrow> \<not> fst (w_open api (waits api i w))" for m
      using that o False by (metis Suc_leI fst_conv le_neq_implies_less)
    from Suc.IH [of "Suc j"] show ?thesis
    proof (elim disjE exE)
      fix k
      assume "Suc j \<le> k \<and> k < Suc j + n \<and> (\<forall>i. Suc j \<le> i \<and> i < k \<longrightarrow> \<not> fst (w_open api (waits api i w))) \<and>
        fst (w_open api (waits api k w)) \<and>
        open_attempts api [Suc j..<Suc j + n] (waits api (Suc j) w) = (Inr (), snd (w_open api (waits api k w)))"
      then show ?thesis unfolding r using ext [of k] by (intro disjI1 exI [of _ k]) (simp del: upt_Suc waits.simps)
    next
      assume "(\<forall>i. Suc j \<le> i \<and> i < Suc j + n \<longrightarrow> \<not> fst (w_open api (waits api i w))) \<and>
        open_attempts api [Suc j..<Suc j + n] (waits api (Suc j) w) = (Inl busy_error, waits api (Suc j + n) w)"
      then show ?thesis unfolding r using ext [of "Suc j + n"] by (intro disjI2) (simp del: upt_Suc waits.simps)
    qed
  qed
qed

lemma open_retry_cases:
  obtains (opened) k where "k < CLIPBOARD_RETRY_COUNT" "\<And>i. i < k \<Longrightarrow> \<not> fst (w_open api (waits api i w))"
      "fst (w_open api (waits api k w))"
      "open_clipboard_with_retry api w = (Inr (), snd (w_open api (waits api k w)))"
  | (busy) "\<And>i. i < CLIPBOARD_RETRY_COUNT \<Longrightarrow> \<not> fst (w_open api (waits api i w))"
      "open_clipboard_with_retry api w = (Inl busy_error, waits api CLIPBOARD_RETRY_COUNT w)"
  using open_attempts_outcome [of 0 CLIPBOARD_RETRY_COUNT api w]
  by (auto simp: open_clipboard_with_retry_def)

lemma retry_delays_total: "sum_list (map (unat \<circ> retry_delay) [0..<CLIPBOARD_RETRY_COUNT]) = 1910"
  by (simp add: CLIPBOARD_RETRY_COUNT_def retry_delay_def BASE_RETRY_DELAY_MS_def upt_rec [of _ "numeral _"])

section \<open>Resources\<close>

text \<open>
  What the process holds: the open clipboard, its blocks of global memory and their lock
  counts, its window classes, windows and clipboard listeners.
\<close>

record win_resources =
  wr_open :: bool
  wr_blocks :: "nat set"
  wr_locks :: "nat \<Rightarrow> nat"
  wr_classes :: "string set"
  wr_windows :: "nat set"
  wr_listeners :: "nat set"

text \<open>
  The clipboard and memory functions, as documented: a block that the clipboard took over
  belongs to the system, a handle from the clipboard is not owned by the caller.
\<close>

definition win32_memory :: "'w win32 \<Rightarrow> ('w \<Rightarrow> win_resources) \<Rightarrow> bool" where
  "win32_memory api look \<longleftrightarrow>
     (\<forall>w. look (snd (w_available api w)) = look w) \<and>
     (\<forall>w. look (snd (w_open api w)) = (if fst (w_open api w) then (look w)\<lparr>wr_open := True\<rparr> else look w)) \<and>
     (\<forall>w. look (w_close api w) = (look w)\<lparr>wr_open := False\<rparr>) \<and>
     (\<forall>w. look (snd (w_empty api w)) = look w) \<and>
     (\<forall>w. look (snd (w_get_data api w)) = look w) \<and>
     (\<forall>h w. look (snd (w_set_data api h w)) =
        (if fst (w_set_data api h w) then (look w)\<lparr>wr_blocks := wr_blocks (look w) - {h}\<rparr> else look w)) \<and>
     (\<forall>n w w'. w_alloc api n w = (None, w') \<longrightarrow> look w' = look w) \<and>
     (\<forall>n w h w'. w_alloc api n w = (Some h, w') \<longrightarrow>
        h \<notin> wr_blocks (look w) \<and> look w' = (look w)\<lparr>wr_blocks := insert h (wr_blocks (look w))\<rparr>) \<and>
     (\<forall>h w. look (w_free api h w) = (look w)\<lparr>wr_blocks := wr_blocks (look w) - {h}\<rparr>) \<and>
     (\<forall>h w. look (snd (w_lock api h w)) =
        (if fst (w_lock api h w) then (look w)\<lparr>wr_locks := (wr_locks (look w))(h := Suc (wr_locks (look w) h))\<rparr>
         else look w)) \<and>
     (\<forall>h w. look (w_unlock api h w) = (look w)\<lparr>wr_locks := (wr_locks (look w))(h := wr_locks (look w) h - 1)\<rparr>) \<and>
     (\<forall>h us w. look (w_copy api h us w) = look w) \<and>
     (\<forall>ms w. look (w_sleep api ms w) = look w)"

lemma memory_laws [win_simps]:
  assumes "win32_memory api look"
  shows "look (snd (w_available api w)) = look w"
    "look (snd (w_open api w)) = (if fst (w_open api w) then (look w)\<lparr>wr_open := True\<rparr> else look w)"
    "look (w_close api w) = (look w)\<lparr>wr_open := False\<rparr>"
    "look (snd (w_empty api w)) = look w" "look (snd (w_get_data api w)) = look w"
    "look (snd (w_set_data api h w)) =
      (if fst (w_set_data api h w) then (look w)\<lparr>wr_blocks := wr_blocks (look w) - {h}\<rparr> else look w)"
    "look (w_free api h w) = (look w)\<lparr>wr_blocks := wr_blocks (look w) - {h}\<rparr>"
    "look (snd (w_lock api h w)) =
      (if fst (w_lock api h w) then (look w)\<lparr>wr_locks := (wr_locks (look w))(h := Suc (wr_locks (look w) h))\<rparr>
       else look w)"
    "look (w_unlock api h w) = (look w)\<lparr>wr_locks := (wr_locks (look w))(h := wr_locks (look w) h - 1)\<rparr>"
    "look (w_copy api h us w) = look w" "look (w_sleep api ms w) = look w"
  using assms unfolding win32_memory_def by simp_all

lemma alloc_laws:
  assumes "win32_memory api look"
  shows "w_alloc api n w = (None, w') \<Longrightarrow> look w' = look w"
    "w_alloc api n w = (Some h, w') \<Longrightarrow>
      h \<notin> wr_blocks (look w) \<and> look w' = (look w)\<lparr>wr_blocks := insert h (wr_blocks (look w))\<rparr>"
  using assms unfolding win32_memory_def by blast+

lemma look_waits:
  assumes "win32_memory api look" "\<And>i. i < k \<Longrightarrow> \<not> fst (w_open api (waits api i w))"
  shows "look (waits api k w) = look w"
  using assms(2) by (induction k) (simp_all add: win_simps [OF assms(1)])

lemma look_open_retry:
  assumes "win32_memory api look" "open_clipboard_with_retry api w = (r, w')"
  shows "if r = Inr () then look w' = (look w)\<lparr>wr_open := True\<rparr> else r = Inl busy_error \<and> look w' = look w"
proof (cases rule: open_retry_cases [of api w])
  case (opened k)
  then show ?thesis using look_waits [OF assms(1) opened(2)] assms(2) by (simp add: win_simps [OF assms(1)])
next
  case busy
  then show ?thesis using look_waits [OF assms(1) busy(1)] assms(2) by simp
qed

text \<open>The guard gives the clipboard back whatever the computation between does.\<close>

lemma look_with_clipboard:
  assumes "win32_memory api look" "\<not> wr_open (look w)"
  obtains (busy) w' where "with_clipboard api m w = (Inl busy_error, w')" "look w' = look w"
  | (opened) w1 r w2 where "look w1 = (look w)\<lparr>wr_open := True\<rparr>" "m w1 = (r, w2)"
      "with_clipboard api m w = (r, w_close api w2)" "look (w_close api w2) = (look w2)\<lparr>wr_open := False\<rparr>"
proof (cases "open_clipboard_with_retry api w")
  case (Pair r w1)
  then show ?thesis using look_open_retry [OF assms(1) Pair] that
    by (cases "m w1") (auto simp: with_clipboard_def sbind_def win_simps [OF assms(1)] split: if_splits sum.splits)
qed

lemma resources_back [simp]: "\<not> wr_open R \<Longrightarrow> R\<lparr>wr_open := True, wr_open := False\<rparr> = R" "\<not> wr_open R \<Longrightarrow> R\<lparr>wr_open := False\<rparr> = R"
  by (cases R; simp)+


definition same_or_leak :: "('w \<Rightarrow> win_resources) \<Rightarrow> (clipboard_error + 'a) \<times> 'w \<Rightarrow> 'w \<Rightarrow> bool" where
  "same_or_leak look rw w \<longleftrightarrow>
     (if fst rw = Inl busy_error then
        \<exists>h. h \<notin> wr_blocks (look w) \<and> look (snd rw) = (look w)\<lparr>wr_blocks := insert h (wr_blocks (look w))\<rparr>
      else look (snd rw) = look w)"

lemma look_read_open:
  assumes "win32_memory api look"
  shows "look (snd (read_open api w)) = look w"
proof -
  obtain h w1 where g: "w_get_data api w = (h, w1)" by fastforce
  obtain ok w2 where l: "w_lock api (the h) w1 = (ok, w2)" by (cases "w_lock api (the h) w1")
  have "look w1 = look w" using win_simps(5) [OF assms, of w] g by simp
  moreover have "look w2 = (if ok then (look w1)\<lparr>wr_locks := (wr_locks (look w1))(the h := Suc (wr_locks (look w1) (the h)))\<rparr>
      else look w1)"
    using win_simps(8) [OF assms, of "the h" w1] l by simp
  ultimately show ?thesis using g l
    by (cases h; cases ok) (simp_all add: read_open_def read_locked_def Let_def win_simps [OF assms])
qed

lemma look_read:
  assumes "win32_memory api look" "\<not> wr_open (look w)"
  shows "look (snd (with_clipboard api (read_open api) w)) = look w"
  using assms
proof (cases rule: look_with_clipboard [where m = "read_open api"])
  case (opened w1 r w2)
  then show ?thesis using look_read_open [OF assms(1), of w1] assms(2) by simp
qed simp

lemma look_get_content:
  assumes "win32_memory api look" "\<not> wr_open (look w)"
  shows "look (snd (win_get_content api w)) = look w"
proof -
  obtain ok w1 where a: "w_available api w = (ok, w1)" by fastforce
  then have "look w1 = look w" using win_simps(1) [OF assms(1), of w] by simp
  then show ?thesis using look_read [OF assms(1), of w1] assms(2) a
    by (simp add: win_get_content_def split: bool.split)
qed

lemma direct_is_get: "read_clipboard_text_direct api = win_get_content api"
  by (simp add: read_clipboard_text_direct_def win_get_content_def)

lemma look_clear:
  assumes "win32_memory api look" "\<not> wr_open (look w)"
  shows "look (snd (win_clear api w)) = look w"
  using assms
proof (cases rule: look_with_clipboard [where m = "\<lambda>w. case w_empty api w of
      (False, w1) \<Rightarrow> (Inl (BackendError ''Failed to clear Windows clipboard''), w1) | (True, w1) \<Rightarrow> (Inr (), w1)"])
  case (opened w1 r w2)
  then have "look w2 = look w1"
    using win_simps(4) [OF assms(1), of w1] by (auto split: prod.splits bool.splits)
  then show ?thesis using opened assms(2) by (simp add: win_clear_def)
qed (simp add: win_clear_def)

lemma look_publish:
  assumes "win32_memory api look" "publish api h w = (r, w')"
  shows "look w' = (look w)\<lparr>wr_blocks := wr_blocks (look w) - {h}\<rparr> \<and> r \<noteq> Inl busy_error"
proof -
  obtain ok w1 where e: "w_empty api w = (ok, w1)" by fastforce
  obtain ok2 w2 where d: "w_set_data api h w1 = (ok2, w2)" by fastforce
  have "look w1 = look w" using win_simps(4) [OF assms(1), of w] e by simp
  moreover have "look w2 = (if ok2 then (look w1)\<lparr>wr_blocks := wr_blocks (look w1) - {h}\<rparr> else look w1)"
    using win_simps(6) [OF assms(1), of h w1] d by simp
  ultimately show ?thesis using assms(2) e d
    by (auto simp: publish_def win_simps [OF assms(1)] busy_error_def split: bool.splits)
qed

lemma look_set_content:
  assumes "win32_memory api look" "\<not> wr_open (look w)"
  shows "same_or_leak look (win_set_content api ct w) w"
proof (cases "text_to_write ct")
  case (Inl e)
  then have "win_set_content api ct w = (Inl e, w)" "e \<noteq> busy_error"
    by (auto simp: win_set_content_def sbind_def slift_def text_to_write_def busy_error_def split: clipboard_content.splits)
  then show ?thesis by (simp add: same_or_leak_def)
next
  case (Inr t)
  define us where "us = encode_utf16 t @ [0]"
  obtain ho w1 where a: "w_alloc api (length us * 2) w = (ho, w1)" by fastforce
  show ?thesis
  proof (cases ho)
    case None
    then have "win_set_content api ct w =
        (Inl (BackendError ''Failed to allocate global memory for Windows clipboard''), w1)"
      using a Inr by (simp add: win_set_content_def sbind_def slift_def us_def Let_def)
    then show ?thesis using alloc_laws(1) [OF assms(1), of "length us * 2" w w1] a None
      by (simp add: same_or_leak_def busy_error_def)
  next
    case (Some h)
    have h: "h \<notin> wr_blocks (look w)" "look w1 = (look w)\<lparr>wr_blocks := insert h (wr_blocks (look w))\<rparr>"
      using alloc_laws(2) [OF assms(1), of "length us * 2" w h w1] a Some by simp_all
    obtain ok w2 where l: "w_lock api h w1 = (ok, w2)" by fastforce
    have w2: "look w2 = (if ok then (look w1)\<lparr>wr_locks := (wr_locks (look w1))(h := Suc (wr_locks (look w1) h))\<rparr> else look w1)"
      using win_simps(8) [OF assms(1), of h w1] l by simp
    define w3 where "w3 = w_unlock api h (w_copy api h us w2)"
    show ?thesis
    proof (cases ok)
      case False
      then have "win_set_content api ct w = (Inl (BackendError ''Failed to lock allocated global memory''), w_free api h w2)"
        using a Inr Some l by (simp add: win_set_content_def sbind_def slift_def us_def Let_def)
      then show ?thesis using h w2 False by (simp add: same_or_leak_def busy_error_def win_simps [OF assms(1)])
    next
      case True
      have w3: "look w3 = look w1" using w2 True by (simp add: w3_def win_simps [OF assms(1)])
      have eq: "win_set_content api ct w = with_clipboard api (publish api h) w3"
        using a Inr Some l True by (simp add: win_set_content_def sbind_def slift_def us_def w3_def Let_def)
      have "\<not> wr_open (look w3)" using assms(2) h w3 by simp
      from assms(1) this show ?thesis
      proof (cases rule: look_with_clipboard [where m = "publish api h"])
        case busy
        then show ?thesis using h w3 by (auto simp: same_or_leak_def eq)
      next
        case (opened w4 r w5)
        then show ?thesis using look_publish [OF assms(1) opened(2)] h w3 assms(2)
          by (simp add: same_or_leak_def eq)
      qed
    qed
  qed
qed

text \<open>C23: the backend gives back what it takes. Reading and clearing leave the clipboard closed and
  every block and lock as they were, on success and on every failure; so does writing, except
  when another application holds the clipboard through all attempts: then, and only then, the
  block that was allocated for the text stays behind.\<close>

theorem windows_resources_balanced:
  assumes "win32_memory api look" "\<not> wr_open (look w)"
  shows "look (snd (win_get_content api w)) = look w \<and> look (snd (win_clear api w)) = look w \<and>
    (if fst (win_set_content api ct w) = Inl busy_error then
       \<exists>h. h \<notin> wr_blocks (look w) \<and>
         look (snd (win_set_content api ct w)) = (look w)\<lparr>wr_blocks := insert h (wr_blocks (look w))\<rparr>
     else look (snd (win_set_content api ct w)) = look w)"
  using look_get_content [OF assms] look_clear [OF assms] look_set_content [OF assms, of ct]
  unfolding same_or_leak_def by simp

section \<open>The listener\<close>

text \<open>
  The window functions, as documented. The window procedure is run by \<open>DispatchMessageW\<close> and,
  with \<open>WM_DESTROY\<close>, by \<open>DestroyWindow\<close>; the default procedure destroys the window for
  \<open>WM_CLOSE\<close> and keeps what the process holds for every other message.
\<close>

definition keeps_held :: "('w \<Rightarrow> win_resources) \<Rightarrow> (win_message \<Rightarrow> 'w \<Rightarrow> 'w) \<Rightarrow> bool" where
  "keeps_held look f \<longleftrightarrow> (\<forall>m w. m \<noteq> WmClose \<longrightarrow> look (f m w) = look w)"

definition win32_windows :: "'w win32 \<Rightarrow> ('w \<Rightarrow> win_resources) \<Rightarrow> bool" where
  "win32_windows api look \<longleftrightarrow>
     (\<forall>n w. look (snd (w_register_class api n w)) =
        (if fst (w_register_class api n w) then (look w)\<lparr>wr_classes := insert n (wr_classes (look w))\<rparr> else look w)) \<and>
     (\<forall>n w. look (w_unregister_class api n w) = (look w)\<lparr>wr_classes := wr_classes (look w) - {n}\<rparr>) \<and>
     (\<forall>n w w'. w_create_window api n w = (None, w') \<longrightarrow> look w' = look w) \<and>
     (\<forall>n w h w'. w_create_window api n w = (Some h, w') \<longrightarrow>
        h \<noteq> 0 \<and> h \<notin> wr_windows (look w) \<and> h \<notin> wr_listeners (look w) \<and>
        look w' = (look w)\<lparr>wr_windows := insert h (wr_windows (look w))\<rparr>) \<and>
     (\<forall>f h w. keeps_held look f \<longrightarrow>
        look (w_destroy_window api f h w) = (look w)\<lparr>wr_windows := wr_windows (look w) - {h}\<rparr>) \<and>
     (\<forall>h w. look (snd (w_add_listener api h w)) =
        (if fst (w_add_listener api h w) then (look w)\<lparr>wr_listeners := insert h (wr_listeners (look w))\<rparr> else look w)) \<and>
     (\<forall>h w. look (w_remove_listener api h w) = (look w)\<lparr>wr_listeners := wr_listeners (look w) - {h}\<rparr>) \<and>
     (\<forall>m w. look (w_translate api m w) = look w) \<and>
     (\<forall>f m w. keeps_held look f \<and> m \<noteq> WmClose \<longrightarrow> look (w_dispatch api f m w) = look w) \<and>
     (\<forall>w. look (w_post_quit api w) = look w) \<and>
     keeps_held look (w_def_window_proc api)"

lemma wnd_proc_keeps: "win32_windows api look \<Longrightarrow> keeps_held look (listener_wnd_proc api)"
  by (auto simp: win32_windows_def keeps_held_def listener_wnd_proc_def)

lemma window_laws:
  assumes "win32_windows api look"
  shows "look (snd (w_register_class api n w)) =
      (if fst (w_register_class api n w) then (look w)\<lparr>wr_classes := insert n (wr_classes (look w))\<rparr> else look w)"
    "look (w_unregister_class api n w) = (look w)\<lparr>wr_classes := wr_classes (look w) - {n}\<rparr>"
    "look (w_destroy_window api (listener_wnd_proc api) h w) = (look w)\<lparr>wr_windows := wr_windows (look w) - {h}\<rparr>"
    "look (snd (w_add_listener api h w)) =
      (if fst (w_add_listener api h w) then (look w)\<lparr>wr_listeners := insert h (wr_listeners (look w))\<rparr> else look w)"
    "look (w_remove_listener api h w) = (look w)\<lparr>wr_listeners := wr_listeners (look w) - {h}\<rparr>"
    "m \<noteq> WmClose \<Longrightarrow> look (dispatched api m w) = look w"
  using assms wnd_proc_keeps [OF assms] unfolding win32_windows_def dispatched_def by simp_all

lemma create_laws:
  assumes "win32_windows api look"
  shows "w_create_window api n w = (None, w') \<Longrightarrow> look w' = look w"
    "w_create_window api n w = (Some h, w') \<Longrightarrow> h \<noteq> 0 \<and> h \<notin> wr_windows (look w) \<and> h \<notin> wr_listeners (look w) \<and>
      look w' = (look w)\<lparr>wr_windows := insert h (wr_windows (look w))\<rparr>"
  using assms unfolding win32_windows_def by blast+

lemma look_message_pump:
  assumes "win32_memory api look" "win32_windows api look" "\<not> wr_open (look w)" "message_pump api ms w = (sent, w', over)"
  shows "look w' = look w"
  using assms(3,4)
proof (induction ms arbitrary: w sent w' over)
  case (Cons x ms)
  obtain r w1 where d: "read_clipboard_text_direct api w = (r, w1)" by fastforce
  have w1: "look w1 = look w"
    using look_get_content [OF assms(1) Cons.prems(1)] d by (simp add: direct_is_get)
  note step = window_laws(6) [OF assms(2)]
  show ?case
  proof (cases x)
    case (Message m)
    have IH: "look w4 = look w" if "look w3 = look w" "message_pump api ms w3 = (snt, w4, ov)" for w3 snt w4 ov
      using Cons.IH [OF _ that(2)] Cons.prems(1) that(1) by simp
    define w3 where "w3 = dispatched api m (if m = WmClipboardUpdate then w1 else w)"
    obtain snt w4 ov where p: "message_pump api ms w3 = (snt, w4, ov)" using prod_cases3 by blast
    have "w' = (if m = WmClose then w else w4)"
      using Cons.prems(2) d p by (cases m) (simp_all add: Message w3_def)
    moreover have "look w4 = look w" if "m \<noteq> WmClose"
      using IH [OF _ p] w1 step [OF that] by (simp add: w3_def)
    ultimately show ?thesis by simp
  qed (use Cons.prems in simp_all)
qed simp

text \<open>Whether the rounds so far end the loop.\<close>

definition ends_pump :: "pump_input list \<Rightarrow> bool" where
  "ends_pump ms \<longleftrightarrow> NotRunning \<in> set ms \<or> NoMessage \<in> set ms \<or> Message WmClose \<in> set ms"

lemma message_pump_over: "snd (snd (message_pump api ms w)) \<longleftrightarrow> ends_pump ms"
  by (induction api ms w rule: message_pump.induct)
    (auto simp: ends_pump_def split: win_message.splits prod.splits)


text \<open>C24: the listener cleans up after itself. Whatever messages arrive, the loop has ended as soon as
  the flag is down, the queue has reported the end or a close message has come; a listener that
  has ended, early or late, has given back its registration, its window and its class, and has
  withdrawn its handle; one that is still running holds exactly these three.\<close>

theorem listener_cleans_up:
  assumes "win32_memory api look" "win32_windows api look" "\<not> wr_open (look w)" "cls \<notin> wr_classes (look w)"
    and "run_clipboard_listener_loop api cls ms w = (ls, w')"
  shows "(ends_pump ms \<longrightarrow> ls_ended ls) \<and> (ls_ended ls \<longleftrightarrow> ls_hwnd ls = 0) \<and>
    look w' = (if ls_ended ls then look w
      else (look w)\<lparr>wr_classes := insert cls (wr_classes (look w)),
        wr_windows := insert (ls_hwnd ls) (wr_windows (look w)),
        wr_listeners := insert (ls_hwnd ls) (wr_listeners (look w))\<rparr>)"
proof -
  note laws = window_laws [OF assms(2)] create_laws [OF assms(2)]
  obtain ok1 w1 where r: "w_register_class api cls w = (ok1, w1)" by fastforce
  obtain ho w2 where c: "w_create_window api cls w1 = (ho, w2)" by fastforce
  obtain ok3 w3 where a: "w_add_listener api (the ho) w2 = (ok3, w3)" by fastforce
  obtain sent w4 over where p: "message_pump api ms w3 = (sent, w4, over)" using prod_cases3 by blast
  have w1: "look w1 = (if ok1 then (look w)\<lparr>wr_classes := insert cls (wr_classes (look w))\<rparr> else look w)"
    using laws(1) [of cls w] r by simp
  have w2: "ho = None \<Longrightarrow> look w2 = look w1" "ho = Some h \<Longrightarrow> h \<noteq> 0 \<and> h \<notin> wr_windows (look w1) \<and>
      h \<notin> wr_listeners (look w1) \<and> look w2 = (look w1)\<lparr>wr_windows := insert h (wr_windows (look w1))\<rparr>" for h
    using laws(7,8) c by blast+
  have w3: "look w3 = (if ok3 then (look w2)\<lparr>wr_listeners := insert (the ho) (wr_listeners (look w2))\<rparr> else look w2)"
    using laws(4) [of "the ho" w2] a by simp
  have over: "over = ends_pump ms" using message_pump_over [of api ms w3] p by simp
  have w4: "look w4 = look w3" if "ok1" "ho = Some h" for h
    using look_message_pump [OF assms(1,2) _ p] w1 w2(2) [OF that(2)] w3 assms(3) that(1) by simp
  show ?thesis
  proof (cases "ok1 \<and> ho \<noteq> None \<and> ok3")
    case False
    have "look w' = look w \<and> ls = \<lparr>ls_sent = [], ls_hwnd = 0, ls_ended = True\<rparr>"
    proof (cases ok1)
      case False
      then show ?thesis using assms(5) r w1 by (simp add: run_clipboard_listener_loop_def)
    next
      case ok1: True
      show ?thesis
      proof (cases ho)
        case None
        then show ?thesis using assms(4,5) r c ok1 w1 w2(1) by (auto simp: run_clipboard_listener_loop_def laws(2))
      next
        case (Some h)
        then show ?thesis using assms(4,5) r c a ok1 w1 w2(2) [OF Some] w3 False
          by (auto simp: run_clipboard_listener_loop_def laws(2,3))
      qed
    qed
    then show ?thesis by simp
  next
    case True
    then obtain h where h: "ho = Some h" by auto
    have "ls = \<lparr>ls_sent = sent, ls_hwnd = (if over then 0 else h), ls_ended = over\<rparr>"
      "w' = (if over then w_unregister_class api cls (w_destroy_window api (listener_wnd_proc api) h
        (w_remove_listener api h w4)) else w4)"
      using True assms(5) r c a p by (simp_all add: h run_clipboard_listener_loop_def split: if_splits)
    then show ?thesis using True assms(4) over w1 w2(2) [OF h] w3 w4 [OF _ h]
      by (cases over) (simp_all add: h laws(2,3,5))
  qed
qed

section \<open>What the clipboard shows\<close>

definition same_text :: "'w win32 \<Rightarrow> 'w \<Rightarrow> 'w \<Rightarrow> bool" where
  "same_text api w w' \<longleftrightarrow> (\<forall>h. w_size api h w' = w_size api h w \<and> (\<forall>i. w_word api h i w' = w_word api h i w))"

definition holds_text :: "'w win32 \<Rightarrow> nat \<Rightarrow> u16 list \<Rightarrow> 'w \<Rightarrow> bool" where
  "holds_text api h us w \<longleftrightarrow> 2 * length us \<le> w_size api h w \<and> (\<forall>i < length us. w_word api h i w = us ! i)"

text \<open>
  The documented effect of the calls on the block the clipboard shows, \<open>shown\<close>, and on the
  contents of blocks, while no other application changes the clipboard. A block may be larger
  than was asked for.
\<close>

definition win32_text :: "'w win32 \<Rightarrow> ('w \<Rightarrow> nat option) \<Rightarrow> bool" where
  "win32_text api shown \<longleftrightarrow>
     (\<forall>w. fst (w_available api w) = (shown w \<noteq> None)) \<and>
     (\<forall>w. fst (w_get_data api w) = shown w) \<and>
     (\<forall>w. \<forall>w' \<in> {snd (w_available api w), snd (w_open api w), w_close api w, snd (w_get_data api w)} \<union>
        range (\<lambda>h. snd (w_lock api h w)) \<union> range (\<lambda>h. w_unlock api h w) \<union> range (\<lambda>ms. w_sleep api ms w).
        shown w' = shown w \<and> same_text api w w') \<and>
     (\<forall>n w h w'. w_alloc api n w = (Some h, w') \<longrightarrow> n \<le> w_size api h w' \<and> shown w' = shown w \<and> shown w \<noteq> Some h) \<and>
     (\<forall>h us w. 2 * length us \<le> w_size api h w \<longrightarrow>
        holds_text api h us (w_copy api h us w) \<and> shown (w_copy api h us w) = shown w) \<and>
     (\<forall>h us w w'. w_empty api w = (True, w') \<longrightarrow>
        shown w' = None \<and> (shown w \<noteq> Some h \<and> holds_text api h us w \<longrightarrow> holds_text api h us w')) \<and>
     (\<forall>h w w'. w_set_data api h w = (True, w') \<longrightarrow> shown w' = Some h \<and> same_text api w w')"

text \<open>Nothing fails for good: memory suffices, and the clipboard is free at one of the attempts.\<close>

definition win32_obliging :: "'w win32 \<Rightarrow> bool" where
  "win32_obliging api \<longleftrightarrow>
     (\<forall>n w. fst (w_alloc api n w) \<noteq> None) \<and> (\<forall>h w. fst (w_lock api h w)) \<and> (\<forall>w. fst (w_empty api w)) \<and>
     (\<forall>h w. fst (w_set_data api h w)) \<and> (\<forall>w. \<exists>k < CLIPBOARD_RETRY_COUNT. fst (w_open api (waits api k w)))"

definition as_shown :: "'w win32 \<Rightarrow> ('w \<Rightarrow> nat option) \<Rightarrow> 'w \<Rightarrow> 'w \<Rightarrow> bool" where
  "as_shown api shown w w' \<longleftrightarrow> shown w' = shown w \<and> same_text api w w'"

lemma as_shown_trans: "as_shown api shown w w' \<Longrightarrow> as_shown api shown w' w'' \<Longrightarrow> as_shown api shown w w''"
  by (simp add: as_shown_def same_text_def)

lemma as_shown_refl: "as_shown api shown w w"
  by (simp add: as_shown_def same_text_def)

lemma holds_text_same: "same_text api w w' \<Longrightarrow> holds_text api h us w' = holds_text api h us w"
  by (simp add: same_text_def holds_text_def)

lemma text_laws:
  assumes "win32_text api shown"
  shows "fst (w_available api w) = (shown w \<noteq> None)" "fst (w_get_data api w) = shown w"
    "as_shown api shown w (snd (w_available api w))" "as_shown api shown w (snd (w_open api w))"
    "as_shown api shown w (w_close api w)" "as_shown api shown w (snd (w_get_data api w))"
    "as_shown api shown w (snd (w_lock api h w))" "as_shown api shown w (w_unlock api h w)"
    "as_shown api shown w (w_sleep api ms w)"
  using assms unfolding win32_text_def as_shown_def by auto

lemma text_changes:
  assumes "win32_text api shown"
  shows "w_alloc api n w = (Some h, w') \<Longrightarrow> n \<le> w_size api h w' \<and> shown w' = shown w \<and> shown w \<noteq> Some h"
    "2 * length us \<le> w_size api h w \<Longrightarrow> holds_text api h us (w_copy api h us w) \<and> shown (w_copy api h us w) = shown w"
    "w_empty api w = (True, w') \<Longrightarrow> shown w' = None \<and> (shown w \<noteq> Some h \<and> holds_text api h us w \<longrightarrow> holds_text api h us w')"
    "w_set_data api h w = (True, w') \<Longrightarrow> shown w' = Some h \<and> same_text api w w'"
  using assms unfolding win32_text_def by blast+

lemma waits_as_shown:
  assumes "win32_text api shown"
  shows "as_shown api shown w (waits api k w)"
proof (induction k)
  case (Suc k)
  show ?case
    using as_shown_trans [OF Suc as_shown_trans [OF text_laws(4) text_laws(9), OF assms assms]] by simp
qed (simp add: as_shown_refl)

lemma open_obliging:
  assumes "win32_text api shown" "win32_obliging api"
  obtains w' where "open_clipboard_with_retry api w = (Inr (), w')" "as_shown api shown w w'"
proof (cases rule: open_retry_cases [of api w])
  case (opened k)
  then show ?thesis
    using that as_shown_trans [OF waits_as_shown [OF assms(1)] text_laws(4) [OF assms(1)]] by blast
next
  case busy
  then show ?thesis using assms(2) unfolding win32_obliging_def by blast
qed

lemma scan_text_holds:
  assumes "holds_text api h us w" "0 \<in> set us" "length us \<le> n" "len \<le> length (takeWhile (\<lambda>u. u \<noteq> 0) us)"
  shows "scan_text api h n w len = length (takeWhile (\<lambda>u. u \<noteq> 0) us)"
proof -
  let ?k = "length (takeWhile (\<lambda>u. u \<noteq> 0) us)"
  have k: "?k < length us" "us ! ?k = 0"
    using assms(2) by (induction us) auto
  have "scan_text api h n w len = ?k" if "len \<le> ?k" for len
    using that
  proof (induction "?k - len" arbitrary: len)
    case 0
    then show ?case using k assms(1,3) by (simp add: scan_text.simps [of _ _ _ _ len] holds_text_def)
  next
    case (Suc d)
    then have lt: "len < ?k" by simp
    then have "us ! len \<noteq> 0" "len < length us"
      using takeWhile_nth [OF lt] set_takeWhileD [OF nth_mem [OF lt]] k(1) by simp_all
    moreover have "scan_text api h n w (len + 1) = ?k" using Suc by simp
    ultimately show ?case using assms(1,3) by (simp add: scan_text.simps [of _ _ _ _ len] holds_text_def)
  qed
  then show ?thesis using assms(4) by blast
qed

lemma takeWhile_zero: "takeWhile (\<lambda>u. u \<noteq> 0) (us @ [0]) = takeWhile (\<lambda>u. u \<noteq> 0) us"
  for us :: "u16 list"
  by (induction us) simp_all

lemma read_locked_text:
  assumes "holds_text api h (encode_utf16 t @ [0]) w" "utf8_valid t"
  shows "read_locked api h w = (Inr (Some (Text (takeWhile (\<lambda>ch. ch \<noteq> CHR 0x00) t))), w_unlock api h w)"
proof -
  let ?us = "encode_utf16 t @ [0]" and ?ts = "takeWhile (\<lambda>u. u \<noteq> 0) (encode_utf16 t)"
  have l: "scan_text api h (w_size api h w div 2) w 0 = length ?ts"
    using scan_text_holds [OF assms(1), of "w_size api h w div 2" 0] assms(1)
    by (simp add: takeWhile_zero holds_text_def less_eq_div_iff_mult_less_eq)
  have "map (\<lambda>i. w_word api h i w) [0..<length ?ts] = ?ts"
  proof (rule nth_equalityI)
    fix i assume "i < length (map (\<lambda>i. w_word api h i w) [0..<length ?ts])"
    then have i: "i < length ?ts" by simp
    then have "i < length (encode_utf16 t)" using length_takeWhile_le order_less_le_trans by blast
    then show "map (\<lambda>i. w_word api h i w) [0..<length ?ts] ! i = ?ts ! i"
      using assms(1) i by (simp add: holds_text_def takeWhile_nth nth_append)
  qed simp
  then show ?thesis using from_encode_utf16 [OF assms(2)] by (simp add: read_locked_def l Let_def)
qed

lemma get_shown:
  assumes "win32_text api shown" "win32_obliging api" "shown w = Some h"
    and "holds_text api h (encode_utf16 t @ [0]) w" "utf8_valid t"
  shows "fst (win_get_content api w) = Inr (Some (Text (takeWhile (\<lambda>ch. ch \<noteq> CHR 0x00) t)))"
proof -
  note laws = text_laws [OF assms(1)]
  obtain w1 where a: "w_available api w = (True, w1)" "as_shown api shown w w1"
    using laws(1,3) [of w] assms(3) by (cases "w_available api w") auto
  obtain w2 where o: "open_clipboard_with_retry api w1 = (Inr (), w2)" "as_shown api shown w1 w2"
    using open_obliging [OF assms(1,2)] by blast
  have s2: "as_shown api shown w w2" using as_shown_trans [OF a(2) o(2)] .
  obtain w3 where g: "w_get_data api w2 = (Some h, w3)" "as_shown api shown w2 w3"
    using laws(2,6) [of w2] s2 assms(3) by (cases "w_get_data api w2") (auto simp: as_shown_def)
  obtain w4 where l: "w_lock api h w3 = (True, w4)" "as_shown api shown w3 w4"
    using laws(7) [of w3 h] assms(2) by (cases "w_lock api h w3") (auto simp: win32_obliging_def dest: spec2 [of _ h w3])
  have "as_shown api shown w w4" using as_shown_trans [OF as_shown_trans [OF s2 g(2)] l(2)] .
  then have "holds_text api h (encode_utf16 t @ [0]) w4"
    using assms(4) holds_text_same [of api w w4] by (simp add: as_shown_def)
  from read_locked_text [OF this assms(5)] show ?thesis
    using a(1) o(1) g(1) l(1) by (simp add: win_get_content_def with_clipboard_def sbind_def read_open_def)
qed

lemma set_shows:
  assumes "win32_text api shown" "win32_obliging api" "text_to_write ct = Inr t"
  obtains h w' where "win_set_content api ct w = (Inr (), w')" "shown w' = Some h"
    "holds_text api h (encode_utf16 t @ [0]) w'"
proof -
  note laws = text_laws [OF assms(1)] and changes = text_changes [OF assms(1)]
  note ob = assms(2) [unfolded win32_obliging_def]
  define us where "us = encode_utf16 t @ [0]"
  obtain h w1 where a: "w_alloc api (length us * 2) w = (Some h, w1)"
    using ob by (metis option.exhaust prod.collapse)
  note a' = changes(1) [OF a]
  obtain w2 where l: "w_lock api h w1 = (True, w2)" "as_shown api shown w1 w2"
    using ob laws(7) [of w1 h] by (metis prod.collapse)
  define w3 where "w3 = w_unlock api h (w_copy api h us w2)"
  have "2 * length us \<le> w_size api h w2" using a' l(2) by (simp add: as_shown_def same_text_def)
  from changes(2) [OF this] have w3: "holds_text api h us w3" "shown w3 = shown w2"
    using laws(8) [of "w_copy api h us w2" h] holds_text_same [of api "w_copy api h us w2" "w3"]
    by (simp_all add: w3_def as_shown_def)
  obtain w4 where o: "open_clipboard_with_retry api w3 = (Inr (), w4)" "as_shown api shown w3 w4"
    using open_obliging [OF assms(1,2)] by blast
  have w4: "holds_text api h us w4" "shown w4 \<noteq> Some h"
    using w3 o(2) a' l(2) holds_text_same [of api w3 w4] by (simp_all add: as_shown_def)
  obtain w5 where e: "w_empty api w4 = (True, w5)" using ob by (metis prod.collapse)
  obtain w6 where d: "w_set_data api h w5 = (True, w6)" using ob by (metis prod.collapse)
  have "holds_text api h us w6" "shown w6 = Some h"
    using changes(3) [OF e, of h us] changes(4) [OF d] w4 holds_text_same [of api w5 w6] by simp_all
  then have "holds_text api h us (w_close api w6)" "shown (w_close api w6) = Some h"
    using laws(5) [of w6] holds_text_same [of api w6 "w_close api w6"] by (simp_all add: as_shown_def)
  moreover have "win_set_content api ct w = (Inr (), w_close api w6)"
    using assms(3) a l(1) o(1) e d
    by (simp add: win_set_content_def sbind_def slift_def with_clipboard_def publish_def Let_def us_def w3_def)
  ultimately show ?thesis using that us_def by blast
qed


section \<open>Every text read is a string\<close>

definition is_text :: "clipboard_content \<Rightarrow> bool" where
  "is_text ct \<longleftrightarrow> (\<exists>t. ct = Text t \<and> utf8_valid t)"

lemma read_open_text: "fst (read_open api w) = Inr (Some ct) \<Longrightarrow> is_text ct"
  by (cases "w_get_data api w"; cases "fst (w_get_data api w)";
      cases "w_lock api (the (fst (w_get_data api w))) (snd (w_get_data api w))";
      cases "fst (w_lock api (the (fst (w_get_data api w))) (snd (w_get_data api w)))")
    (simp_all add: read_open_def read_locked_def is_text_def Let_def, blast intro: from_utf16_valid)

lemma with_clipboard_result:
  "fst (with_clipboard api m w) = Inr x \<Longrightarrow> \<exists>w'. fst (m w') = Inr x"
  by (rule exI [of _ "snd (open_clipboard_with_retry api w)"])
    (simp add: with_clipboard_def sbind_def split: prod.splits sum.splits)

lemma get_content_text:
  assumes "fst (win_get_content api w) = Inr (Some ct)"
  shows "is_text ct"
proof -
  obtain w1 where "fst (with_clipboard api (read_open api) w1) = Inr (Some ct)"
    using assms by (simp add: win_get_content_def split: prod.splits bool.splits)
  from with_clipboard_result [OF this] obtain w2 where "fst (read_open api w2) = Inr (Some ct)" by blast
  then show ?thesis by (rule read_open_text)
qed

lemma message_pump_text: "message_pump api ms w = (sent, w', over) \<Longrightarrow> list_all is_text sent"
proof (induction ms arbitrary: w sent w' over)
  case (Cons x ms)
  show ?case
  proof (cases x)
    case (Message m)
    obtain r w1 where d: "read_clipboard_text_direct api w = (r, w1)" by fastforce
    have r: "is_text ct" if "r = Inr (Some ct)" for ct
      using get_content_text [of api w ct] d that by (simp add: direct_is_get)
    define w3 where "w3 = dispatched api m (if m = WmClipboardUpdate then w1 else w)"
    obtain snt w4 ov where p: "message_pump api ms w3 = (snt, w4, ov)" using prod_cases3 by blast
    have "list_all is_text snt" using Cons.IH [OF p] .
    moreover have "sent = (if m = WmClose then []
        else if m = WmClipboardUpdate then (case r of Inr (Some (Text text)) \<Rightarrow> [Text text] | _ \<Rightarrow> []) @ snt else snt)"
      using Cons.prems d p by (cases m) (simp_all add: Message w3_def)
    moreover have "list_all is_text (case r of Inr (Some (Text text)) \<Rightarrow> [Text text] | _ \<Rightarrow> [])"
      using r by (simp split: sum.split option.split clipboard_content.split)
    ultimately show ?thesis by simp
  qed (use Cons.prems in simp_all)
qed simp


section \<open>Echoes of the native clipboard\<close>

lemma windows_set_listen:
  assumes "win32_text api shown" "win32_obliging api" "text_to_write ct = Inr t" "utf8_valid t" "CHR 0x00 \<notin> set t"
  obtains b' where "cb_set_content (windows_clipboard api) ct b = (Inr (), b')"
    "fst (read_clipboard_text_direct api (wb_os b')) = Inr (Some (Text t))"
proof -
  obtain h w' where "win_set_content api ct (wb_os b) = (Inr (), w')" "shown w' = Some h"
      "holds_text api h (encode_utf16 t @ [0]) w'"
    using set_shows [OF assms(1-3)] .
  moreover have "takeWhile (\<lambda>ch. ch \<noteq> CHR 0x00) t = t"
    unfolding takeWhile_eq_all_conv using assms(5) by blast
  ultimately show ?thesis using get_shown [OF assms(1,2) _ _ assms(4)] that
    by (simp add: windows_clipboard_def on_os_def direct_is_get)
qed

lemma policy_same [simp]: "en_policy (emit ev e) = en_policy e" "en_guard (emit ev e) = en_guard e"
  "en_backend (emit ev e) = en_backend e"
  by (simp_all add: emit_def)

text \<open>C37: what the native listener makes of an update that was applied. The text that a peer sent comes
  back from the listener and is suppressed. The markup of an HTML update comes back as a plain
  text, whose hash is another one: unless that text is known already, the node sends it to its
  peers as a copy of its own.\<close>

theorem native_echo:
  assumes "win32_text api shown" "win32_obliging api" "sync_accepted c e entry"
    and "text_to_write (ce_content entry) = Inr t" "utf8_valid t" "CHR 0x00 \<notin> set t"
    and "policy_validate (en_policy e) (Text t) False = Inr ()"
    and "clip_to_data_frame pc (Sync (entry_new c now (en_local_node_id e) (en_sequence e) (Text t) False)) = Inr df"
  shows "\<exists>ev e'. handle_sync c (windows_clipboard api) entry e = (Inr (Some ev), e') \<and>
    fst (read_clipboard_text_direct api (wb_os (en_backend e'))) = Inr (Some (Text t)) \<and>
    (ce_content entry = Text t \<longrightarrow> fst (handle_local_change c pc now (Text t) False e') = Inr None) \<and>
    (compute_hash c (Text t) \<notin> insert (compute_hash c (ce_content entry)) (eg_seen (en_guard e)) \<longrightarrow>
      fst (handle_local_change c pc now (Text t) False e') = Inr (Some df))"
proof -
  obtain b' where b': "cb_set_content (windows_clipboard api) (ce_content entry) (en_backend e) = (Inr (), b')"
      "fst (read_clipboard_text_direct api (wb_os b')) = Inr (Some (Text t))"
    using windows_set_listen [OF assms(1,2,4-6)] .
  have h: "cm_content_hash (ce_metadata entry) = compute_hash c (ce_content entry)"
    using assms(3) by (simp add: sync_accepted_def validate_integrity_Inr_iff Let_def)
  have seen: "eg_seen (received_guard entry (en_guard e)) \<subseteq> insert (compute_hash c (ce_content entry)) (eg_seen (en_guard e))"
    "compute_hash c (ce_content entry) \<in> eg_seen (received_guard entry (en_guard e))"
    by (auto simp: received_guard_def push_hash_def h Let_def split: if_splits list.splits)
  show ?thesis
    using assms(7,8) b' seen
    by (auto simp: handle_sync_accepted [OF assms(3) b'(1)] Let_def handle_local_change_def should_suppress_def)
qed

end
