(* ===== verification/Windows_Desktop.thy ===== *)
theory Windows_Desktop
  imports Windows_Behaviour
begin

text \<open>
  A small desktop that behaves as the hypotheses on the Win32 functions say, and the
  properties of the Windows backend at concrete states of it. The clipboard is held by another
  application at every second attempt, or, on a \<open>stuck\<close> desktop, at all of them.
\<close>

section \<open>The desktop\<close>

record desktop =
  dk_mem :: "nat \<Rightarrow> u16 list"
  dk_owned :: "nat list"
  dk_locks :: "nat \<Rightarrow> nat"
  dk_shown :: "nat option"
  dk_open :: bool
  dk_clock :: nat
  dk_classes :: "string list"
  dk_windows :: "nat list"
  dk_listeners :: "nat list"
  dk_quit :: bool

definition fresh_block :: "desktop \<Rightarrow> nat" where
  "fresh_block w = Suc (sum_list (dk_owned w) + (case dk_shown w of None \<Rightarrow> 0 | Some h \<Rightarrow> h))"

definition fresh_window :: "desktop \<Rightarrow> nat" where
  "fresh_window w = Suc (sum_list (dk_windows w) + sum_list (dk_listeners w))"

definition desk_alloc :: "nat \<Rightarrow> desktop \<Rightarrow> nat option \<times> desktop" where
  "desk_alloc n w =
     (let h = fresh_block w
      in (Some h, w\<lparr>dk_mem := (dk_mem w)(h := replicate (Suc (n div 2)) 0), dk_owned := h # dk_owned w\<rparr>))"

definition desk_open :: "bool \<Rightarrow> desktop \<Rightarrow> bool \<times> desktop" where
  "desk_open stuck w = (if stuck \<or> odd (dk_clock w) then (False, w) else (True, w\<lparr>dk_open := True\<rparr>))"

definition desk_create :: "string \<Rightarrow> desktop \<Rightarrow> nat option \<times> desktop" where
  "desk_create n w = (let h = fresh_window w in (Some h, w\<lparr>dk_windows := h # dk_windows w\<rparr>))"

definition desktop_api :: "bool \<Rightarrow> desktop win32" where
  "desktop_api stuck =
     \<lparr>w_available = (\<lambda>w. (dk_shown w \<noteq> None, w)),
      w_open = desk_open stuck,
      w_close = (\<lambda>w. w\<lparr>dk_open := False\<rparr>),
      w_empty = (\<lambda>w. (True, w\<lparr>dk_shown := None\<rparr>)),
      w_get_data = (\<lambda>w. (dk_shown w, w)),
      w_set_data = (\<lambda>h w. (True, w\<lparr>dk_shown := Some h, dk_owned := removeAll h (dk_owned w)\<rparr>)),
      w_alloc = desk_alloc,
      w_free = (\<lambda>h w. w\<lparr>dk_owned := removeAll h (dk_owned w)\<rparr>),
      w_lock = (\<lambda>h w. (True, w\<lparr>dk_locks := (dk_locks w)(h := Suc (dk_locks w h))\<rparr>)),
      w_unlock = (\<lambda>h w. w\<lparr>dk_locks := (dk_locks w)(h := dk_locks w h - 1)\<rparr>),
      w_size = (\<lambda>h w. 2 * length (dk_mem w h)),
      w_word = (\<lambda>h i w. dk_mem w h ! i),
      w_copy = (\<lambda>h us w. w\<lparr>dk_mem := (dk_mem w)(h := us @ drop (length us) (dk_mem w h))\<rparr>),
      w_last_error = (\<lambda>w. 0),
      w_sleep = (\<lambda>ms w. w\<lparr>dk_clock := Suc (dk_clock w)\<rparr>),
      w_register_class = (\<lambda>n w. (True, w\<lparr>dk_classes := n # dk_classes w\<rparr>)),
      w_unregister_class = (\<lambda>n w. w\<lparr>dk_classes := removeAll n (dk_classes w)\<rparr>),
      w_create_window = desk_create,
      w_destroy_window = (\<lambda>f h w. let w' = f WmDestroy w in w'\<lparr>dk_windows := removeAll h (dk_windows w')\<rparr>),
      w_add_listener = (\<lambda>h w. (True, w\<lparr>dk_listeners := h # dk_listeners w\<rparr>)),
      w_remove_listener = (\<lambda>h w. w\<lparr>dk_listeners := removeAll h (dk_listeners w)\<rparr>),
      w_translate = (\<lambda>m w. w),
      w_dispatch = (\<lambda>f m w. f m w),
      w_post_quit = (\<lambda>w. w\<lparr>dk_quit := True\<rparr>),
      w_def_window_proc = (\<lambda>m w. if m = WmClose then w\<lparr>dk_windows := []\<rparr> else w)\<rparr>"

definition desk_held :: "desktop \<Rightarrow> win_resources" where
  "desk_held w =
     \<lparr>wr_open = dk_open w, wr_blocks = set (dk_owned w), wr_locks = dk_locks w, wr_classes = set (dk_classes w),
      wr_windows = set (dk_windows w), wr_listeners = set (dk_listeners w)\<rparr>"

definition blank_desktop :: desktop where
  "blank_desktop =
     \<lparr>dk_mem = (\<lambda>_. []), dk_owned = [], dk_locks = (\<lambda>_. 0), dk_shown = None, dk_open = False, dk_clock = 1,
      dk_classes = [], dk_windows = [], dk_listeners = [], dk_quit = False\<rparr>"

lemma member_sum_list: "x \<in> set xs \<Longrightarrow> x \<le> sum_list xs" for x :: nat
  by (rule member_le_sum_list) simp_all

lemma fresh_block_new: "fresh_block w \<notin> set (dk_owned w)" "dk_shown w \<noteq> Some (fresh_block w)"
  using member_sum_list [of "fresh_block w" "dk_owned w"] by (auto simp: fresh_block_def split: option.splits)

lemma fresh_window_new: "fresh_window w \<notin> set (dk_windows w)" "fresh_window w \<notin> set (dk_listeners w)"
  using member_sum_list [of "fresh_window w" "dk_windows w"] member_sum_list [of "fresh_window w" "dk_listeners w"]
  by (auto simp: fresh_window_def)

lemma desktop_memory: "win32_memory (desktop_api stuck) desk_held"
  by (simp add: win32_memory_def desktop_api_def desk_held_def desk_alloc_def desk_open_def fresh_block_new Let_def)

lemma desktop_windows: "win32_windows (desktop_api stuck) desk_held"
  by (simp add: win32_windows_def keeps_held_def desktop_api_def desk_create_def fresh_window_new Let_def)
    (auto simp: desk_held_def fresh_window_new, simp_all add: fresh_window_def)

lemma desktop_text: "win32_text (desktop_api stuck) dk_shown"
  by (simp add: win32_text_def same_text_def holds_text_def desktop_api_def desk_alloc_def desk_open_def
      fresh_block_new Let_def nth_append)
    auto

lemma desktop_obliging: "win32_obliging (desktop_api False)"
proof -
  have "\<exists>k < CLIPBOARD_RETRY_COUNT. fst (w_open (desktop_api False) (waits (desktop_api False) k w))" for w
  proof (cases "odd (dk_clock w)")
    case True
    then have "fst (w_open (desktop_api False) (waits (desktop_api False) 1 w))"
      by (simp add: desktop_api_def desk_open_def)
    then show ?thesis by (intro exI [of _ 1]) (simp add: CLIPBOARD_RETRY_COUNT_def)
  next
    case False
    then show ?thesis by (intro exI [of _ 0]) (simp add: desktop_api_def desk_open_def CLIPBOARD_RETRY_COUNT_def)
  qed
  then show ?thesis unfolding win32_obliging_def by (simp add: desktop_api_def desk_alloc_def Let_def)
qed

section \<open>The properties at concrete states\<close>

lemma blank_held: "\<not> wr_open (desk_held blank_desktop)" "''Listener'' \<notin> wr_classes (desk_held blank_desktop)"
  by (simp_all add: desk_held_def blank_desktop_def)

lemma stuck_open: "fst (with_clipboard (desktop_api True) m w) = Inl busy_error"
proof (cases rule: open_retry_cases [of "desktop_api True" w])
  case (opened k)
  then show ?thesis by (simp add: desktop_api_def desk_open_def)
next
  case busy
  then show ?thesis by (simp add: with_clipboard_def sbind_def)
qed

lemma stuck_busy: "fst (win_set_content (desktop_api True) (Text ''hi'') blank_desktop) = Inl busy_error"
proof -
  have "w_alloc (desktop_api True) n w = desk_alloc n w" "fst (w_lock (desktop_api True) h w)" for n h w
    by (simp_all add: desktop_api_def)
  then show ?thesis
    by (simp add: win_set_content_def text_to_write_def sbind_def slift_def Let_def desk_alloc_def stuck_open
        split: prod.split bool.split) (metis fst_conv)
qed

theorem windows_resources_balanced_witness:
  "(\<exists>h. desk_held (snd (win_set_content (desktop_api True) (Text ''hi'') blank_desktop)) =
      (desk_held blank_desktop)\<lparr>wr_blocks := {h}\<rparr>) \<and>
   desk_held (snd (win_get_content (desktop_api True) blank_desktop)) = desk_held blank_desktop"
  using windows_resources_balanced [OF desktop_memory [of True] blank_held(1), of "Text ''hi''"] stuck_busy
  by (auto simp: desk_held_def blank_desktop_def)

theorem listener_cleans_up_witness:
  "let (ls, w) = run_clipboard_listener_loop (desktop_api False) ''Listener''
         [Message (WmOther 7), Message WmClipboardUpdate, Message WmClose] blank_desktop
   in ls_ended ls \<and> ls_hwnd ls = 0 \<and> desk_held w = desk_held blank_desktop"
proof -
  obtain ls w where r: "run_clipboard_listener_loop (desktop_api False) ''Listener''
      [Message (WmOther 7), Message WmClipboardUpdate, Message WmClose] blank_desktop = (ls, w)"
    by fastforce
  show ?thesis
    using listener_cleans_up [OF desktop_memory desktop_windows blank_held r] r by (auto simp: ends_pump_def)
qed


text \<open>A clipboard with a surrogate that has no partner.\<close>

definition broken_desktop :: desktop where
  "broken_desktop =
     blank_desktop\<lparr>dk_mem := (\<lambda>_. [0xD800, 0x41, 0, 0x42]), dk_shown := Some 3, dk_clock := 0\<rparr>"

lemma desktop_opens:
  "even (dk_clock w) \<Longrightarrow> open_clipboard_with_retry (desktop_api False) w = (Inr (), w\<lparr>dk_open := True\<rparr>)"
  by (simp add: open_clipboard_with_retry_def CLIPBOARD_RETRY_COUNT_def upt_conv_Cons desktop_api_def desk_open_def)

lemma broken_text: "from_utf16_lossy [0xD800, 0x41] = (map char_of [0xEF, 0xBF, 0xBD, 0x41 :: nat])"
  by (simp add: from_utf16_lossy_def high_surrogate_def low_surrogate_def utf8_of_def)

lemma broken_scan: "scan_text (desktop_api False) 3 4 w 0 = 2" if "dk_mem w 3 = [0xD800, 0x41, 0, 0x42]"
  using that by (simp add: scan_text.simps desktop_api_def)

lemma broken_get: "fst (win_get_content (desktop_api False) broken_desktop) =
    Inr (Some (Text (map char_of [0xEF, 0xBF, 0xBD, 0x41 :: nat])))"
proof -
  let ?api = "desktop_api False"
  have "w_available ?api broken_desktop = (True, broken_desktop)"
    by (simp add: desktop_api_def broken_desktop_def)
  moreover have "open_clipboard_with_retry ?api broken_desktop = (Inr (), broken_desktop\<lparr>dk_open := True\<rparr>)"
    by (rule desktop_opens) (simp add: broken_desktop_def)
  moreover define w1 where "w1 = broken_desktop\<lparr>dk_open := True\<rparr>"
  moreover have mem: "dk_mem w1 3 = [0xD800, 0x41, 0, 0x42]" "dk_shown w1 = Some 3"
    by (simp_all add: w1_def broken_desktop_def)
  moreover obtain w2 where "w_lock ?api 3 w1 = (True, w2)" and w2: "dk_mem w2 3 = [0xD800, 0x41, 0, 0x42]"
    using mem(1) by (simp add: desktop_api_def)
  moreover have "w_get_data ?api w1 = (Some 3, w1)" using mem(2) by (simp add: desktop_api_def)
  moreover have "fst (read_locked ?api 3 w2) = Inr (Some (Text (map char_of [0xEF, 0xBF, 0xBD, 0x41 :: nat])))"
  proof -
    have "w_size ?api 3 w2 div 2 = 4" "map (\<lambda>i. w_word ?api 3 i w2) [0..<2] = [0xD800, 0x41]"
      using w2 by (simp_all add: desktop_api_def upt_conv_Cons)
    then show ?thesis by (simp add: read_locked_def broken_scan [OF w2] broken_text Let_def)
  qed
  ultimately show ?thesis
    by (cases "read_locked ?api 3 w2") (simp add: win_get_content_def with_clipboard_def sbind_def read_open_def)
qed


definition markup :: clipboard_entry where
  "markup = entry_new sample_crates 0 (NodeId [1]) 1 (Html ''<b>hi</b>'' None) False"

definition desktop_engine :: "desktop windows_backend clipboard_engine" where
  "desktop_engine =
     engine_new (NodeId [2])
       \<lparr>wb_os = blank_desktop, wb_hwnd = 1, wb_is_running = True, wb_listener_thread = True\<rparr>
       default_clipboard_policy"

definition echo_codec :: "clipboard_message postcard" where
  "echo_codec =
     table_codec [(Sync (entry_new sample_crates 5 (NodeId [2]) 1 (Text ''<b>hi</b>'') False), [9])]"

lemma markup_accepted: "sync_accepted sample_crates desktop_engine markup"
  by (simp add: sync_accepted_def Let_def markup_def desktop_engine_def engine_new_def guard_new_def)
    (simp add: entry_new_def policy_validate_def default_clipboard_policy_def)

lemma markup_hash: "compute_hash sample_crates (Text ''<b>hi</b>'') \<noteq> compute_hash sample_crates (Html ''<b>hi</b>'' None)"
  by (simp add: compute_hash_def sample_digest_def str_bytes_def)

theorem native_echo_witness:
  "\<exists>ev e. handle_sync sample_crates (windows_clipboard (desktop_api False)) markup desktop_engine = (Inr (Some ev), e) \<and>
     fst (read_clipboard_text_direct (desktop_api False) (wb_os (en_backend e))) = Inr (Some (Text ''<b>hi</b>'')) \<and>
     fst (handle_local_change sample_crates echo_codec 5 (Text ''<b>hi</b>'') False e) =
       Inr (Some (data_frame_new CHANNEL_CLIPBOARD [9]))"
proof -
  have 1: "text_to_write (ce_content markup) = Inr ''<b>hi</b>''" and c: "ce_content markup = Html ''<b>hi</b>'' None"
    by (simp_all add: markup_def entry_new_def text_to_write_def)
  have 2: "utf8_valid ''<b>hi</b>''"
    by (simp add: utf8_valid_def codes_def utf8_codes.simps utf8_head_def utf8_width_def)
  have 3: "CHR 0x00 \<notin> set ''<b>hi</b>''" by simp
  have 4: "policy_validate (en_policy desktop_engine) (Text ''<b>hi</b>'') False = Inr ()"
    by (simp add: desktop_engine_def engine_new_def policy_validate_def default_clipboard_policy_def)
  have 5: "clip_to_data_frame echo_codec (Sync (entry_new sample_crates 5 (en_local_node_id desktop_engine)
      (en_sequence desktop_engine) (Text ''<b>hi</b>'') False)) = Inr (data_frame_new CHANNEL_CLIPBOARD [9])"
    by (simp add: clip_to_data_frame_def echo_codec_def table_codec_def desktop_engine_def engine_new_def)
  have "eg_seen (en_guard desktop_engine) = {}" by (simp add: desktop_engine_def engine_new_def guard_new_def)
  then show ?thesis
    using native_echo [OF desktop_text desktop_obliging markup_accepted 1 2 3 4 5] markup_hash by (auto simp: c)
qed

end
